(* ===== verification/Prelude.thy ===== *)
theory Prelude
  imports Main "HOL-Library.Word" "HOL-Library.AList"
begin

unbundle bit_operations_syntax

section \<open>Prelude: machine types, byte composition, list and map lemmas\<close>

text \<open>
  What every component shares: names for the fixed-width integers of the sources, the split of
  a wide integer into bytes (little-endian for payload fields, big-endian for the CRC), a result
  type with its sequencing operator, generic facts on lists and association lists, and the contract of a
  container with a capacity.
  Facts that rewrite byte compositions are collected in \<open>byte_simps\<close>, well-formedness
  unfoldings in \<open>wf_defs\<close>, step functions in \<open>step_defs\<close>.
\<close>

named_theorems byte_simps "splitting words into bytes and joining them again"
named_theorems wf_defs "definitions of well-formedness predicates"
named_theorems step_defs "definitions of the small operations components are composed of"

subsection \<open>Integer types\<close>

text \<open>\<open>std::uintN_t\<close> is \<open>N word\<close>; \<open>std::int32_t\<close> is an \<open>int\<close> whose range is stated where
  it matters; \<open>std::size_t\<close> is \<open>nat\<close> (buffer sizes and indices, all far below the type's
  range); \<open>steady_clock::time_point\<close> is an \<open>int\<close> count of nanoseconds.\<close>

type_synonym u8 = "8 word"
type_synonym u16 = "16 word"
type_synonym u32 = "32 word"
type_synonym i32 = int
type_synonym time_point = int

subsection \<open>Words\<close>

lemma unat_u8_less [simp]: "unat (b :: u8) < 256"
  using unsigned_less [of b] by simp

lemma unat_u8_le [simp]: "unat (b :: u8) \<le> 255"
  using unat_u8_less [of b] by linarith

lemma unat_Suc_less: "unat (i :: u8) < unat (code :: u8) \<Longrightarrow> unat (i + 1) = Suc (unat i)"
proof -
  assume "unat i < unat code"
  then have "Suc (unat i) < 256" using unat_u8_less [of code] by linarith
  then show ?thesis by (simp add: unat_word_ariths)
qed

subsection \<open>Little-endian fields\<close>

text \<open>The packed structs of the wire format are laid over memory of a little-endian target: an
  integer field is its bytes, least significant first.\<close>

definition le16 :: "u16 \<Rightarrow> u8 list" where
  "le16 w = [ucast w, ucast (drop_bit 8 w)]"

definition le32 :: "u32 \<Rightarrow> u8 list" where
  "le32 w = [ucast w, ucast (drop_bit 8 w), ucast (drop_bit 16 w), ucast (drop_bit 24 w)]"

definition of_le16 :: "u8 \<Rightarrow> u8 \<Rightarrow> u16" where
  "of_le16 a b = ucast a OR push_bit 8 (ucast b)"

definition of_le32 :: "u8 \<Rightarrow> u8 \<Rightarrow> u8 \<Rightarrow> u8 \<Rightarrow> u32" where
  "of_le32 a b c d =
     ucast a OR push_bit 8 (ucast b) OR push_bit 16 (ucast c) OR push_bit 24 (ucast d)"

lemma of_le16_le16 [byte_simps]: "of_le16 (ucast w) (ucast (drop_bit 8 w)) = w"
  by (rule bit_word_eqI) (auto simp: of_le16_def bit_simps)

lemma of_le32_le32 [byte_simps]:
  "of_le32 (ucast w) (ucast (drop_bit 8 w)) (ucast (drop_bit 16 w)) (ucast (drop_bit 24 w)) = w"
proof (rule bit_word_eqI)
  fix n assume n: "n < LENGTH(32)"
  consider "n < 8" | "8 \<le> n" "n < 16" | "16 \<le> n" "n < 24" | "24 \<le> n" by linarith
  then show "bit (of_le32 (ucast w) (ucast (drop_bit 8 w)) (ucast (drop_bit 16 w))
      (ucast (drop_bit 24 w))) n = bit w n"
    using n by cases (auto simp: of_le32_def bit_simps)
qed

lemma le16_of_le16 [byte_simps]: "le16 (of_le16 a b) = [a, b]"
proof -
  have "ucast (of_le16 a b) = a" "ucast (drop_bit 8 (of_le16 a b)) = b"
    by (rule bit_word_eqI; auto simp: of_le16_def bit_simps dest: bit_imp_le_length)+
  then show ?thesis by (simp add: le16_def)
qed

lemma le32_of_le32 [byte_simps]: "le32 (of_le32 a b c d) = [a, b, c, d]"
proof -
  have "ucast (of_le32 a b c d) = a" "ucast (drop_bit 8 (of_le32 a b c d)) = b"
    "ucast (drop_bit 16 (of_le32 a b c d)) = c" "ucast (drop_bit 24 (of_le32 a b c d)) = d"
    by (rule bit_word_eqI; auto simp: of_le32_def bit_simps dest: bit_imp_le_length)+
  then show ?thesis by (simp add: le32_def)
qed

lemma length_le16 [simp]: "length (le16 w) = 2"
  by (simp add: le16_def)

lemma length_le32 [simp]: "length (le32 w) = 4"
  by (simp add: le32_def)

text \<open>\<open>std::int32_t\<close>: the value as an integer, its object representation as a word.\<close>

definition in_i32 :: "int \<Rightarrow> bool" where
  "in_i32 v \<longleftrightarrow> - (2 ^ 31) \<le> v \<and> v < 2 ^ 31"

lemma sint_word_of_int_i32 [simp]: "in_i32 v \<Longrightarrow> sint (word_of_int v :: u32) = v"
  by (simp add: in_i32_def signed_of_int signed_take_bit_int_eq_self)

lemma in_i32_sint [simp]: "in_i32 (sint (w :: u32))"
  using sint_greater_eq [of w] sint_less [of w] by (simp add: in_i32_def)

subsection \<open>Results\<close>

text \<open>\<open>Inl\<close> is an exit that abandons the computation (an exception, or undefined behaviour made
  visible), \<open>Inr\<close> a normal return. \<open>and_then\<close> sequences, \<open>fold_res\<close> is a \<open>for\<close> loop whose body may
  exit.\<close>

fun and_then :: "'e + 'a \<Rightarrow> ('a \<Rightarrow> 'e + 'b) \<Rightarrow> 'e + 'b" where
  "and_then (Inl e) f = Inl e"
| "and_then (Inr x) f = f x"

fun fold_res :: "('x \<Rightarrow> 's \<Rightarrow> 'e + 's) \<Rightarrow> 'x list \<Rightarrow> 's \<Rightarrow> 'e + 's" where
  "fold_res f [] s = Inr s"
| "fold_res f (x # xs) s = and_then (f x s) (fold_res f xs)"

lemma and_then_Inr: "and_then r f = Inr y \<longleftrightarrow> (\<exists>x. r = Inr x \<and> f x = Inr y)"
  by (cases r) auto

lemma and_then_assoc: "and_then (and_then r f) g = and_then r (\<lambda>x. and_then (f x) g)"
  by (cases r) auto

lemma fold_res_append: "fold_res f (xs @ ys) s = and_then (fold_res f xs s) (fold_res f ys)"
proof (induction xs arbitrary: s)
  case (Cons x xs)
  then show ?case by (cases "f x s") auto
qed simp

lemma fold_res_total:
  "(\<And>x s. x \<in> set xs \<Longrightarrow> P s \<Longrightarrow> \<exists>s'. f x s = Inr s' \<and> P s') \<Longrightarrow> P s \<Longrightarrow>
   \<exists>s'. fold_res f xs s = Inr s' \<and> P s'"
proof (induction xs arbitrary: s)
  case (Cons x xs)
  then obtain s1 where "f x s = Inr s1" "P s1" by force
  with Cons show ?case by (simp add: Cons.IH)
qed simp

lemma fold_res_pure: "fold_res (\<lambda>x s. Inr (f x s)) xs s = Inr (fold f xs s)"
  by (induction xs arbitrary: s) auto

lemma fold_res_invariant:
  "fold_res f xs s = Inr s' \<Longrightarrow> P s \<Longrightarrow>
   (\<And>x s s'. x \<in> set xs \<Longrightarrow> P s \<Longrightarrow> f x s = Inr s' \<Longrightarrow> P s') \<Longrightarrow> P s'"
proof (induction xs arbitrary: s)
  case (Cons x xs)
  then obtain s1 where s1: "f x s = Inr s1" "fold_res f xs s1 = Inr s'"
    by (auto simp: and_then_Inr)
  then have "P s1" using Cons.prems by auto
  with s1(2) show ?case using Cons by auto
qed simp

lemma fold_res_commute:
  "(\<And>x s. f x (g s) = and_then (f x s) (\<lambda>s. Inr (g s))) \<Longrightarrow>
   fold_res f xs (g s) = and_then (fold_res f xs s) (\<lambda>s. Inr (g s))"
proof (induction xs arbitrary: s)
  case (Cons x xs)
  then show ?case by (cases "f x s") simp_all
qed simp

text \<open>A computation that may also not return: \<open>None\<close> is a loop that never ends.\<close>

definition run_then :: "('e + 'a) option \<Rightarrow> ('a \<Rightarrow> ('e + 'b) option) \<Rightarrow> ('e + 'b) option" where
  "run_then m f = Option.bind m (\<lambda>r. case r of Inl e \<Rightarrow> Some (Inl e) | Inr x \<Rightarrow> f x)"

lemma run_then_simps [simp]:
  "run_then None f = None" "run_then (Some (Inl e)) f = Some (Inl e)"
  "run_then (Some (Inr x)) f = f x"
  by (simp_all add: run_then_def)

lemma run_then_mono [partial_function_mono]:
  assumes "mono_option B" and "\<And>y. mono_option (\<lambda>f. C y f)"
  shows "mono_option (\<lambda>f. run_then (B f) (\<lambda>y. C y f))"
  unfolding run_then_def
proof (rule bind_mono [OF assms(1)])
  show "mono_option (\<lambda>f. case r of Inl e \<Rightarrow> Some (Inl e) | Inr x \<Rightarrow> C x f)" for r
    using assms(2) by (cases r) (auto intro: option.const_mono)
qed

lemma run_then_Inr: "run_then m f = Some (Inr y) \<longleftrightarrow> (\<exists>x. m = Some (Inr x) \<and> f x = Some (Inr y))"
  by (cases m; cases "the m") (auto simp: run_then_def)

lemma run_then_Some: "run_then (Some r) f = (case r of Inl e \<Rightarrow> Some (Inl e) | Inr x \<Rightarrow> f x)"
  by (simp add: run_then_def)

fun fold_run :: "('x \<Rightarrow> 's \<Rightarrow> ('e + 's) option) \<Rightarrow> 'x list \<Rightarrow> 's \<Rightarrow> ('e + 's) option" where
  "fold_run f [] s = Some (Inr s)"
| "fold_run f (x # xs) s = run_then (f x s) (fold_run f xs)"

lemma fold_run_append: "fold_run f (xs @ ys) s = run_then (fold_run f xs s) (fold_run f ys)"
proof (induction xs arbitrary: s)
  case (Cons x xs)
  then show ?case by (cases "f x s") (auto simp: run_then_Some split: sum.splits)
qed simp

lemma fold_run_invariant:
  "fold_run f xs s = Some (Inr s') \<Longrightarrow> P s \<Longrightarrow>
   (\<And>x s s'. x \<in> set xs \<Longrightarrow> P s \<Longrightarrow> f x s = Some (Inr s') \<Longrightarrow> P s') \<Longrightarrow> P s'"
proof (induction xs arbitrary: s)
  case (Cons x xs)
  then obtain s1 where s1: "f x s = Some (Inr s1)" "fold_run f xs s1 = Some (Inr s')"
    by (auto simp: run_then_Inr)
  then have "P s1" using Cons.prems by auto
  with s1(2) show ?case using Cons by auto
qed simp

subsection \<open>Time\<close>

text \<open>Durations in milliseconds are scaled before they are compared with nanosecond counts.\<close>

definition ns_of_ms :: "int \<Rightarrow> int" where "ns_of_ms ms = ms * 1000000"

text \<open>\<open>duration_cast<milliseconds>\<close> divides and rounds toward zero.\<close>

definition ms_of_ns :: "int \<Rightarrow> int" where
  "ms_of_ns ns = (if 0 \<le> ns then ns div 1000000 else - ((- ns) div 1000000))"

lemma ns_of_ms_mono: "a \<le> b \<Longrightarrow> ns_of_ms a \<le> ns_of_ms b"
  by (simp add: ns_of_ms_def)

lemma ms_of_ns_of_ms [simp]: "ms_of_ns (ns_of_ms t) = t"
proof -
  have "- (t * 1000000) div 1000000 = - t"
    by (simp only: mult_minus_left [symmetric] nonzero_mult_div_cancel_right)
  then show ?thesis by (simp add: ms_of_ns_def ns_of_ms_def)
qed

lemma ms_of_ns_bounds:
  assumes "0 \<le> t"
  shows "ns_of_ms (ms_of_ns t) \<le> t \<and> t < ns_of_ms (ms_of_ns t + 1)"
proof -
  have "ns_of_ms (ms_of_ns t) = t - t mod 1000000"
    using assms by (simp add: ms_of_ns_def ns_of_ms_def minus_mod_eq_div_mult)
  moreover have "ns_of_ms (ms_of_ns t + 1) = ns_of_ms (ms_of_ns t) + 1000000"
    by (simp add: ns_of_ms_def distrib_right)
  moreover have "0 \<le> t mod 1000000" "t mod 1000000 < 1000000" by simp_all
  ultimately show ?thesis by linarith
qed

subsection \<open>Containers with a capacity\<close>

text \<open>What every container of fixed capacity promises of its insertion: it appends and reports \<open>true\<close> while
  there is room, and otherwise changes nothing. The two containers of src/proto extend this contract by the
  way they give elements back.\<close>

locale bounded_container =
  fixes push :: "'a \<Rightarrow> 'q \<Rightarrow> bool \<times> 'q" and items :: "'q \<Rightarrow> 'a list"
    and invar :: "'q \<Rightarrow> bool" and limit :: "'q \<Rightarrow> nat"
  assumes push_room: "invar q \<Longrightarrow> length (items q) < limit q \<Longrightarrow>
      fst (push x q) \<and> items (snd (push x q)) = items q @ [x]"
    and push_full: "invar q \<Longrightarrow> length (items q) = limit q \<Longrightarrow> push x q = (False, q)"
    and push_invar: "invar q \<Longrightarrow> invar (snd (push x q)) \<and> limit (snd (push x q)) = limit q"
    and bounded: "invar q \<Longrightarrow> length (items q) \<le> limit q"
begin

lemma push_reports: "invar q \<Longrightarrow> fst (push x q) \<longleftrightarrow> length (items q) < limit q"
  using push_room push_full bounded by (metis fst_conv le_neq_implies_less)

lemma push_items: "invar q \<Longrightarrow> items (snd (push x q)) = items q @ (if length (items q) < limit q then [x] else [])"
  using push_room [of q x] push_full [of q x] bounded [of q] by (cases "length (items q) < limit q") auto

text \<open>Of a sequence of insertions the first are kept, up to the room there was.\<close>

lemma push_all_items:
  "invar q \<Longrightarrow> (let q' = fold (\<lambda>x q. snd (push x q)) xs q in
   invar q' \<and> limit q' = limit q \<and> items q' = items q @ take (limit q - length (items q)) xs)"
proof (induction xs arbitrary: q)
  case (Cons x xs)
  have inv: "invar (snd (push x q))" "limit (snd (push x q)) = limit q"
    using push_invar [OF Cons.prems] by auto
  show ?case
    using Cons.IH [OF inv(1)] inv push_items [OF Cons.prems, of x] bounded [OF Cons.prems]
    by (cases "length (items q) < limit q") (simp_all add: Let_def take_Cons' Suc_diff_Suc)
qed simp

end

end
