(* ===== verification/Ring_Buffer.thy ===== *)
theory Ring_Buffer
  imports Prelude
begin

section \<open>Single-producer single-consumer ring buffer (proto/ring_buffer.hpp)\<close>

text \<open>
  First the operations as sequential functions on the object, shown to implement a bounded FIFO
  (the locale \<open>bounded_fifo\<close>). Then the concurrent picture: \<open>push\<close> and \<open>pop\<close> are broken into
  their atomic accesses and one producer and one consumer interleave them freely. The acquire and
  release orderings of the code make each such access a step on one shared memory: the index store
  that publishes a slot is ordered after the slot's write, the load that observes it before the
  slot's read.
\<close>

subsection \<open>Object and operations\<close>

text \<open>\<open>Capacity\<close> is the length of the array.\<close>

record 'a ring_buffer =
  rb_buffer :: "'a list"
  rb_head :: nat
  rb_tail :: nat

abbreviation rb_cap :: "'a ring_buffer \<Rightarrow> nat" where
  "rb_cap r \<equiv> length (rb_buffer r)"

definition advance :: "nat \<Rightarrow> nat \<Rightarrow> nat" where
  "advance Capacity index = (index + 1) mod Capacity"

definition rb_new :: "nat \<Rightarrow> 'a \<Rightarrow> 'a ring_buffer" where
  "rb_new Capacity dflt = \<lparr>rb_buffer = replicate Capacity dflt, rb_head = 0, rb_tail = 0\<rparr>"

definition rb_push :: "'a \<Rightarrow> 'a ring_buffer \<Rightarrow> bool \<times> 'a ring_buffer" where
  "rb_push value r =
     (let tail = rb_tail r; nxt = advance (rb_cap r) tail in
      if nxt = rb_head r then (False, r)
      else (True, r\<lparr>rb_buffer := (rb_buffer r)[tail := value], rb_tail := nxt\<rparr>))"

definition rb_pop :: "'a ring_buffer \<Rightarrow> 'a option \<times> 'a ring_buffer" where
  "rb_pop r =
     (let head = rb_head r in
      if head = rb_tail r then (None, r)
      else (Some (rb_buffer r ! head), r\<lparr>rb_head := advance (rb_cap r) head\<rparr>))"

definition rb_empty :: "'a ring_buffer \<Rightarrow> bool" where
  "rb_empty r \<longleftrightarrow> rb_head r = rb_tail r"

definition rb_full :: "'a ring_buffer \<Rightarrow> bool" where
  "rb_full r \<longleftrightarrow> advance (rb_cap r) (rb_tail r) = rb_head r"

definition rb_size :: "'a ring_buffer \<Rightarrow> nat" where
  "rb_size r = (rb_tail r + rb_cap r - rb_head r) mod rb_cap r"

definition rb_capacity :: "'a ring_buffer \<Rightarrow> nat" where
  "rb_capacity r = rb_cap r - 1"

subsection \<open>Index arithmetic\<close>

lemma ring_distance:
  assumes "h < (n :: nat)" "t < n"
  shows "(t + n - h) mod n = (if h \<le> t then t - h else t + n - h)"
proof (cases "h \<le> t")
  case True
  then have "(t + n - h) mod n = ((t - h) + n) mod n" by simp
  also have "\<dots> = t - h" using assms by (simp only: mod_add_self2) simp
  finally show ?thesis using True by simp
qed (use assms in simp)

lemma ring_index:
  assumes "h < (n :: nat)" "k < n"
  shows "(h + k) mod n = (if h + k < n then h + k else h + k - n)"
  using assms by (simp add: mod_if [of "h + k"])

lemma ring_advance: "i < n \<Longrightarrow> advance n i = (if i + 1 = n then 0 else i + 1)"
  by (simp add: advance_def)

definition rb_ok :: "'a ring_buffer \<Rightarrow> bool" where
  "rb_ok r \<longleftrightarrow> 2 \<le> rb_cap r \<and> rb_head r < rb_cap r \<and> rb_tail r < rb_cap r"

definition rb_contents :: "'a ring_buffer \<Rightarrow> 'a list" where
  "rb_contents r = map (\<lambda>k. rb_buffer r ! ((rb_head r + k) mod rb_cap r)) [0..<rb_size r]"

lemma length_rb_contents [simp]: "length (rb_contents r) = rb_size r"
  by (simp add: rb_contents_def)

lemma rb_size_if:
  "rb_ok r \<Longrightarrow> rb_size r = (if rb_head r \<le> rb_tail r then rb_tail r - rb_head r
                           else rb_tail r + rb_cap r - rb_head r)"
  by (simp add: rb_size_def rb_ok_def ring_distance)

lemma rb_ok_moves:
  "rb_ok r \<Longrightarrow> rb_ok (r\<lparr>rb_tail := advance (rb_cap r) (rb_tail r)\<rparr>)"
  "rb_ok r \<Longrightarrow> rb_ok (r\<lparr>rb_head := advance (rb_cap r) (rb_head r)\<rparr>)"
  "rb_ok r \<Longrightarrow> rb_ok (r\<lparr>rb_buffer := (rb_buffer r)[i := v]\<rparr>)"
  by (auto simp: rb_ok_def ring_advance)

lemma rb_size_less: "rb_ok r \<Longrightarrow> rb_size r < rb_cap r"
  by (auto simp: rb_size_if rb_ok_def)

lemma rb_size_0: "rb_ok r \<Longrightarrow> rb_size r = 0 \<longleftrightarrow> rb_head r = rb_tail r"
  by (auto simp: rb_size_if rb_ok_def)

lemma rb_size_full: "rb_ok r \<Longrightarrow> rb_size r = rb_cap r - 1 \<longleftrightarrow> advance (rb_cap r) (rb_tail r) = rb_head r"
  by (auto simp: rb_size_if rb_ok_def ring_advance)

lemma rb_tail_eq: "rb_ok r \<Longrightarrow> (rb_head r + rb_size r) mod rb_cap r = rb_tail r"
  using rb_size_less [of r] by (auto simp: rb_size_if rb_ok_def)

lemma rb_size_publish:
  assumes "rb_ok r" "advance (rb_cap r) (rb_tail r) \<noteq> rb_head r"
  shows "rb_size (r\<lparr>rb_tail := advance (rb_cap r) (rb_tail r)\<rparr>) = Suc (rb_size r)"
  using assms rb_ok_moves(1) [OF assms(1)]
  by (auto simp: rb_size_if) (auto simp: rb_ok_def ring_advance split: if_splits)

lemma rb_size_consume:
  assumes "rb_ok r" "rb_head r \<noteq> rb_tail r"
  shows "rb_size r = Suc (rb_size (r\<lparr>rb_head := advance (rb_cap r) (rb_head r)\<rparr>))"
  using assms rb_ok_moves(2) [OF assms(1)]
  by (auto simp: rb_size_if) (auto simp: rb_ok_def ring_advance split: if_splits)

lemma ring_index_inj:
  "h < n \<Longrightarrow> j < n \<Longrightarrow> k < n \<Longrightarrow> (h + j) mod n = (h + k) mod n \<Longrightarrow> j = k" for n :: nat
  by (auto simp: ring_index split: if_splits)

text \<open>Writing the slot at \<open>tail\<close> does not disturb the contents.\<close>

lemma rb_contents_write_tail:
  assumes "rb_ok r"
  shows "rb_contents (r\<lparr>rb_buffer := (rb_buffer r)[rb_tail r := v]\<rparr>) = rb_contents r"
proof -
  have ne: "(rb_head r + k) mod rb_cap r \<noteq> rb_tail r" if "k < rb_size r" for k
    using ring_index_inj [of "rb_head r" "rb_cap r" k "rb_size r"] rb_tail_eq [OF assms]
      rb_size_less [OF assms] assms that by (auto simp: rb_ok_def)
  have "rb_size (r\<lparr>rb_buffer := (rb_buffer r)[rb_tail r := v]\<rparr>) = rb_size r"
    by (simp add: rb_size_def)
  then show ?thesis
    unfolding rb_contents_def by (intro map_cong) (auto dest!: ne)
qed

lemma rb_contents_publish:
  assumes "rb_ok r" "advance (rb_cap r) (rb_tail r) \<noteq> rb_head r"
  shows "rb_contents (r\<lparr>rb_tail := advance (rb_cap r) (rb_tail r)\<rparr>) =
     rb_contents r @ [rb_buffer r ! rb_tail r]"
  using rb_size_publish [OF assms] rb_tail_eq [OF assms(1)] by (simp add: rb_contents_def)

lemma rb_contents_consume:
  assumes "rb_ok r" "rb_head r \<noteq> rb_tail r"
  shows "rb_contents r =
     rb_buffer r ! rb_head r # rb_contents (r\<lparr>rb_head := advance (rb_cap r) (rb_head r)\<rparr>)"
proof -
  let ?r = "r\<lparr>rb_head := advance (rb_cap r) (rb_head r)\<rparr>"
  let ?at = "\<lambda>k. rb_buffer r ! ((rb_head r + k) mod rb_cap r)"
  have "(rb_head r + Suc k) mod rb_cap r = (advance (rb_cap r) (rb_head r) + k) mod rb_cap r" for k
    by (simp add: advance_def mod_add_left_eq)
  then have "rb_contents ?r = map (\<lambda>k. ?at (Suc k)) [0..<rb_size ?r]"
    by (simp add: rb_contents_def)
  moreover have "rb_contents r = map ?at (0 # map Suc [0..<rb_size ?r])"
    unfolding rb_contents_def rb_size_consume [OF assms] by (simp only: upt_conv_Cons map_Suc_upt)
  moreover have "?at 0 = rb_buffer r ! rb_head r"
    using assms(1) by (simp add: rb_ok_def)
  ultimately show ?thesis by (simp add: comp_def)
qed

subsection \<open>A bounded FIFO\<close>

text \<open>What a caller of \<open>push\<close> and \<open>pop\<close> relies on: a queue of at most \<open>limit\<close> elements.\<close>

primrec pop_many :: "('q \<Rightarrow> 'a option \<times> 'q) \<Rightarrow> nat \<Rightarrow> 'q \<Rightarrow> 'a list \<times> 'q" where
  "pop_many pop 0 q = ([], q)"
| "pop_many pop (Suc n) q =
     (case pop q of (None, q) \<Rightarrow> ([], q)
      | (Some x, q) \<Rightarrow> (case pop_many pop n q of (xs, q) \<Rightarrow> (x # xs, q)))"

locale bounded_fifo = bounded_container push items invar limit
  for push :: "'a \<Rightarrow> 'q \<Rightarrow> bool \<times> 'q" and items :: "'q \<Rightarrow> 'a list" and invar :: "'q \<Rightarrow> bool" and limit :: "'q \<Rightarrow> nat" +
  fixes pop :: "'q \<Rightarrow> 'a option \<times> 'q"
  assumes pop_some: "invar q \<Longrightarrow> items q = x # xs \<Longrightarrow>
      fst (pop q) = Some x \<and> items (snd (pop q)) = xs"
    and pop_none: "invar q \<Longrightarrow> items q = [] \<Longrightarrow> pop q = (None, q)"
    and pop_invar: "invar q \<Longrightarrow> invar (snd (pop q)) \<and> limit (snd (pop q)) = limit q"
begin

lemma pop_many_items:
  "invar q \<Longrightarrow> fst (pop_many pop n q) = take n (items q) \<and> items (snd (pop_many pop n q)) = drop n (items q)"
proof (induction n arbitrary: q)
  case (Suc n)
  show ?case
  proof (cases "items q")
    case Nil
    then show ?thesis using pop_none [OF Suc.prems] by simp
  next
    case (Cons x xs)
    then show ?thesis
      using pop_some [OF Suc.prems Cons] pop_invar [OF Suc.prems] Suc.IH [of "snd (pop q)"]
      by (cases "pop q") (auto split: prod.splits)
  qed
qed simp

text \<open>What goes in comes out, in order, up to the room there was.\<close>

lemma fifo_order:
  "invar q \<Longrightarrow> fst (pop_many pop n (fold (\<lambda>x q. snd (push x q)) xs q)) =
     take n (items q @ take (limit q - length (items q)) xs)"
  using push_all_items [of q xs] by (simp add: pop_many_items Let_def)

end

interpretation ring_fifo: bounded_fifo rb_push rb_contents rb_ok rb_capacity rb_pop
proof (unfold_locales, goal_cases)
  case (1 q x)
  have room: "advance (rb_cap q) (rb_tail q) \<noteq> rb_head q"
    using 1 rb_size_full [of q] by (auto simp: rb_capacity_def)
  let ?q = "q\<lparr>rb_buffer := (rb_buffer q)[rb_tail q := x]\<rparr>"
  have "rb_ok ?q" using 1 by (intro rb_ok_moves)
  then have "rb_contents (?q\<lparr>rb_tail := advance (rb_cap ?q) (rb_tail ?q)\<rparr>) =
      rb_contents ?q @ [rb_buffer ?q ! rb_tail ?q]"
    using room by (intro rb_contents_publish) auto
  with room 1 show ?case
    by (simp add: rb_push_def rb_contents_write_tail Let_def) (simp add: rb_ok_def)
next
  case (2 q x)
  then show ?case using rb_size_full [of q] by (simp add: rb_push_def rb_capacity_def)
next
  case (5 q x xs)
  then have "rb_size q \<noteq> 0" by (metis length_rb_contents length_0_conv list.distinct(1))
  then have "rb_head q \<noteq> rb_tail q" using rb_size_0 [of q] 5 by simp
  with 5 rb_contents_consume [of q] show ?case by (simp add: rb_pop_def Let_def)
next
  case (6 q)
  then have "rb_size q = 0" by (metis length_rb_contents list.size(3))
  then show ?case using rb_size_0 [of q] 6 by (simp add: rb_pop_def)
next
  case (3 q x)
  then show ?case using rb_ok_moves(3) [of q "rb_tail q" x]
      rb_ok_moves(1) [of "q\<lparr>rb_buffer := (rb_buffer q)[rb_tail q := x]\<rparr>"]
    by (auto simp: rb_push_def rb_capacity_def Let_def)
next
  case (7 q)
  then show ?case using rb_ok_moves(2) [of q] by (auto simp: rb_pop_def rb_capacity_def Let_def)
next
  case (4 q)
  then show ?case using rb_size_less [of q] by (simp add: rb_capacity_def)
qed

text \<open>Used from one thread, the ring is a queue: of a burst of values the first are kept, as many as there was
  room for, and they come out after those already there.\<close>

lemma ring_keeps_order:
  "rb_ok r \<Longrightarrow> fst (pop_many rb_pop n (fold (\<lambda>x r. snd (rb_push x r)) xs r)) =
     take n (rb_contents r @ take (rb_capacity r - rb_size r) xs)"
  using ring_fifo.fifo_order [of r n xs] by simp

subsection \<open>Producer and consumer interleaved\<close>

text \<open>Where each thread stands between two accesses of its operation, with its local variables. The
  lists \<open>pushed\<close> and \<open>popped\<close> record the values whose \<open>push\<close> or \<open>pop\<close> returned \<open>true\<close>.\<close>

datatype 'a producer = P_idle | P_loaded 'a nat | P_room 'a nat | P_written 'a nat

datatype 'a consumer = C_idle | C_loaded nat | C_avail nat | C_read nat 'a

record 'a spsc =
  ring :: "'a ring_buffer"
  ppc :: "'a producer"
  cpc :: "'a consumer"
  pushed :: "'a list"
  popped :: "'a list"

definition spsc_init :: "nat \<Rightarrow> 'a \<Rightarrow> 'a spsc" where
  "spsc_init Capacity dflt =
     \<lparr>ring = rb_new Capacity dflt, ppc = P_idle, cpc = C_idle, pushed = [], popped = []\<rparr>"

inductive spsc_step :: "'a spsc \<Rightarrow> 'a spsc \<Rightarrow> bool" where
  push_load_tail: "ppc s = P_idle \<Longrightarrow> spsc_step s (s\<lparr>ppc := P_loaded v (rb_tail (ring s))\<rparr>)"
| push_full: "ppc s = P_loaded v t \<Longrightarrow> advance (rb_cap (ring s)) t = rb_head (ring s) \<Longrightarrow>
     spsc_step s (s\<lparr>ppc := P_idle\<rparr>)"
| push_room: "ppc s = P_loaded v t \<Longrightarrow> advance (rb_cap (ring s)) t \<noteq> rb_head (ring s) \<Longrightarrow>
     spsc_step s (s\<lparr>ppc := P_room v t\<rparr>)"
| push_write: "ppc s = P_room v t \<Longrightarrow>
     spsc_step s (s\<lparr>ring := (ring s)\<lparr>rb_buffer := (rb_buffer (ring s))[t := v]\<rparr>,
                    ppc := P_written v t\<rparr>)"
| push_publish: "ppc s = P_written v t \<Longrightarrow>
     spsc_step s (s\<lparr>ring := (ring s)\<lparr>rb_tail := advance (rb_cap (ring s)) t\<rparr>,
                    ppc := P_idle, pushed := pushed s @ [v]\<rparr>)"
| pop_load_head: "cpc s = C_idle \<Longrightarrow> spsc_step s (s\<lparr>cpc := C_loaded (rb_head (ring s))\<rparr>)"
| pop_empty: "cpc s = C_loaded h \<Longrightarrow> h = rb_tail (ring s) \<Longrightarrow> spsc_step s (s\<lparr>cpc := C_idle\<rparr>)"
| pop_avail: "cpc s = C_loaded h \<Longrightarrow> h \<noteq> rb_tail (ring s) \<Longrightarrow>
     spsc_step s (s\<lparr>cpc := C_avail h\<rparr>)"
| pop_read: "cpc s = C_avail h \<Longrightarrow>
     spsc_step s (s\<lparr>cpc := C_read h (rb_buffer (ring s) ! h)\<rparr>)"
| pop_release: "cpc s = C_read h x \<Longrightarrow>
     spsc_step s (s\<lparr>ring := (ring s)\<lparr>rb_head := advance (rb_cap (ring s)) h\<rparr>,
                    cpc := C_idle, popped := popped s @ [x]\<rparr>)"

inductive spsc_reachable :: "nat \<Rightarrow> 'a \<Rightarrow> 'a spsc \<Rightarrow> bool" for n d where
  spsc_start: "spsc_reachable n d (spsc_init n d)"
| spsc_next: "spsc_reachable n d s \<Longrightarrow> spsc_step s s' \<Longrightarrow> spsc_reachable n d s'"

inductive_cases spsc_stepE: "spsc_step s s'"

text \<open>The producer's local \<open>tail\<close> is current, and once it has seen room there is room until it
  publishes; the consumer's local \<open>head\<close> is current, and once it has seen an element the element
  stays until it is released.\<close>

definition producer_ok :: "'a spsc \<Rightarrow> bool" where
  "producer_ok s \<longleftrightarrow>
     (case ppc s of
        P_idle \<Rightarrow> True
      | P_loaded v t \<Rightarrow> t = rb_tail (ring s)
      | P_room v t \<Rightarrow> t = rb_tail (ring s) \<and> rb_size (ring s) < rb_capacity (ring s)
      | P_written v t \<Rightarrow> t = rb_tail (ring s) \<and> rb_size (ring s) < rb_capacity (ring s) \<and>
          rb_buffer (ring s) ! t = v)"

definition consumer_ok :: "'a spsc \<Rightarrow> bool" where
  "consumer_ok s \<longleftrightarrow>
     (case cpc s of
        C_idle \<Rightarrow> True
      | C_loaded h \<Rightarrow> h = rb_head (ring s)
      | C_avail h \<Rightarrow> h = rb_head (ring s) \<and> rb_size (ring s) \<noteq> 0
      | C_read h x \<Rightarrow> h = rb_head (ring s) \<and> rb_size (ring s) \<noteq> 0 \<and> rb_buffer (ring s) ! h = x)"

definition spsc_inv :: "nat \<Rightarrow> 'a spsc \<Rightarrow> bool" where
  "spsc_inv n s \<longleftrightarrow> rb_ok (ring s) \<and> rb_cap (ring s) = n \<and> producer_ok s \<and> consumer_ok s \<and>
     pushed s = popped s @ rb_contents (ring s)"

lemmas spsc_defs = spsc_inv_def producer_ok_def consumer_ok_def

lemma spsc_init_inv: "2 \<le> n \<Longrightarrow> spsc_inv n (spsc_init n d)"
  by (simp add: spsc_defs spsc_init_def rb_new_def rb_ok_def rb_contents_def rb_size_def)

lemma rb_size_buffer [simp]: "rb_size (r\<lparr>rb_buffer := (rb_buffer r)[i := v]\<rparr>) = rb_size r"
  by (simp add: rb_size_def)

lemma rb_capacity_moves [simp]:
  "rb_capacity (r\<lparr>rb_buffer := (rb_buffer r)[i := v]\<rparr>) = rb_capacity r"
  "rb_capacity (r\<lparr>rb_head := h\<rparr>) = rb_capacity r" "rb_capacity (r\<lparr>rb_tail := t\<rparr>) = rb_capacity r"
  by (simp_all add: rb_capacity_def)

lemma room_iff: "rb_ok r \<Longrightarrow> rb_size r < rb_capacity r \<longleftrightarrow> advance (rb_cap r) (rb_tail r) \<noteq> rb_head r"
  using rb_size_full [of r] rb_size_less [of r] by (auto simp: rb_capacity_def)

lemma head_neq_tail: "rb_ok r \<Longrightarrow> rb_size r \<noteq> 0 \<Longrightarrow> rb_head r \<noteq> rb_tail r"
  by (simp add: rb_size_0)

lemma push_write_inv:
  assumes "spsc_inv n s" "ppc s = P_room v t"
  shows "spsc_inv n (s\<lparr>ring := (ring s)\<lparr>rb_buffer := (rb_buffer (ring s))[t := v]\<rparr>, ppc := P_written v t\<rparr>)"
proof -
  have t: "t = rb_tail (ring s)" and ok: "rb_ok (ring s)"
    using assms by (auto simp: spsc_defs)
  have "rb_head (ring s) \<noteq> t" if "rb_size (ring s) \<noteq> 0"
    using head_neq_tail [OF ok that] t by simp
  then show ?thesis
    using assms t ok rb_contents_write_tail [OF ok, of v] rb_ok_moves(3) [OF ok, of t v]
    by (auto simp: spsc_defs rb_ok_def split: consumer.splits)
qed

lemma push_publish_inv:
  assumes "spsc_inv n s" "ppc s = P_written v t"
  shows "spsc_inv n (s\<lparr>ring := (ring s)\<lparr>rb_tail := advance (rb_cap (ring s)) t\<rparr>, ppc := P_idle,
     pushed := pushed s @ [v]\<rparr>)"
proof -
  have t: "t = rb_tail (ring s)" "rb_buffer (ring s) ! t = v" and ok: "rb_ok (ring s)"
    and room: "advance (rb_cap (ring s)) (rb_tail (ring s)) \<noteq> rb_head (ring s)"
    using assms room_iff [of "ring s"] by (auto simp: spsc_defs)
  show ?thesis
    using assms t ok rb_contents_publish [OF ok room] rb_size_publish [OF ok room]
      rb_ok_moves(1) [OF ok]
    by (auto simp: spsc_defs split: consumer.splits)
qed

lemma pop_release_inv:
  assumes "spsc_inv n s" "cpc s = C_read h x"
  shows "spsc_inv n (s\<lparr>ring := (ring s)\<lparr>rb_head := advance (rb_cap (ring s)) h\<rparr>, cpc := C_idle,
     popped := popped s @ [x]\<rparr>)"
proof -
  have h: "h = rb_head (ring s)" "rb_buffer (ring s) ! h = x" and ok: "rb_ok (ring s)"
    and ne: "rb_head (ring s) \<noteq> rb_tail (ring s)"
    using assms head_neq_tail [of "ring s"] by (auto simp: spsc_defs)
  show ?thesis
    using assms h ok rb_contents_consume [OF ok ne] rb_size_consume [OF ok ne] rb_ok_moves(2) [OF ok]
    by (auto simp: spsc_defs split: producer.splits)
qed

lemma producer_local_inv:
  "spsc_inv n s \<Longrightarrow> producer_ok (s\<lparr>ppc := p\<rparr>) \<Longrightarrow> spsc_inv n (s\<lparr>ppc := p\<rparr>)"
  by (cases "cpc s") (simp_all add: spsc_inv_def consumer_ok_def)

lemma consumer_local_inv:
  "spsc_inv n s \<Longrightarrow> consumer_ok (s\<lparr>cpc := c\<rparr>) \<Longrightarrow> spsc_inv n (s\<lparr>cpc := c\<rparr>)"
  by (cases "ppc s") (simp_all add: spsc_inv_def producer_ok_def)

lemma spsc_step_inv: "spsc_step s s' \<Longrightarrow> spsc_inv n s \<Longrightarrow> spsc_inv n s'"
proof (induction rule: spsc_step.induct)
  case (push_room s v t)
  then have "rb_ok (ring s)" "t = rb_tail (ring s)" by (simp_all add: spsc_inv_def producer_ok_def)
  with push_room show ?case by (intro producer_local_inv) (simp_all add: producer_ok_def room_iff)
next
  case (push_write s v t)
  then show ?case by (intro push_write_inv)
next
  case (push_publish s v t)
  then show ?case by (intro push_publish_inv)
next
  case (pop_avail s h)
  then have "rb_ok (ring s)" "h = rb_head (ring s)" by (simp_all add: spsc_inv_def consumer_ok_def)
  with pop_avail show ?case by (intro consumer_local_inv) (simp_all add: consumer_ok_def rb_size_0)
next
  case (pop_read s h)
  then show ?case by (intro consumer_local_inv) (simp_all add: spsc_inv_def consumer_ok_def)
next
  case (pop_release s h x)
  then show ?case by (intro pop_release_inv)
qed (auto intro!: producer_local_inv consumer_local_inv simp: producer_ok_def consumer_ok_def)

lemma spsc_reachable_inv: "spsc_reachable n d s \<Longrightarrow> 2 \<le> n \<Longrightarrow> spsc_inv n s"
  by (induction rule: spsc_reachable.induct) (auto intro: spsc_init_inv spsc_step_inv)

subsection \<open>An example run\<close>

text \<open>One element pushed; then both threads pass their checks.\<close>

lemma race_example:
  "\<exists>s. spsc_reachable 4 (0 :: int) s \<and> ppc s = P_room 8 1 \<and> cpc s = C_avail 0 \<and> pushed s = [7]"
proof -
  let ?s0 = "spsc_init 4 (0 :: int)"
  let ?s1 = "?s0\<lparr>ppc := P_loaded 7 0\<rparr>"
  let ?s2 = "?s1\<lparr>ppc := P_room 7 0\<rparr>"
  let ?s3 = "?s2\<lparr>ring := (ring ?s2)\<lparr>rb_buffer := (rb_buffer (ring ?s2))[0 := 7]\<rparr>, ppc := P_written 7 0\<rparr>"
  let ?s4 = "?s3\<lparr>ring := (ring ?s3)\<lparr>rb_tail := advance (rb_cap (ring ?s3)) 0\<rparr>, ppc := P_idle,
     pushed := pushed ?s3 @ [7]\<rparr>"
  let ?s5 = "?s4\<lparr>ppc := P_loaded 8 1\<rparr>"
  let ?s6 = "?s5\<lparr>ppc := P_room 8 1\<rparr>"
  let ?s7 = "?s6\<lparr>cpc := C_loaded 0\<rparr>"
  let ?s8 = "?s7\<lparr>cpc := C_avail 0\<rparr>"
  note init = spsc_init_def rb_new_def advance_def
  have "spsc_reachable 4 0 ?s1"
    using spsc_next [OF spsc_start push_load_tail [of ?s0 7]] by (simp add: init)
  then have "spsc_reachable 4 0 ?s2"
    by (rule spsc_next) (rule push_room, simp_all add: init)
  then have "spsc_reachable 4 0 ?s3" by (rule spsc_next) (rule push_write, simp)
  then have "spsc_reachable 4 0 ?s4" by (rule spsc_next) (rule push_publish, simp)
  then have "spsc_reachable 4 0 ?s5"
    using spsc_next [OF _ push_load_tail [of ?s4 8]] by (simp add: init)
  then have "spsc_reachable 4 0 ?s6" by (rule spsc_next) (rule push_room, simp_all add: init)
  then have "spsc_reachable 4 0 ?s7"
    using spsc_next [OF _ pop_load_head [of ?s6]] by (simp add: init)
  then have "spsc_reachable 4 0 ?s8" by (rule spsc_next) (rule pop_avail, simp_all add: init)
  moreover have "ppc ?s8 = P_room 8 1 \<and> cpc ?s8 = C_avail 0 \<and> pushed ?s8 = [7]" by (simp add: init)
  ultimately show ?thesis by blast
qed

subsection \<open>Properties\<close>

text \<open>C25: lock-free FIFO without a data race. Under every interleaving of the atomic accesses of one producer
  and one consumer, the values popped followed by those in the buffer are exactly the values pushed, in
  order (nothing lost, duplicated or torn), and at most \<open>Capacity - 1\<close> are buffered; and whenever the producer
  is about to write a slot while the consumer is about to read one, the slots differ and both are inside
  the array.\<close>

theorem spsc_fifo:
  assumes "spsc_reachable n d s" and "2 \<le> n"
  shows "pushed s = popped s @ rb_contents (ring s) \<and> rb_size (ring s) \<le> n - 1 \<and>
     (\<forall>v t h. ppc s = P_room v t \<and> cpc s = C_avail h \<longrightarrow> t \<noteq> h \<and> t < n \<and> h < n)"
proof -
  have inv: "spsc_inv n s" by (rule spsc_reachable_inv [OF assms])
  then have "ppc s = P_room v t \<Longrightarrow> cpc s = C_avail h \<Longrightarrow> t \<noteq> h \<and> t < n \<and> h < n" for v t h
    using head_neq_tail [of "ring s"] by (auto simp: spsc_defs rb_ok_def)
  then show ?thesis using inv rb_size_less [of "ring s"] by (auto simp: spsc_inv_def)
qed

theorem spsc_fifo_witness:
  "\<exists>s. spsc_reachable 4 (0 :: int) s \<and> ppc s = P_room 8 1 \<and> cpc s = C_avail 0 \<and>
     [7] = popped s @ rb_contents (ring s) \<and> rb_size (ring s) \<le> 3"
proof -
  obtain s where s: "spsc_reachable 4 (0 :: int) s" "ppc s = P_room 8 1" "cpc s = C_avail 0" "pushed s = [7]"
    using race_example by blast
  then show ?thesis using spsc_fifo [OF s(1)] by (intro exI [of _ s]) simp
qed

end
