(* ===== verification/Static_Vector.thy ===== *)
theory Static_Vector
  imports Prelude
begin

section \<open>Fixed-capacity vector (proto/static_vector.hpp)\<close>

text \<open>
  The object is its array and its size; \<open>Capacity\<close> is the length of the array. An operation guarded
  by \<open>assert\<close> returns \<open>None\<close> where the assertion fails. The abstraction \<open>sv_list\<close> is the live prefix;
  the locale \<open>bounded_stack\<close> states the vector contract on it.
\<close>

record 'a static_vector =
  sv_data :: "'a list"
  sv_size_field :: nat

definition sv_new :: "nat \<Rightarrow> 'a \<Rightarrow> 'a static_vector" where
  "sv_new Capacity dflt = \<lparr>sv_data = replicate Capacity dflt, sv_size_field = 0\<rparr>"

definition sv_capacity :: "'a static_vector \<Rightarrow> nat" where
  "sv_capacity v = length (sv_data v)"

definition sv_size :: "'a static_vector \<Rightarrow> nat" where
  "sv_size v = sv_size_field v"

definition sv_empty :: "'a static_vector \<Rightarrow> bool" where
  "sv_empty v \<longleftrightarrow> sv_size_field v = 0"

definition sv_full :: "'a static_vector \<Rightarrow> bool" where
  "sv_full v \<longleftrightarrow> sv_size_field v = sv_capacity v"

definition sv_clear :: "'a static_vector \<Rightarrow> 'a static_vector" where
  "sv_clear v = v\<lparr>sv_size_field := 0\<rparr>"

definition sv_push_back :: "'a \<Rightarrow> 'a static_vector \<Rightarrow> bool \<times> 'a static_vector" where
  "sv_push_back value v =
     (if sv_full v then (False, v)
      else (True, v\<lparr>sv_data := (sv_data v)[sv_size_field v := value],
                    sv_size_field := sv_size_field v + 1\<rparr>))"

definition sv_pop_back :: "'a static_vector \<Rightarrow> 'a static_vector option" where
  "sv_pop_back v = (if sv_empty v then None else Some (v\<lparr>sv_size_field := sv_size_field v - 1\<rparr>))"

definition sv_at :: "'a static_vector \<Rightarrow> nat \<Rightarrow> 'a option" where
  "sv_at v index = (if index < sv_size_field v then Some (sv_data v ! index) else None)"

definition sv_set :: "'a static_vector \<Rightarrow> nat \<Rightarrow> 'a \<Rightarrow> 'a static_vector option" where
  "sv_set v index value =
     (if index < sv_size_field v then Some (v\<lparr>sv_data := (sv_data v)[index := value]\<rparr>) else None)"

definition sv_front :: "'a static_vector \<Rightarrow> 'a option" where
  "sv_front v = sv_at v 0"

text \<open>\<open>size_ - 1\<close> is unsigned: on an empty vector it wraps to the largest \<open>size_t\<close>, which the
  assertion of \<open>operator[]\<close> refuses.\<close>

definition sv_back :: "'a static_vector \<Rightarrow> 'a option" where
  "sv_back v = (if sv_size_field v = 0 then None else sv_at v (sv_size_field v - 1))"

definition sv_of_list :: "nat \<Rightarrow> 'a \<Rightarrow> 'a list \<Rightarrow> 'a static_vector option" where
  "sv_of_list Capacity dflt init =
     (if length init \<le> Capacity
      then Some (fold (\<lambda>x v. v\<lparr>sv_data := (sv_data v)[sv_size_field v := x],
                               sv_size_field := sv_size_field v + 1\<rparr>) init (sv_new Capacity dflt))
      else None)"

subsection \<open>Contract\<close>

definition sv_ok :: "'a static_vector \<Rightarrow> bool" where
  "sv_ok v \<longleftrightarrow> sv_size_field v \<le> length (sv_data v)"

definition sv_list :: "'a static_vector \<Rightarrow> 'a list" where
  "sv_list v = take (sv_size_field v) (sv_data v)"

lemmas sv_defs = sv_ok_def sv_list_def sv_capacity_def sv_size_def sv_empty_def sv_full_def

lemma sv_append:
  assumes "sv_size_field v < length (sv_data v)"
  shows "sv_list (v\<lparr>sv_data := (sv_data v)[sv_size_field v := x],
     sv_size_field := sv_size_field v + 1\<rparr>) = sv_list v @ [x]"
  using assms by (simp add: sv_list_def take_Suc_conv_app_nth)

locale bounded_stack = bounded_container push_back items invar limit
  for push_back :: "'a \<Rightarrow> 'v \<Rightarrow> bool \<times> 'v" and items :: "'v \<Rightarrow> 'a list" and invar :: "'v \<Rightarrow> bool" and limit :: "'v \<Rightarrow> nat" +
  fixes pop_back :: "'v \<Rightarrow> 'v option" and at :: "'v \<Rightarrow> nat \<Rightarrow> 'a option"
  assumes pop_items: "invar v \<Longrightarrow> items v \<noteq> [] \<Longrightarrow>
      \<exists>v'. pop_back v = Some v' \<and> items v' = butlast (items v) \<and> invar v' \<and> limit v' = limit v"
    and pop_empty: "invar v \<Longrightarrow> items v = [] \<Longrightarrow> pop_back v = None"
    and at_items: "invar v \<Longrightarrow> at v i = (if i < length (items v) then Some (items v ! i) else None)"
begin

lemma push_then_pop:
  assumes "invar v" "length (items v) < limit v"
  shows "\<exists>v'. pop_back (snd (push_back x v)) = Some v' \<and> items v' = items v"
  using pop_items [of "snd (push_back x v)"] push_room [OF assms, of x] push_invar [OF assms(1), of x]
  by auto

lemma push_then_at:
  assumes "invar v" "length (items v) < limit v"
  shows "at (snd (push_back x v)) (length (items v)) = Some x"
  using at_items push_room [OF assms, of x] push_invar [OF assms(1), of x] by simp

end

interpretation sv: bounded_stack sv_push_back sv_list sv_ok sv_capacity sv_pop_back sv_at
proof (unfold_locales, goal_cases)
  case (1 v x)
  then show ?case
    using sv_append [of v x] by (simp add: sv_push_back_def sv_defs)
next
  case (5 v)
  then show ?case by (auto simp: sv_pop_back_def sv_defs butlast_take)
qed (auto simp: sv_push_back_def sv_pop_back_def sv_at_def sv_defs)

lemma sv_of_list_loop:
  "sv_size_field v + length xs \<le> length (sv_data v) \<Longrightarrow>
   sv_list (fold (\<lambda>x v. v\<lparr>sv_data := (sv_data v)[sv_size_field v := x],
       sv_size_field := sv_size_field v + 1\<rparr>) xs v) = sv_list v @ xs \<and>
   sv_ok (fold (\<lambda>x v. v\<lparr>sv_data := (sv_data v)[sv_size_field v := x],
       sv_size_field := sv_size_field v + 1\<rparr>) xs v)"
proof (induction xs arbitrary: v)
  case (Cons x xs)
  then show ?case using sv_append [of v x] by simp
qed (simp add: sv_ok_def)

subsection \<open>Properties\<close>

text \<open>The vector is a bounded list. From a well-formed vector \<open>push_back\<close> appends and reports
  \<open>true\<close> exactly while there is room and otherwise changes nothing; \<open>pop_back\<close> undoes it, \<open>back\<close>
  and indexing read it back, indexing never leaves the live prefix, and building from an
  initializer list that fits yields that list.\<close>

theorem static_vector_list:
  assumes "sv_ok v" and "length xs \<le> n"
  shows "fst (sv_push_back x v) = (sv_size v < sv_capacity v) \<and>
     sv_list (snd (sv_push_back x v)) =
       (if sv_size v < sv_capacity v then sv_list v @ [x] else sv_list v) \<and>
     sv_ok (snd (sv_push_back x v)) \<and>
     (sv_size v < sv_capacity v \<longrightarrow> sv_back (snd (sv_push_back x v)) = Some x \<and>
        map_option sv_list (sv_pop_back (snd (sv_push_back x v))) = Some (sv_list v)) \<and>
     sv_at v i = (if i < sv_size v then Some (sv_list v ! i) else None) \<and>
     map_option sv_list (sv_of_list n d xs) = Some xs"
proof -
  have len: "length (sv_list v) = sv_size v" using assms(1) by (simp add: sv_defs)
  have "sv_at v i = (if i < sv_size v then Some (sv_list v ! i) else None)"
    using sv.at_items [OF assms(1), of i] len by simp
  moreover have "sv_ok (snd (sv_push_back x v))" using sv.push_invar [OF assms(1)] by blast
  moreover have "map_option sv_list (sv_of_list n d xs) = Some xs"
    using assms(2) sv_of_list_loop [of "sv_new n d" xs]
    by (simp add: sv_of_list_def sv_new_def sv_list_def)
  moreover have "fst (sv_push_back x v) = (sv_size v < sv_capacity v) \<and>
      sv_list (snd (sv_push_back x v)) =
        (if sv_size v < sv_capacity v then sv_list v @ [x] else sv_list v)"
    using sv.push_reports [OF assms(1), of x] sv.push_items [OF assms(1), of x] len by simp
  moreover have "sv_back (snd (sv_push_back x v)) = Some x \<and>
      map_option sv_list (sv_pop_back (snd (sv_push_back x v))) = Some (sv_list v)"
    if room: "sv_size v < sv_capacity v"
    using sv.push_then_pop [OF assms(1), of x] sv.push_then_at [OF assms(1), of x] room len
    by (auto simp: sv_back_def sv_push_back_def sv_defs)
  ultimately show ?thesis by blast
qed

theorem static_vector_list_witness:
  "sv_list (snd (sv_push_back 7 (sv_new 3 (0 :: int)))) = [7] \<and>
   map_option sv_list (sv_of_list 3 0 [4, 5 :: int]) = Some [4, 5]"
  using static_vector_list [of "sv_new 3 (0 :: int)" "[4, 5 :: int]" 3 7 0 0]
  by (simp add: sv_new_def sv_defs)

end
