(* ===== verification/Event_Loop.thy ===== *)
theory Event_Loop
  imports Prelude
begin

section \<open>The epoll event loop (server/event_loop.hpp, event_loop.cpp)\<close>

text \<open>
  The operating system is a parameter: a record \<open>os\<close> with one function per call the sources make,
  each on a kernel state of arbitrary type \<open>'k\<close>. What a proof relies on of it is a hypothesis.

  The loop's state is a record that the rest of the server extends, so a callback, which in the code
  captures references to other objects, is a function on the extended state. \<open>'cb\<close> and \<open>'tcb\<close> name
  the closures registered for file descriptors and timers; \<open>poll\<close> receives what invoking them does.
\<close>

subsection \<open>The operating system interface\<close>

type_synonym fd = int
type_synonym errno = int

definition EAGAIN :: errno where "EAGAIN = 11"

definition EWOULDBLOCK :: errno where "EWOULDBLOCK = EAGAIN"

definition EINTR :: errno where "EINTR = 4"

definition EPOLLIN :: u32 where "EPOLLIN = 0x001"

definition EPOLLOUT :: u32 where "EPOLLOUT = 0x004"

datatype epoll_op = EPOLL_CTL_ADD | EPOLL_CTL_MOD | EPOLL_CTL_DEL

text \<open>A failing call yields \<open>Inl errno\<close>. \<open>recv\<close> yields the bytes received (none when the peer has
  closed), \<open>send\<close> how many were taken.\<close>

record 'k os =
  os_now :: "'k \<Rightarrow> time_point \<times> 'k"
  os_errno :: "'k \<Rightarrow> errno"
  os_epoll_create1 :: "'k \<Rightarrow> (errno + fd) \<times> 'k"
  os_epoll_ctl :: "epoll_op \<Rightarrow> fd \<Rightarrow> u32 \<Rightarrow> 'k \<Rightarrow> (errno + unit) \<times> 'k"
  os_epoll_wait :: "nat \<Rightarrow> int \<Rightarrow> 'k \<Rightarrow> (errno + (fd \<times> u32) list) \<times> 'k"
  os_recv :: "fd \<Rightarrow> nat \<Rightarrow> 'k \<Rightarrow> (errno + u8 list) \<times> 'k"
  os_send :: "fd \<Rightarrow> u8 list \<Rightarrow> 'k \<Rightarrow> (errno + nat) \<times> 'k"
  os_accept4 :: "fd \<Rightarrow> 'k \<Rightarrow> (errno + fd) \<times> 'k"
  os_close :: "fd \<Rightarrow> 'k \<Rightarrow> 'k"
  os_socket :: "bool \<Rightarrow> 'k \<Rightarrow> (errno + fd) \<times> 'k"
  os_reuseaddr :: "fd \<Rightarrow> 'k \<Rightarrow> (errno + unit) \<times> 'k"
  os_bind :: "fd \<Rightarrow> u16 \<Rightarrow> 'k \<Rightarrow> (errno + unit) \<times> 'k"
  os_listen :: "fd \<Rightarrow> nat \<Rightarrow> 'k \<Rightarrow> (errno + unit) \<times> 'k"
  os_connect :: "fd \<Rightarrow> u32 \<Rightarrow> u16 \<Rightarrow> 'k \<Rightarrow> (errno + unit) \<times> 'k"

text \<open>How a server operation may leave other than by returning: \<open>std::system_error\<close>, which nothing
  catches, or behaviour the language leaves undefined, made visible.\<close>

datatype server_error =
    System_Error errno string
  | Dangling_Pointer
  | Signed_Overflow
  | Erase_Past_End

subsection \<open>The timer queue\<close>

text \<open>\<open>std::priority_queue\<close> under \<open>timer_later\<close>: \<open>top\<close> has the earliest deadline. Among equal
  deadlines, which the comparator does not order, the model fires in order of insertion.\<close>

type_synonym 'tcb timer = "time_point \<times> 'tcb"

definition timer_later :: "'tcb timer \<Rightarrow> 'tcb timer \<Rightarrow> bool" where
  "timer_later a b \<longleftrightarrow> fst a > fst b"

fun timers_push :: "'tcb timer \<Rightarrow> 'tcb timer list \<Rightarrow> 'tcb timer list" where
  "timers_push t [] = [t]"
| "timers_push t (u # us) = (if timer_later u t then t # u # us else u # timers_push t us)"

definition timers_sorted :: "'tcb timer list \<Rightarrow> bool" where
  "timers_sorted ts \<longleftrightarrow> sorted (map fst ts)"

lemma set_timers_push [simp]: "set (timers_push t ts) = insert t (set ts)"
  by (induction ts) auto

lemma mset_timers_push: "count_list (timers_push t ts) x = count_list (t # ts) x"
  by (induction ts) auto

lemma timers_push_sorted: "timers_sorted ts \<Longrightarrow> timers_sorted (timers_push t ts)"
  by (induction ts) (auto simp: timers_sorted_def timer_later_def)

subsection \<open>State and operations\<close>

record ('k, 'cb, 'tcb) event_loop =
  el_kernel :: 'k
  el_running :: bool
  el_callbacks :: "fd \<rightharpoonup> 'cb"
  el_timers :: "'tcb timer list"

definition kMaxEventsPerWait :: nat where "kMaxEventsPerWait = 64"

text \<open>The constructor's call; the loop itself keeps the descriptor only to name it in later calls.\<close>

definition el_create :: "'k os \<Rightarrow> 'k \<Rightarrow> server_error + fd \<times> 'k" where
  "el_create os k =
     (case os_epoll_create1 os k of
        (Inl e, k) \<Rightarrow> Inl (System_Error e ''epoll_create1'')
      | (Inr epoll_fd, k) \<Rightarrow> Inr (epoll_fd, k))"

definition el_destroy :: "'k os \<Rightarrow> fd \<Rightarrow> 'k \<Rightarrow> 'k" where
  "el_destroy os epoll_fd k = os_close os epoll_fd k"

definition el_epoll_ctl ::
  "'k os \<Rightarrow> epoll_op \<Rightarrow> string \<Rightarrow> fd \<Rightarrow> u32 \<Rightarrow> 'k \<Rightarrow> server_error + 'k" where
  "el_epoll_ctl os op what fd events k =
     (case os_epoll_ctl os op fd events k of
        (Inl e, k) \<Rightarrow> Inl (System_Error e what)
      | (Inr _, k) \<Rightarrow> Inr k)"

definition el_add ::
  "'k os \<Rightarrow> fd \<Rightarrow> u32 \<Rightarrow> 'cb \<Rightarrow> ('k, 'cb, 'tcb, 'z) event_loop_scheme
     \<Rightarrow> server_error + ('k, 'cb, 'tcb, 'z) event_loop_scheme" where
  "el_add os fd events cb w =
     (case el_epoll_ctl os EPOLL_CTL_ADD ''epoll_ctl ADD'' fd events (el_kernel w) of
        Inl e \<Rightarrow> Inl e
      | Inr k \<Rightarrow> Inr (w\<lparr>el_kernel := k, el_callbacks := (el_callbacks w)(fd \<mapsto> cb)\<rparr>))"

definition el_modify :: "'k os \<Rightarrow> fd \<Rightarrow> u32 \<Rightarrow> 'k \<Rightarrow> server_error + 'k" where
  "el_modify os fd events k = el_epoll_ctl os EPOLL_CTL_MOD ''epoll_ctl MOD'' fd events k"

definition el_remove ::
  "'k os \<Rightarrow> fd \<Rightarrow> ('k, 'cb, 'tcb, 'z) event_loop_scheme
     \<Rightarrow> server_error + ('k, 'cb, 'tcb, 'z) event_loop_scheme" where
  "el_remove os fd w =
     (case el_epoll_ctl os EPOLL_CTL_DEL ''epoll_ctl DEL'' fd 0 (el_kernel w) of
        Inl e \<Rightarrow> Inl e
      | Inr k \<Rightarrow> Inr (w\<lparr>el_kernel := k, el_callbacks := (el_callbacks w)(fd := None)\<rparr>))"

definition el_now ::
  "'k os \<Rightarrow> ('k, 'cb, 'tcb, 'z) event_loop_scheme
     \<Rightarrow> time_point \<times> ('k, 'cb, 'tcb, 'z) event_loop_scheme" where
  "el_now os w = (case os_now os (el_kernel w) of (now, k) \<Rightarrow> (now, w\<lparr>el_kernel := k\<rparr>))"

definition add_timer ::
  "'k os \<Rightarrow> int \<Rightarrow> 'tcb \<Rightarrow> ('k, 'cb, 'tcb, 'z) event_loop_scheme
     \<Rightarrow> ('k, 'cb, 'tcb, 'z) event_loop_scheme" where
  "add_timer os delay_ms cb w =
     (case el_now os w of (now, w) \<Rightarrow>
        w\<lparr>el_timers := timers_push (now + ns_of_ms delay_ms, cb) (el_timers w)\<rparr>)"

text \<open>The \<open>while\<close> loop of \<open>fire_due_timers\<close>; a callback may push further timers.\<close>

partial_function (option) fire_loop ::
  "('tcb \<Rightarrow> ('k, 'cb, 'tcb, 'z) event_loop_scheme
        \<Rightarrow> (server_error + ('k, 'cb, 'tcb, 'z) event_loop_scheme) option) \<Rightarrow> time_point
     \<Rightarrow> ('k, 'cb, 'tcb, 'z) event_loop_scheme
     \<Rightarrow> (server_error + ('k, 'cb, 'tcb, 'z) event_loop_scheme) option" where
  "fire_loop invoke now w =
     (case el_timers w of
        [] \<Rightarrow> Some (Inr w)
      | (deadline, callback) # rest \<Rightarrow>
          if deadline \<le> now
          then run_then (invoke callback (w\<lparr>el_timers := rest\<rparr>)) (\<lambda>w. fire_loop invoke now w)
          else Some (Inr w))"

definition fire_due_timers where
  "fire_due_timers os invoke w =
     (case el_now os w of (now, w) \<Rightarrow> fire_loop invoke now w)"

definition poll_timeout ::
  "'k os \<Rightarrow> ('k, 'cb, 'tcb, 'z) event_loop_scheme \<Rightarrow> int \<times> ('k, 'cb, 'tcb, 'z) event_loop_scheme" where
  "poll_timeout os w =
     (case el_timers w of
        [] \<Rightarrow> (- 1, w)
      | (deadline, callback) # rest \<Rightarrow>
          (case el_now os w of (now, w) \<Rightarrow>
             (sint (word_of_int (max 0 (ms_of_ns (deadline - now))) :: u32), w)))"

text \<open>The dispatch loop: the callback is looked up at the moment its turn comes.\<close>

definition dispatch_ready where
  "dispatch_ready invoke_io ready w =
     fold_run (\<lambda>(fd, events) w.
        case el_callbacks w fd of None \<Rightarrow> Some (Inr w) | Some cb \<Rightarrow> invoke_io cb events w) ready w"

definition poll where
  "poll os invoke_io invoke_timer w =
     (case poll_timeout os w of (timeout_ms, w) \<Rightarrow>
      case os_epoll_wait os kMaxEventsPerWait timeout_ms (el_kernel w) of
        (Inl e, k) \<Rightarrow>
          (let w = w\<lparr>el_kernel := k\<rparr> in
           if e = EINTR
           then run_then (fire_due_timers os invoke_timer w) (\<lambda>w. Some (Inr (0, w)))
           else Some (Inl (System_Error e ''epoll_wait'')))
      | (Inr ready, k) \<Rightarrow>
          run_then (dispatch_ready invoke_io ready (w\<lparr>el_kernel := k\<rparr>)) (\<lambda>w.
          run_then (fire_due_timers os invoke_timer w) (\<lambda>w. Some (Inr (length ready, w)))))"

definition el_stop :: "('k, 'cb, 'tcb, 'z) event_loop_scheme \<Rightarrow> ('k, 'cb, 'tcb, 'z) event_loop_scheme" where
  "el_stop w = w\<lparr>el_running := False\<rparr>"

partial_function (option) run_loop ::
  "(('k, 'cb, 'tcb, 'z) event_loop_scheme
        \<Rightarrow> (server_error + nat \<times> ('k, 'cb, 'tcb, 'z) event_loop_scheme) option)
     \<Rightarrow> ('k, 'cb, 'tcb, 'z) event_loop_scheme
     \<Rightarrow> (server_error + ('k, 'cb, 'tcb, 'z) event_loop_scheme) option" where
  "run_loop do_poll w =
     (if el_running w then run_then (do_poll w) (\<lambda>r. run_loop do_poll (snd r)) else Some (Inr w))"

definition el_run where
  "el_run os invoke_io invoke_timer w =
     run_loop (poll os invoke_io invoke_timer) (w\<lparr>el_running := True\<rparr>)"

lemmas [code] = fire_loop.simps run_loop.simps

lemma el_epoll_ctl_Inr:
  "el_epoll_ctl os op what fd events k = Inr k' \<longleftrightarrow> os_epoll_ctl os op fd events k = (Inr (), k')"
  by (cases "os_epoll_ctl os op fd events k"; cases "fst (os_epoll_ctl os op fd events k)")
    (auto simp: el_epoll_ctl_def)

subsection \<open>Firing timers\<close>

text \<open>A timer callback that returns and only schedules timers for later than \<open>now\<close>: one that calls
  \<open>add_timer\<close> with a positive delay while the clock has not gone back.\<close>

definition reschedules_later where
  "reschedules_later invoke now \<longleftrightarrow>
     (\<forall>cb w. \<exists>w' new. invoke cb w = Some (Inr w') \<and> (\<forall>t \<in> set new. now < fst t) \<and>
        el_timers w' = fold timers_push new (el_timers w))"

text \<open>Invoking the callbacks of a given list of timers, each of which must be the front of the queue
  when its turn comes (\<open>None\<close> otherwise).\<close>

fun fire_seq where
  "fire_seq invoke [] w = Some (Inr w)"
| "fire_seq invoke (t # ts) w =
     (case el_timers w of
        [] \<Rightarrow> None
      | u # rest \<Rightarrow>
          if u = t then run_then (invoke (snd t) (w\<lparr>el_timers := rest\<rparr>)) (fire_seq invoke ts)
          else None)"

lemma fold_timers_push_sorted: "timers_sorted ts \<Longrightarrow> timers_sorted (fold timers_push new ts)"
  by (induction new arbitrary: ts) (auto intro: timers_push_sorted)

lemma timers_push_due:
  "now < fst t \<Longrightarrow> takeWhile (\<lambda>u. fst u \<le> now) (timers_push t ts) =
     takeWhile (\<lambda>u. fst u \<le> now) ts"
  by (induction ts) (auto simp: timer_later_def)

lemma fold_timers_push_due:
  "\<forall>t \<in> set new. now < fst t \<Longrightarrow> takeWhile (\<lambda>u. fst u \<le> now) (fold timers_push new ts) =
     takeWhile (\<lambda>u. fst u \<le> now) ts"
  by (induction new arbitrary: ts) (auto simp: timers_push_due)

lemma sorted_takeWhile_Nil:
  "timers_sorted ts \<Longrightarrow> takeWhile (\<lambda>u. fst u \<le> now) ts = [] \<Longrightarrow> \<forall>t \<in> set ts. now < fst t"
  by (cases ts) (auto simp: timers_sorted_def split: if_splits)

lemma fire_loop_due:
  assumes "reschedules_later invoke now" "timers_sorted (el_timers w)"
    and "takeWhile (\<lambda>u. fst u \<le> now) (el_timers w) = due"
  shows "\<exists>w'. fire_loop invoke now w = Some (Inr w') \<and> fire_seq invoke due w = Some (Inr w') \<and>
     (\<forall>t \<in> set (el_timers w'). now < fst t) \<and> timers_sorted (el_timers w')"
  using assms(2,3)
proof (induction due arbitrary: w)
  case Nil
  then show ?case
    using sorted_takeWhile_Nil [OF Nil.prems]
    by (cases "el_timers w") (auto simp: fire_loop.simps split: if_splits)
next
  case (Cons t due)
  then obtain rest where ts: "el_timers w = t # rest" and t: "fst t \<le> now"
    by (cases "el_timers w") (auto split: if_splits)
  let ?w = "w\<lparr>el_timers := rest\<rparr>"
  obtain w1 new where w1: "invoke (snd t) ?w = Some (Inr w1)" "\<forall>t \<in> set new. now < fst t"
    "el_timers w1 = fold timers_push new rest"
    using assms(1) [unfolded reschedules_later_def, rule_format, of "snd t" ?w] by auto
  have "timers_sorted rest" using Cons.prems(1) ts by (simp add: timers_sorted_def)
  then have "timers_sorted (el_timers w1)" using w1(3) by (simp add: fold_timers_push_sorted)
  moreover have "takeWhile (\<lambda>u. fst u \<le> now) (el_timers w1) = due"
    using Cons.prems(2) w1(2,3) ts t by (simp add: fold_timers_push_due)
  ultimately show ?case
    using Cons.IH [of w1] ts t w1(1) by (auto simp: fire_loop.simps [of _ _ w] split: prod.splits)
qed

lemma takeWhile_sorted_filter:
  "timers_sorted ts \<Longrightarrow> takeWhile (\<lambda>u. fst u \<le> now) ts = filter (\<lambda>u. fst u \<le> now) ts"
proof (induction ts)
  case (Cons t ts)
  then show ?case
    using sorted_takeWhile_Nil [of "t # ts" now] filter_False [of ts "\<lambda>u. fst u \<le> now"]
    by (cases "fst t \<le> now") (auto simp: timers_sorted_def not_le)
qed simp

subsection \<open>Properties\<close>

text \<open>C27: timers fire once, when due, in deadline order. If callbacks only schedule timers for later
  than the moment read at the start, the firing loop ends, has invoked exactly the timers whose
  deadline had passed, earliest first, each when it was at the top of the queue, and leaves only
  timers that are not yet due.\<close>

theorem due_timers_fire:
  assumes "reschedules_later invoke now" and "timers_sorted (el_timers w)"
  shows "\<exists>w'. fire_loop invoke now w = Some (Inr w') \<and>
     fire_seq invoke (filter (\<lambda>t. fst t \<le> now) (el_timers w)) w = Some (Inr w') \<and>
     sorted (map fst (filter (\<lambda>t. fst t \<le> now) (el_timers w))) \<and>
     (\<forall>t \<in> set (el_timers w'). now < fst t) \<and> timers_sorted (el_timers w')"
  using fire_loop_due [OF assms refl] assms(2)
  by (auto simp: takeWhile_sorted_filter timers_sorted_def sorted_filter)

definition repeat_every :: "int \<Rightarrow> int \<Rightarrow> 'tcb \<Rightarrow> ('k, 'cb, 'tcb) event_loop
    \<Rightarrow> (server_error + ('k, 'cb, 'tcb) event_loop) option" where
  "repeat_every now period cb w =
     Some (Inr (w\<lparr>el_timers := timers_push (now + period, cb) (el_timers w)\<rparr>))"

theorem due_timers_fire_witness:
  "reschedules_later (repeat_every 10 5 :: nat \<Rightarrow> (unit, unit, nat) event_loop \<Rightarrow> _) 10 \<and>
   (\<exists>w'. fire_loop (repeat_every 10 5) 10
       \<lparr>el_kernel = (), el_running = True, el_callbacks = Map.empty :: fd \<rightharpoonup> unit,
        el_timers = [(7, 1 :: nat), (9, 2), (12, 3)]\<rparr> = Some (Inr w'))"
proof -
  let ?w = "\<lparr>el_kernel = (), el_running = True, el_callbacks = Map.empty :: fd \<rightharpoonup> unit,
        el_timers = [(7, 1 :: nat), (9, 2), (12, 3)]\<rparr>"
  have "reschedules_later (repeat_every 10 5 :: nat \<Rightarrow> (unit, unit, nat) event_loop \<Rightarrow> _) 10"
    unfolding reschedules_later_def repeat_every_def
    by (intro allI, rule exI, rule exI [of _ "[(15, _)]"]) auto
  then show ?thesis
    using due_timers_fire [of "repeat_every 10 5" 10 ?w] by (auto simp: timers_sorted_def)
qed

text \<open>\<open>poll\<close> never blocks past the earliest deadline. The timeout passed to \<open>epoll_wait\<close> is
  \<open>-1\<close> exactly when no timer is pending; otherwise, for a deadline less than \<open>2^31\<close> ms ahead, it is
  the whole milliseconds left: waiting that long ends no later than the deadline, and less than
  one millisecond before it.\<close>

theorem poll_timeout_bounds:
  assumes "el_timers w = (deadline, cb) # rest" and "os_now os (el_kernel w) = (now, k)"
    and "deadline - now < ns_of_ms (2 ^ 31)"
  shows "let (t, w') = poll_timeout os w in 0 \<le> t \<and>
     (now \<le> deadline \<longrightarrow> now + ns_of_ms t \<le> deadline \<and> deadline < now + ns_of_ms (t + 1)) \<and>
     (deadline \<le> now \<longrightarrow> t = 0) \<and> w' = w\<lparr>el_kernel := k\<rparr>"
proof -
  let ?t = "max 0 (ms_of_ns (deadline - now))"
  have late: "ms_of_ns (deadline - now) \<le> 0" if "deadline \<le> now"
    using that by (auto simp: ms_of_ns_def pos_imp_zdiv_nonneg_iff)
  have bounds: "ns_of_ms (ms_of_ns (deadline - now)) \<le> deadline - now \<and>
      deadline - now < ns_of_ms (ms_of_ns (deadline - now) + 1) \<and> 0 \<le> ms_of_ns (deadline - now)"
    if "now \<le> deadline"
    using that ms_of_ns_bounds [of "deadline - now"] by (simp add: ms_of_ns_def)
  have "ns_of_ms (ms_of_ns (deadline - now)) < ns_of_ms (2 ^ 31)" if "now \<le> deadline"
    using bounds [OF that] assms(3) by linarith
  then have "in_i32 ?t"
    using late bounds by (cases "now \<le> deadline") (auto simp: in_i32_def ns_of_ms_def)
  then show ?thesis
    using late bounds assms(1,2)
    by (auto simp: poll_timeout_def el_now_def Let_def)
qed

text \<open>A system on which every call succeeds at once, nothing is received and everything sent is
  taken; its state is the clock.\<close>

definition quiet_os :: "int os" where
  "quiet_os = \<lparr>os_now = (\<lambda>k. (k, k)), os_errno = (\<lambda>k. 0),
     os_epoll_create1 = (\<lambda>k. (Inr 5, k)), os_epoll_ctl = (\<lambda>op fd ev k. (Inr (), k)), os_epoll_wait = (\<lambda>n t k. (Inr [], k + ns_of_ms t)),
     os_recv = (\<lambda>fd n k. (Inl EAGAIN, k)), os_send = (\<lambda>fd bs k. (Inr (length bs), k)),
     os_accept4 = (\<lambda>fd k. (Inl EAGAIN, k)), os_close = (\<lambda>fd k. k),
     os_socket = (\<lambda>nb k. (Inr 3, k)), os_reuseaddr = (\<lambda>fd k. (Inr (), k)),
     os_bind = (\<lambda>fd p k. (Inr (), k)), os_listen = (\<lambda>fd n k. (Inr (), k)),
     os_connect = (\<lambda>fd a p k. (Inr (), k))\<rparr>"

theorem poll_timeout_bounds_witness:
  "let (t, w') = poll_timeout quiet_os
     \<lparr>el_kernel = 1000, el_running = True, el_callbacks = Map.empty :: fd \<rightharpoonup> unit,
      el_timers = [(2001500, 3 :: nat)]\<rparr> in t = 2"
  using poll_timeout_bounds [of "\<lparr>el_kernel = 1000, el_running = True,
      el_callbacks = Map.empty :: fd \<rightharpoonup> unit, el_timers = [(2001500, 3 :: nat)]\<rparr>"
      2001500 3 "[]" quiet_os 1000 1000]
  by (auto simp: quiet_os_def ns_of_ms_def Let_def split: prod.splits)

end
