(* ===== verification/Connection.thy ===== *)
theory Connection
  imports Event_Loop
begin

section \<open>Buffered non-blocking sockets (server/connection.hpp, connection.cpp)\<close>

text \<open>
  The connection object and its operations on the kernel state. The registration and removal that
  the constructor and destructor make in the event loop, and the event callback, touch other objects
  and are in \<open>Server_Main\<close>.

  The loops around \<open>recv\<close> and \<open>send\<close> end when the system says so; \<open>recv_run\<close> and \<open>send_run\<close> describe
  the finite runs of system results, and the loops are shown to return on each of them.
\<close>

subsection \<open>Object and operations\<close>

definition kWriteHighWaterMark :: nat where "kWriteHighWaterMark = 64 * 1024"

text \<open>\<open>on_readable_\<close> holds nothing or one of the two closures main.cpp installs.\<close>

datatype readable_hook = No_Hook | Ingest_Hook | Subscriber_Hook

record connection =
  cn_fd :: fd
  cn_write_interest :: bool
  cn_closed :: bool
  cn_read_buffer :: "u8 list"
  cn_write_buffer :: "u8 list"
  cn_on_readable :: readable_hook

definition new_connection :: "fd \<Rightarrow> connection" where
  "new_connection fd =
     \<lparr>cn_fd = fd, cn_write_interest = False, cn_closed = False, cn_read_buffer = [],
      cn_write_buffer = [], cn_on_readable = No_Hook\<rparr>"

definition consume :: "nat \<Rightarrow> connection \<Rightarrow> server_error + connection" where
  "consume n c =
     (if n \<le> length (cn_read_buffer c)
      then Inr (c\<lparr>cn_read_buffer := drop n (cn_read_buffer c)\<rparr>)
      else Inl Erase_Past_End)"

definition write_congested :: "connection \<Rightarrow> bool" where
  "write_congested c \<longleftrightarrow> kWriteHighWaterMark \<le> length (cn_write_buffer c)"

definition epoll_interest :: "connection \<Rightarrow> u32" where
  "epoll_interest c =
     (let events = 0;
          events = (if \<not> write_congested c then events OR EPOLLIN else events)
      in if cn_write_interest c then events OR EPOLLOUT else events)"

definition update_epoll_interest :: "'k os \<Rightarrow> connection \<Rightarrow> 'k \<Rightarrow> server_error + 'k" where
  "update_epoll_interest os c k = el_modify os (cn_fd c) (epoll_interest c) k"

definition enqueue_write ::
  "'k os \<Rightarrow> u8 list \<Rightarrow> connection \<Rightarrow> 'k \<Rightarrow> server_error + connection \<times> 'k" where
  "enqueue_write os data c k =
     (let c = c\<lparr>cn_write_buffer := cn_write_buffer c @ data, cn_write_interest := True\<rparr> in
      and_then (update_epoll_interest os c k) (\<lambda>k. Inr (c, k)))"

definition kRecvChunk :: nat where "kRecvChunk = 4096"

partial_function (option) try_read ::
  "'k os \<Rightarrow> connection \<Rightarrow> 'k \<Rightarrow> (bool \<times> connection \<times> 'k) option" where
  "try_read os c k =
     (case os_recv os (cn_fd c) kRecvChunk k of
        (Inr bytes, k) \<Rightarrow>
          if bytes \<noteq> [] then try_read os (c\<lparr>cn_read_buffer := cn_read_buffer c @ bytes\<rparr>) k
          else Some (False, c\<lparr>cn_closed := True\<rparr>, k)
      | (Inl e, k) \<Rightarrow>
          if e = EAGAIN \<or> e = EWOULDBLOCK then Some (True, c, k)
          else if e = EINTR then try_read os c k
          else Some (False, c\<lparr>cn_closed := True\<rparr>, k))"

text \<open>After a \<open>send\<close> that returns 0 the code reads \<open>errno\<close>, which that call has not set.\<close>

definition send_errno :: "'k os \<Rightarrow> errno + nat \<Rightarrow> 'k \<Rightarrow> errno" where
  "send_errno os r k = (case r of Inl e \<Rightarrow> e | Inr n \<Rightarrow> os_errno os k)"

partial_function (option) write_loop ::
  "'k os \<Rightarrow> connection \<Rightarrow> 'k \<Rightarrow> (bool \<times> connection \<times> 'k) option" where
  "write_loop os c k =
     (if cn_write_buffer c = [] then Some (True, c, k)
      else case os_send os (cn_fd c) (cn_write_buffer c) k of (r, k) \<Rightarrow>
        (case r of
           Inr (Suc n) \<Rightarrow> write_loop os (c\<lparr>cn_write_buffer := drop (Suc n) (cn_write_buffer c)\<rparr>) k
         | _ \<Rightarrow>
           (let e = send_errno os r k in
            if e = EAGAIN \<or> e = EWOULDBLOCK then Some (True, c, k)
            else if e = EINTR then write_loop os c k
            else Some (False, c\<lparr>cn_closed := True\<rparr>, k))))"

definition try_write ::
  "'k os \<Rightarrow> connection \<Rightarrow> 'k \<Rightarrow> (server_error + bool \<times> connection \<times> 'k) option" where
  "try_write os c k =
     Option.bind (write_loop os c k) (\<lambda>(ok, c, k).
       if \<not> ok then Some (Inr (False, c, k))
       else
         let c = c\<lparr>cn_write_interest := (cn_write_buffer c \<noteq> [])\<rparr> in
         Some (and_then (update_epoll_interest os c k) (\<lambda>k. Inr (True, c, k))))"

lemmas [code] = try_read.simps write_loop.simps

subsection \<open>Finite runs of system results\<close>

datatype io_end = Blocked | Ended

text \<open>What \<open>recv\<close> yields on a descriptor from kernel state \<open>k\<close> on: chunks, interruptions, then
  either "would block" or the end of the connection.\<close>

inductive recv_run :: "'k os \<Rightarrow> fd \<Rightarrow> 'k \<Rightarrow> u8 list list \<Rightarrow> io_end \<Rightarrow> 'k \<Rightarrow> bool" for os fd where
  recv_chunk: "os_recv os fd kRecvChunk k = (Inr bs, k1) \<Longrightarrow> bs \<noteq> [] \<Longrightarrow>
     recv_run os fd k1 css st k' \<Longrightarrow> recv_run os fd k (bs # css) st k'"
| recv_eintr: "os_recv os fd kRecvChunk k = (Inl EINTR, k1) \<Longrightarrow>
     recv_run os fd k1 css st k' \<Longrightarrow> recv_run os fd k css st k'"
| recv_block: "os_recv os fd kRecvChunk k = (Inl EAGAIN, k1) \<Longrightarrow> recv_run os fd k [] Blocked k1"
| recv_close: "os_recv os fd kRecvChunk k = (Inr [], k1) \<Longrightarrow> recv_run os fd k [] Ended k1"
| recv_error: "os_recv os fd kRecvChunk k = (Inl e, k1) \<Longrightarrow> e \<notin> {EAGAIN, EINTR} \<Longrightarrow>
     recv_run os fd k [] Ended k1"

text \<open>What \<open>send\<close> takes of a pending buffer: the parts taken, then all is sent, or it would block, or
  the connection has failed.\<close>

datatype send_end = Drained | Would_Block | Broken

inductive send_run ::
  "'k os \<Rightarrow> fd \<Rightarrow> u8 list \<Rightarrow> 'k \<Rightarrow> u8 list list \<Rightarrow> send_end \<Rightarrow> 'k \<Rightarrow> bool" for os fd where
  send_done: "send_run os fd [] k [] Drained k"
| send_part: "buf \<noteq> [] \<Longrightarrow> os_send os fd buf k = (Inr n, k1) \<Longrightarrow> 0 < n \<Longrightarrow> n \<le> length buf \<Longrightarrow>
     send_run os fd (drop n buf) k1 parts st k' \<Longrightarrow> send_run os fd buf k (take n buf # parts) st k'"
| send_eintr: "buf \<noteq> [] \<Longrightarrow> os_send os fd buf k = (Inl EINTR, k1) \<Longrightarrow>
     send_run os fd buf k1 parts st k' \<Longrightarrow> send_run os fd buf k parts st k'"
| send_block: "buf \<noteq> [] \<Longrightarrow> os_send os fd buf k = (Inl EAGAIN, k1) \<Longrightarrow>
     send_run os fd buf k [] Would_Block k1"
| send_error: "buf \<noteq> [] \<Longrightarrow> os_send os fd buf k = (Inl e, k1) \<Longrightarrow> e \<notin> {EAGAIN, EINTR} \<Longrightarrow>
     send_run os fd buf k [] Broken k1"

lemma errno_distinct [simp]: "EINTR \<noteq> EAGAIN" "EAGAIN \<noteq> EINTR" "EWOULDBLOCK = EAGAIN"
  by (simp_all add: EINTR_def EAGAIN_def EWOULDBLOCK_def)

lemma try_read_run:
  "recv_run os fd k css st k' \<Longrightarrow> cn_fd c = fd \<Longrightarrow>
   try_read os c k = Some (st = Blocked,
     c\<lparr>cn_read_buffer := cn_read_buffer c @ concat css, cn_closed := (cn_closed c \<or> st = Ended)\<rparr>, k')"
proof (induction arbitrary: c rule: recv_run.induct)
  case (recv_chunk k bs k1 css st k')
  then show ?case
    using recv_chunk.IH [of "c\<lparr>cn_read_buffer := cn_read_buffer c @ bs\<rparr>"]
    by (subst try_read.simps) simp
next
  case (recv_eintr k k1 css st k')
  then show ?case by (subst try_read.simps) simp
qed (subst try_read.simps, simp)+

lemma write_loop_run:
  "send_run os fd buf k parts st k' \<Longrightarrow> cn_fd c = fd \<Longrightarrow> cn_write_buffer c = buf \<Longrightarrow>
   (\<exists>rest. buf = concat parts @ rest \<and> (rest = [] \<longleftrightarrow> st = Drained) \<and>
     write_loop os c k = Some (st \<noteq> Broken,
       c\<lparr>cn_write_buffer := rest, cn_closed := (cn_closed c \<or> st = Broken)\<rparr>, k'))"
proof (induction arbitrary: c rule: send_run.induct)
  case (send_done k)
  then show ?case by (subst write_loop.simps) simp
next
  case (send_part buf k n k1 parts st k')
  obtain m where m: "n = Suc m" using send_part.hyps(3) by (cases n) auto
  obtain rest where rest: "drop n buf = concat parts @ rest" "rest = [] \<longleftrightarrow> st = Drained"
    "write_loop os (c\<lparr>cn_write_buffer := drop n buf\<rparr>) k1 = Some (st \<noteq> Broken,
       c\<lparr>cn_write_buffer := rest, cn_closed := (cn_closed c \<or> st = Broken)\<rparr>, k')"
    using send_part.IH [of "c\<lparr>cn_write_buffer := drop n buf\<rparr>"] send_part.prems by auto
  have "write_loop os c k = write_loop os (c\<lparr>cn_write_buffer := drop n buf\<rparr>) k1"
    using send_part.hyps send_part.prems m by (subst write_loop.simps) simp
  moreover have "buf = concat (take n buf # parts) @ rest"
    using rest(1) by (metis append_assoc append_take_drop_id concat.simps(2))
  ultimately show ?case using rest(2,3) by (intro exI [of _ rest]) simp
next
  case (send_eintr buf k k1 parts st k')
  have "write_loop os c k = write_loop os c k1"
    using send_eintr.hyps send_eintr.prems by (subst write_loop.simps) (simp add: send_errno_def)
  then show ?case using send_eintr.IH [OF send_eintr.prems] by simp
next
  case (send_block buf k k1)
  then show ?case by (subst write_loop.simps) (auto simp: send_errno_def)
next
  case (send_error buf k e k1)
  then show ?case by (subst write_loop.simps) (auto simp: send_errno_def)
qed

subsection \<open>Interest\<close>

lemma bit_EPOLLIN [simp]: "bit EPOLLIN i \<longleftrightarrow> i = 0"
  by (simp add: EPOLLIN_def bit_simps)

lemma bit_EPOLLOUT [simp]: "bit EPOLLOUT i \<longleftrightarrow> i = 2"
  unfolding EPOLLOUT_def by (cases i; cases "i - 1"; cases "i - 2") (auto simp: bit_Suc bit_simps)

lemma bit_epoll_interest:
  "bit (epoll_interest c) i \<longleftrightarrow> i = 0 \<and> \<not> write_congested c \<or> i = 2 \<and> cn_write_interest c"
  by (auto simp: epoll_interest_def Let_def bit_simps)

text \<open>The documented effect of \<open>EPOLL_CTL_MOD\<close>: \<open>watched\<close> reads the interest the kernel keeps.\<close>

definition mod_sets_interest :: "'k os \<Rightarrow> ('k \<Rightarrow> fd \<Rightarrow> u32) \<Rightarrow> bool" where
  "mod_sets_interest os watched \<longleftrightarrow>
     (\<forall>fd ev k k'. os_epoll_ctl os EPOLL_CTL_MOD fd ev k = (Inr (), k') \<longrightarrow> watched k' fd = ev)"

lemma update_interest_watched:
  assumes "mod_sets_interest os watched" "update_epoll_interest os c k = Inr k'"
  shows "watched k' (cn_fd c) = epoll_interest c"
  using assms unfolding mod_sets_interest_def update_epoll_interest_def el_modify_def el_epoll_ctl_Inr
  by blast

lemma enqueue_write_Inr:
  "enqueue_write os data c k = Inr (c', k') \<longleftrightarrow>
     c' = c\<lparr>cn_write_buffer := cn_write_buffer c @ data, cn_write_interest := True\<rparr> \<and>
     update_epoll_interest os c' k = Inr k'"
  by (auto simp: enqueue_write_def and_then_Inr Let_def)

subsection \<open>Properties\<close>

text \<open>C23: reading drains the socket. On every finite run of \<open>recv\<close> results \<open>try_read\<close> returns; it has
  appended exactly the bytes received, in order, to the read buffer, and returned \<open>false\<close> with the
  connection marked closed exactly when the run ended in end-of-stream or a fatal error.\<close>

theorem try_read_drains:
  assumes "recv_run os (cn_fd c) k chunks st k'"
  shows "\<exists>c'. try_read os c k = Some (st = Blocked, c', k') \<and>
     cn_read_buffer c' = cn_read_buffer c @ concat chunks \<and>
     cn_closed c' = (cn_closed c \<or> st = Ended) \<and>
     cn_write_buffer c' = cn_write_buffer c \<and> cn_fd c' = cn_fd c"
  using try_read_run [OF assms refl] by simp

theorem try_read_drains_witness:
  "let os = quiet_os\<lparr>os_recv := \<lambda>fd n k. if k = 0 then (Inr [5, 6], 1)
       else if k = 1 then (Inl EINTR, 2) else (Inr [], k)\<rparr> in
   \<exists>c'. try_read os (new_connection 4) 0 = Some (False, c', 2) \<and> cn_read_buffer c' = [5, 6] \<and> cn_closed c'"
proof -
  let ?os = "quiet_os\<lparr>os_recv := \<lambda>fd n k. if k = 0 then (Inr [5, 6], 1)
       else if k = 1 then (Inl EINTR, 2) else (Inr [], k)\<rparr>"
  have "recv_run ?os (cn_fd (new_connection 4)) 0 [[5, 6]] Ended 2"
    by (rule recv_chunk, simp, simp, rule recv_eintr, simp, rule recv_close, simp)
  from try_read_drains [OF this] show ?thesis
    by (auto simp: new_connection_def Let_def)
qed

text \<open>C22: writing loses nothing. On every finite run of \<open>send\<close> results after which the registration
  update succeeds, \<open>try_write\<close> returns; the bytes the system took followed by those still buffered
  are the bytes that were buffered, and \<open>EPOLLOUT\<close> stays requested exactly while bytes remain. If the
  connection broke, it is marked closed and \<open>false\<close> is returned.\<close>

theorem try_write_lossless:
  assumes "send_run os (cn_fd c) (cn_write_buffer c) k parts st k1"
    and "st \<noteq> Broken \<longrightarrow> (\<forall>ev. el_modify os (cn_fd c) ev k1 = Inr (k2 ev))"
  shows "\<exists>c' k'. try_write os c k = Some (Inr (st \<noteq> Broken, c', k')) \<and>
     concat parts @ cn_write_buffer c' = cn_write_buffer c \<and>
     (cn_write_buffer c' = [] \<longleftrightarrow> st = Drained) \<and>
     cn_closed c' = (cn_closed c \<or> st = Broken) \<and> cn_read_buffer c' = cn_read_buffer c \<and>
     (st \<noteq> Broken \<longrightarrow> cn_write_interest c' = (cn_write_buffer c' \<noteq> []) \<and> k' = k2 (epoll_interest c'))"
proof -
  obtain rest where rest: "cn_write_buffer c = concat parts @ rest" "rest = [] \<longleftrightarrow> st = Drained"
    "write_loop os c k = Some (st \<noteq> Broken,
       c\<lparr>cn_write_buffer := rest, cn_closed := (cn_closed c \<or> st = Broken)\<rparr>, k1)"
    using write_loop_run [OF assms(1) refl refl] by auto
  then show ?thesis
    using assms(2)
    by (cases "st = Broken") (auto simp: try_write_def update_epoll_interest_def Let_def)
qed

theorem try_write_lossless_witness:
  "let c = (new_connection 4)\<lparr>cn_write_buffer := [1, 2, 3]\<rparr>;
       os = quiet_os\<lparr>os_send := \<lambda>fd bs k. if k = 0 then (Inr 2, 1) else (Inl EAGAIN, k)\<rparr> in
   \<exists>c' k'. try_write os c 0 = Some (Inr (True, c', k')) \<and> cn_write_buffer c' = [3] \<and> cn_write_interest c'"
proof -
  let ?c = "(new_connection 4)\<lparr>cn_write_buffer := [1, 2, 3]\<rparr>"
  let ?os = "quiet_os\<lparr>os_send := \<lambda>fd bs k. if k = 0 then (Inr 2, 1) else (Inl EAGAIN, k)\<rparr>"
  have "send_run ?os 4 [1, 2, 3] 0 [take 2 [1, 2, 3]] Would_Block 1"
    by (rule send_part, simp_all, rule send_block, simp_all)
  then have "send_run ?os (cn_fd ?c) (cn_write_buffer ?c) 0 [take 2 [1, 2, 3]] Would_Block 1"
    by (simp add: new_connection_def)
  from try_write_lossless [OF this, of "\<lambda>ev. 1"] show ?thesis
    by (auto simp: new_connection_def quiet_os_def el_modify_def el_epoll_ctl_def Let_def)
qed

text \<open>backpressure on the socket. After every \<open>enqueue_write\<close> the kernel watches the socket for
  writability, and for readability exactly when fewer than 64 KiB are queued.\<close>

theorem enqueue_write_interest:
  assumes "mod_sets_interest os watched" and "enqueue_write os data c k = Inr (c', k')"
  shows "cn_write_buffer c' = cn_write_buffer c @ data \<and> cn_read_buffer c' = cn_read_buffer c \<and>
     (bit (watched k' (cn_fd c)) 0 \<longleftrightarrow> length (cn_write_buffer c @ data) < 65536) \<and>
     bit (watched k' (cn_fd c)) 2"
proof -
  have c': "c' = c\<lparr>cn_write_buffer := cn_write_buffer c @ data, cn_write_interest := True\<rparr>"
    "update_epoll_interest os c' k = Inr k'"
    using assms(2) by (auto simp: enqueue_write_Inr)
  then show ?thesis
    using update_interest_watched [OF assms(1) c'(2)]
    by (auto simp: bit_epoll_interest write_congested_def kWriteHighWaterMark_def)
qed

theorem enqueue_write_interest_witness:
  "let os = quiet_os\<lparr>os_epoll_ctl := \<lambda>op fd ev k. (Inr (), uint ev)\<rparr> in
   \<exists>c' k'. enqueue_write os [1, 2] (new_connection 4) 0 = Inr (c', k') \<and>
     cn_write_buffer c' = [1, 2] \<and> bit (word_of_int k' :: u32) 0 \<and> bit (word_of_int k' :: u32) 2"
proof -
  let ?os = "quiet_os\<lparr>os_epoll_ctl := \<lambda>op fd ev k. (Inr (), uint ev)\<rparr>"
  let ?c = "(new_connection 4)\<lparr>cn_write_buffer := [1, 2], cn_write_interest := True\<rparr>"
  have "mod_sets_interest ?os (\<lambda>k fd. word_of_int k)"
    by (auto simp: mod_sets_interest_def)
  moreover have "enqueue_write ?os [1, 2] (new_connection 4) 0 = Inr (?c, uint (epoll_interest ?c))"
    by (simp add: enqueue_write_def update_epoll_interest_def el_modify_def el_epoll_ctl_def
        new_connection_def Let_def)
  ultimately show ?thesis
    using enqueue_write_interest [of ?os "\<lambda>k fd. word_of_int k" "[1, 2]" "new_connection 4" 0 ?c]
    by (simp add: new_connection_def Let_def)
qed

end
