(* ===== verification/Messages.thy ===== *)
theory Messages
  imports Prelude
begin

section \<open>The wire format (proto/messages.hpp)\<close>

text \<open>
  The constants and the packed payload structs, each with its object representation: what
  \<open>reinterpret_cast<const std::uint8_t*>(&payload)\<close> yields and what \<open>memcpy\<close> out of a received
  payload restores. The locale \<open>wire_struct\<close> is the contract the frame layer and the session
  code rely on; every payload struct interprets it.
\<close>

subsection \<open>Constants and message types\<close>

definition kProtocolVersion :: u16 where "kProtocolVersion = 0x0001"

definition kFrameHeaderSize :: nat where "kFrameHeaderSize = 2"

definition kFrameCrcSize :: nat where "kFrameCrcSize = 2"

definition kMaxPayloadSize :: nat where "kMaxPayloadSize = 255"

text \<open>\<open>enum class MessageType : std::uint8_t\<close> has a fixed underlying type: a value cast from a
  received byte may be any of the 256, not only the named ones.\<close>

type_synonym MessageType = u8

definition kHello :: MessageType where "kHello = 1"

definition kConfig :: MessageType where "kConfig = 2"

definition kSample :: MessageType where "kSample = 3"

definition kSlowDown :: MessageType where "kSlowDown = 4"

definition kHeartbeat :: MessageType where "kHeartbeat = 5"

lemmas message_type_defs = kHello_def kConfig_def kSample_def kSlowDown_def kHeartbeat_def

subsection \<open>Payload structs\<close>

record HelloPayload =
  hello_device_id :: u32
  hello_fw_version :: u16
  hello_metric_count :: u8
  hello_offered_rate_hz :: u8

record ConfigPayload =
  config_session_id :: u16
  config_sample_rate_hz :: u8
  config_metric_mask :: u8

record SamplePayload =
  sample_session_id :: u16
  sample_timestamp_ms :: u32
  sample_value_milli :: i32
  sample_metric_id :: u8

record SlowDownPayload =
  slow_down_session_id :: u16
  slow_down_new_rate_hz :: u8

record HeartbeatPayload =
  heartbeat_session_id :: u16
  heartbeat_uptime_ms :: u32

subsection \<open>Object representations\<close>

definition hello_bytes :: "HelloPayload \<Rightarrow> u8 list" where
  "hello_bytes p = le32 (hello_device_id p) @ le16 (hello_fw_version p) @
     [hello_metric_count p, hello_offered_rate_hz p]"

definition hello_of_bytes :: "u8 list \<Rightarrow> HelloPayload" where
  "hello_of_bytes bs =
     \<lparr>hello_device_id = of_le32 (bs ! 0) (bs ! 1) (bs ! 2) (bs ! 3),
      hello_fw_version = of_le16 (bs ! 4) (bs ! 5),
      hello_metric_count = bs ! 6, hello_offered_rate_hz = bs ! 7\<rparr>"

definition config_bytes :: "ConfigPayload \<Rightarrow> u8 list" where
  "config_bytes p = le16 (config_session_id p) @ [config_sample_rate_hz p, config_metric_mask p]"

definition config_of_bytes :: "u8 list \<Rightarrow> ConfigPayload" where
  "config_of_bytes bs =
     \<lparr>config_session_id = of_le16 (bs ! 0) (bs ! 1),
      config_sample_rate_hz = bs ! 2, config_metric_mask = bs ! 3\<rparr>"

definition sample_bytes :: "SamplePayload \<Rightarrow> u8 list" where
  "sample_bytes p = le16 (sample_session_id p) @ le32 (sample_timestamp_ms p) @
     le32 (word_of_int (sample_value_milli p)) @ [sample_metric_id p]"

definition sample_of_bytes :: "u8 list \<Rightarrow> SamplePayload" where
  "sample_of_bytes bs =
     \<lparr>sample_session_id = of_le16 (bs ! 0) (bs ! 1),
      sample_timestamp_ms = of_le32 (bs ! 2) (bs ! 3) (bs ! 4) (bs ! 5),
      sample_value_milli = sint (of_le32 (bs ! 6) (bs ! 7) (bs ! 8) (bs ! 9)),
      sample_metric_id = bs ! 10\<rparr>"

definition slow_down_bytes :: "SlowDownPayload \<Rightarrow> u8 list" where
  "slow_down_bytes p = le16 (slow_down_session_id p) @ [slow_down_new_rate_hz p]"

definition slow_down_of_bytes :: "u8 list \<Rightarrow> SlowDownPayload" where
  "slow_down_of_bytes bs =
     \<lparr>slow_down_session_id = of_le16 (bs ! 0) (bs ! 1), slow_down_new_rate_hz = bs ! 2\<rparr>"

definition heartbeat_bytes :: "HeartbeatPayload \<Rightarrow> u8 list" where
  "heartbeat_bytes p = le16 (heartbeat_session_id p) @ le32 (heartbeat_uptime_ms p)"

definition heartbeat_of_bytes :: "u8 list \<Rightarrow> HeartbeatPayload" where
  "heartbeat_of_bytes bs =
     \<lparr>heartbeat_session_id = of_le16 (bs ! 0) (bs ! 1),
      heartbeat_uptime_ms = of_le32 (bs ! 2) (bs ! 3) (bs ! 4) (bs ! 5)\<rparr>"

text \<open>The sizes the \<open>static_assert\<close>s lock.\<close>

definition sizeof_HelloPayload :: nat where "sizeof_HelloPayload = 8"

definition sizeof_ConfigPayload :: nat where "sizeof_ConfigPayload = 4"

definition sizeof_SamplePayload :: nat where "sizeof_SamplePayload = 11"

definition sizeof_SlowDownPayload :: nat where "sizeof_SlowDownPayload = 3"

definition sizeof_HeartbeatPayload :: nat where "sizeof_HeartbeatPayload = 6"

lemmas sizeof_defs = sizeof_HelloPayload_def sizeof_ConfigPayload_def sizeof_SamplePayload_def
  sizeof_SlowDownPayload_def sizeof_HeartbeatPayload_def

subsection \<open>The contract of a wire struct\<close>

locale wire_struct =
  fixes enc :: "'a \<Rightarrow> u8 list" and dec :: "u8 list \<Rightarrow> 'a" and sz :: nat and ok :: "'a \<Rightarrow> bool"
  assumes length_enc: "length (enc x) = sz"
    and dec_enc: "ok x \<Longrightarrow> dec (enc x) = x"
    and enc_dec: "length bs = sz \<Longrightarrow> enc (dec bs) = bs"
    and ok_dec: "ok (dec bs)"
    and sz_bound: "sz \<le> kMaxPayloadSize"
begin

lemma enc_inj: "ok x \<Longrightarrow> ok y \<Longrightarrow> enc x = enc y \<Longrightarrow> x = y"
  by (metis dec_enc)

lemma dec_inj: "length bs = sz \<Longrightarrow> length cs = sz \<Longrightarrow> dec bs = dec cs \<Longrightarrow> bs = cs"
  by (metis enc_dec)

lemma enc_surj: "length bs = sz \<Longrightarrow> \<exists>x. ok x \<and> enc x = bs"
  using enc_dec ok_dec by blast

end

lemma length_Suc_numeral: "length bs = numeral k \<longleftrightarrow> (\<exists>b cs. bs = b # cs \<and> length cs = pred_numeral k)"
  by (simp add: numeral_eq_Suc length_Suc_conv)

interpretation hello_wire: wire_struct hello_bytes hello_of_bytes sizeof_HelloPayload "\<lambda>_. True"
  by unfold_locales
    (auto simp: hello_bytes_def hello_of_bytes_def sizeof_defs kMaxPayloadSize_def le16_def le32_def
      byte_simps [unfolded le16_def le32_def] length_Suc_numeral length_Suc_conv)

interpretation config_wire: wire_struct config_bytes config_of_bytes sizeof_ConfigPayload "\<lambda>_. True"
  by unfold_locales
    (auto simp: config_bytes_def config_of_bytes_def sizeof_defs kMaxPayloadSize_def le16_def le32_def
      byte_simps [unfolded le16_def le32_def] length_Suc_numeral length_Suc_conv)

interpretation sample_wire: wire_struct sample_bytes sample_of_bytes sizeof_SamplePayload
  "\<lambda>p. in_i32 (sample_value_milli p)"
  by unfold_locales
    (auto simp: sample_bytes_def sample_of_bytes_def sizeof_defs kMaxPayloadSize_def le16_def le32_def
      byte_simps [unfolded le16_def le32_def] length_Suc_numeral length_Suc_conv)

interpretation slow_down_wire: wire_struct slow_down_bytes slow_down_of_bytes sizeof_SlowDownPayload
  "\<lambda>_. True"
  by unfold_locales
    (auto simp: slow_down_bytes_def slow_down_of_bytes_def sizeof_defs kMaxPayloadSize_def le16_def
      le32_def byte_simps [unfolded le16_def le32_def] length_Suc_numeral length_Suc_conv)

interpretation heartbeat_wire: wire_struct heartbeat_bytes heartbeat_of_bytes sizeof_HeartbeatPayload
  "\<lambda>_. True"
  by unfold_locales
    (auto simp: heartbeat_bytes_def heartbeat_of_bytes_def sizeof_defs kMaxPayloadSize_def le16_def
      le32_def byte_simps [unfolded le16_def le32_def] length_Suc_numeral length_Suc_conv)

end
