(* ===== verification/Device_Session.thy ===== *)
theory Device_Session
  imports Messages
begin

section \<open>Device session policy (server/device_session.hpp, device_session.cpp)\<close>

text \<open>
  The session object and its operations. Time points and durations are counts of nanoseconds, so a
  duration in milliseconds is compared after scaling by \<open>10^6\<close>, as \<open>std::chrono\<close> does.
\<close>

record device_session =
  ds_session_id :: u16
  ds_connected :: bool
  ds_current_rate_hz :: u8
  ds_last_activity :: time_point
  ds_last_uptime_ms :: u32

definition new_device_session :: "u16 \<Rightarrow> time_point \<Rightarrow> device_session" where
  "new_device_session session_id now =
     \<lparr>ds_session_id = session_id, ds_connected = False, ds_current_rate_hz = 0,
      ds_last_activity = now, ds_last_uptime_ms = 0\<rparr>"

definition note_activity :: "time_point \<Rightarrow> device_session \<Rightarrow> device_session" where
  "note_activity now s = s\<lparr>ds_last_activity := now\<rparr>"

definition timed_out :: "device_session \<Rightarrow> time_point \<Rightarrow> int \<Rightarrow> bool" where
  "timed_out s now timeout_ms \<longleftrightarrow> now - ds_last_activity s > ns_of_ms timeout_ms"

definition note_uptime :: "u32 \<Rightarrow> device_session \<Rightarrow> device_session" where
  "note_uptime device_uptime_ms s = s\<lparr>ds_last_uptime_ms := device_uptime_ms\<rparr>"

definition slow_down :: "u8 \<Rightarrow> device_session \<Rightarrow> SlowDownPayload \<times> device_session" where
  "slow_down new_rate_hz s =
     (\<lparr>slow_down_session_id = ds_session_id s, slow_down_new_rate_hz = new_rate_hz\<rparr>,
      s\<lparr>ds_current_rate_hz := new_rate_hz\<rparr>)"

definition kMaxSampleRateHz :: u8 where "kMaxSampleRateHz = 10"

text \<open>The loop that sets one mask bit per usable metric; \<open>i\<close> is a \<open>std::uint8_t\<close>.\<close>

definition metric_mask_bits :: "u8 \<Rightarrow> u8" where
  "metric_mask_bits usable_metrics =
     fold (\<lambda>i mask. mask OR push_bit i 1) [0..<unat usable_metrics] 0"

definition ds_handle_hello :: "HelloPayload \<Rightarrow> device_session \<Rightarrow> ConfigPayload \<times> device_session" where
  "ds_handle_hello hello s =
     (let s = s\<lparr>ds_connected := True,
                ds_current_rate_hz := min (hello_offered_rate_hz hello) kMaxSampleRateHz\<rparr>;
          usable_metrics = min (hello_metric_count hello) 8;
          metric_mask = metric_mask_bits usable_metrics
      in (\<lparr>config_session_id = ds_session_id s, config_sample_rate_hz = ds_current_rate_hz s,
           config_metric_mask = metric_mask\<rparr>, s))"

lemmas device_session_defs = new_device_session_def note_activity_def timed_out_def note_uptime_def
  slow_down_def ds_handle_hello_def

subsection \<open>The metric mask\<close>

lemma bit_mask_loop:
  "bit (fold (\<lambda>i mask. mask OR push_bit i 1) [0..<n] (0 :: u8)) k \<longleftrightarrow> k < n \<and> k < 8"
  by (induction n) (auto simp: bit_simps less_Suc_eq)

lemma bit_metric_mask: "bit (metric_mask_bits n) k \<longleftrightarrow> k < unat n \<and> k < 8"
  unfolding metric_mask_bits_def by (rule bit_mask_loop)

subsection \<open>Properties\<close>

text \<open>The CONFIG reply. It carries the session's id, a rate that is the offered one capped at
  10 Hz, and a mask whose bit \<open>i\<close> is set exactly for the metrics \<open>i\<close> the device offered (of which at
  most eight exist on the wire); the session records the rate it told the device.\<close>

theorem hello_reply:
  "case ds_handle_hello hello s of (config, s') \<Rightarrow>
     config_session_id config = ds_session_id s \<and>
     unat (config_sample_rate_hz config) = min (unat (hello_offered_rate_hz hello)) 10 \<and>
     (\<forall>i. bit (config_metric_mask config) i = (i < min (unat (hello_metric_count hello)) 8)) \<and>
     ds_connected s' \<and> ds_current_rate_hz s' = config_sample_rate_hz config \<and>
     ds_last_activity s' = ds_last_activity s"
proof -
  have "unat (min a b) = min (unat a) (unat b)" for a b :: u8
    by (simp add: min_def word_le_nat_alt)
  then show ?thesis
    by (simp add: ds_handle_hello_def Let_def bit_metric_mask kMaxSampleRateHz_def)
qed

end
