(* ===== verification/Text_Stream.thy ===== *)
theory Text_Stream
  imports Prelude
begin

section \<open>Text: numbers, words and lines of the subscriber protocol\<close>

text \<open>
  What the sources use of the standard library's text facilities, and the line splitting loop that
  server/subscriber.cpp and client/line_protocol.cpp share.

  A \<open>std::istringstream\<close> is the text not yet extracted; an extraction that sets \<open>failbit\<close> is \<open>None\<close>
  (no source reads a stream after a failure). Numbers are read as \<open>std::num_get\<close> does in base ten in
  the C locale: whitespace is skipped, one sign is accepted, a value beyond the type's range fails,
  and a minus sign on an unsigned type negates modulo the type's size.
\<close>

subsection \<open>Bytes and characters\<close>

definition byte_of :: "char \<Rightarrow> u8" where
  "byte_of c = of_nat (of_char c)"

definition chr_of :: "u8 \<Rightarrow> char" where
  "chr_of b = char_of (unat b)"

definition bytes_of :: "string \<Rightarrow> u8 list" where
  "bytes_of s = map byte_of s"

definition chars_of :: "u8 list \<Rightarrow> string" where
  "chars_of bs = map chr_of bs"

lemma unat_byte_of [simp]: "unat (byte_of c) = of_char c"
  by (simp add: byte_of_def unat_of_nat)

lemma chr_of_byte_of [simp]: "chr_of (byte_of c) = c"
  by (simp add: chr_of_def)

lemma byte_of_chr_of [simp]: "byte_of (chr_of b) = b"
  by (simp add: chr_of_def byte_of_def of_char_of)

lemma byte_of_eq_iff: "byte_of c = b \<longleftrightarrow> c = chr_of b"
  by auto

lemma chars_of_bytes_of [simp]: "chars_of (bytes_of s) = s"
  by (simp add: chars_of_def bytes_of_def comp_def)

lemma bytes_of_append [simp]: "bytes_of (s @ t) = bytes_of s @ bytes_of t"
  by (simp add: bytes_of_def)

subsection \<open>Writing numbers\<close>

definition digit :: "nat \<Rightarrow> char" where
  "digit d = char_of (48 + d)"

fun to_string :: "nat \<Rightarrow> string" where
  "to_string n = (if n < 10 then [digit n] else to_string (n div 10) @ [digit (n mod 10)])"

declare to_string.simps [simp del]

definition to_string_int :: "int \<Rightarrow> string" where
  "to_string_int i = (if i < 0 then CHR ''-'' # to_string (nat (- i)) else to_string (nat i))"

subsection \<open>Reading\<close>

definition is_space :: "char \<Rightarrow> bool" where
  "is_space c \<longleftrightarrow> c = CHR '' '' \<or> (9 \<le> (of_char c :: nat) \<and> (of_char c :: nat) \<le> 13)"

definition is_digit :: "char \<Rightarrow> bool" where
  "is_digit c \<longleftrightarrow> 48 \<le> (of_char c :: nat) \<and> (of_char c :: nat) \<le> 57"

definition digit_value :: "char \<Rightarrow> nat" where
  "digit_value c = of_char c - 48"

definition value_of :: "string \<Rightarrow> nat" where
  "value_of ds = foldl (\<lambda>v c. 10 * v + digit_value c) 0 ds"

definition skip_space :: "string \<Rightarrow> string" where
  "skip_space s = dropWhile is_space s"

text \<open>\<open>stream >> word\<close>\<close>

definition read_word :: "string \<Rightarrow> (string \<times> string) option" where
  "read_word s =
     (let s = skip_space s; w = takeWhile (\<lambda>c. \<not> is_space c) s in
      if w = [] then None else Some (w, drop (length w) s))"

text \<open>The sign and the digits; the digits are missing where the text has none.\<close>

definition read_sign :: "string \<Rightarrow> bool \<times> string" where
  "read_sign s =
     (case s of [] \<Rightarrow> (False, []) | c # r \<Rightarrow>
        if c = CHR ''-'' then (True, r) else if c = CHR ''+'' then (False, r) else (False, s))"

definition read_number :: "string \<Rightarrow> (bool \<times> nat \<times> string) option" where
  "read_number s =
     (let (neg, s) = read_sign (skip_space s); ds = takeWhile is_digit s in
      if ds = [] then None else Some (neg, value_of ds, drop (length ds) s))"

text \<open>\<open>stream >> n\<close> for an unsigned type whose largest value is \<open>mx\<close>, and for a signed one.\<close>

definition read_unsigned :: "nat \<Rightarrow> string \<Rightarrow> (nat \<times> string) option" where
  "read_unsigned mx s =
     (case read_number s of
        None \<Rightarrow> None
      | Some (neg, v, r) \<Rightarrow>
          if v > mx then None else Some (if neg then (mx + 1 - v) mod (mx + 1) else v, r))"

definition read_i32 :: "string \<Rightarrow> (int \<times> string) option" where
  "read_i32 s =
     (case read_number s of
        None \<Rightarrow> None
      | Some (neg, v, r) \<Rightarrow>
          let i = (if neg then - int v else int v) in if in_i32 i then Some (i, r) else None)"

definition read_u16 :: "string \<Rightarrow> (u16 \<times> string) option" where
  "read_u16 s = map_option (\<lambda>(n, r). (of_nat n, r)) (read_unsigned 65535 s)"

definition read_u32 :: "string \<Rightarrow> (u32 \<times> string) option" where
  "read_u32 s = map_option (\<lambda>(n, r). (of_nat n, r)) (read_unsigned 4294967295 s)"

text \<open>\<open>!(stream >> trailing)\<close>\<close>

definition at_end :: "string \<Rightarrow> bool" where
  "at_end s \<longleftrightarrow> read_word s = None"

text \<open>\<open>std::atoi\<close>; \<open>None\<close> where the value does not fit an \<open>int\<close>, which the language leaves undefined.\<close>

definition atoi :: "string \<Rightarrow> int option" where
  "atoi s =
     (case read_number s of
        None \<Rightarrow> Some 0
      | Some (neg, v, r) \<Rightarrow>
          let i = (if neg then - int v else int v) in if in_i32 i then Some i else None)"

subsection \<open>Reading back what was written\<close>

lemma of_char_digit: "d < 10 \<Longrightarrow> (of_char (digit d) :: nat) = 48 + d"
  by (simp add: digit_def of_char_of)

lemma digit_props [simp]:
  "d < 10 \<Longrightarrow> is_digit (digit d)" "d < 10 \<Longrightarrow> digit_value (digit d) = d"
  by (auto simp: is_digit_def digit_value_def of_char_digit)

lemma is_digit_not_space: "is_digit c \<Longrightarrow> \<not> is_space c"
  by (auto simp: is_digit_def is_space_def)

lemma is_digit_not_sign: "is_digit c \<Longrightarrow> c \<noteq> CHR ''-'' \<and> c \<noteq> CHR ''+''"
  by (auto simp: is_digit_def)

lemma is_space_not_digit: "is_space c \<Longrightarrow> \<not> is_digit c"
  using is_digit_not_space by blast

lemma value_of_snoc [simp]: "value_of (ds @ [c]) = 10 * value_of ds + digit_value c"
  by (simp add: value_of_def)

lemma to_string_digits: "\<forall>c \<in> set (to_string n). is_digit c"
proof (induction n rule: to_string.induct)
  case (1 n)
  then show ?case by (subst to_string.simps) auto
qed

lemma to_string_nonempty [simp]: "to_string n \<noteq> []"
  by (subst to_string.simps) simp

lemma value_of_to_string [simp]: "value_of (to_string n) = n"
proof (induction n rule: to_string.induct)
  case (1 n)
  then show ?case
    by (cases "n < 10") (simp_all add: to_string.simps [of n] value_of_def)
qed

lemma skip_space_eq: "s = [] \<or> \<not> is_space (hd s) \<Longrightarrow> skip_space s = s"
  by (cases s) (auto simp: skip_space_def)

lemma skip_space_Cons [simp]: "skip_space (CHR '' '' # s) = skip_space s"
  by (simp add: skip_space_def is_space_def)

definition stops_digits :: "string \<Rightarrow> bool" where
  "stops_digits r \<longleftrightarrow> r = [] \<or> \<not> is_digit (hd r)"

lemma stops_digits_simps [simp]: "stops_digits []" "stops_digits (CHR '' '' # r)"
  by (simp_all add: stops_digits_def is_digit_def)

lemma takeWhile_to_string:
  "stops_digits r \<Longrightarrow> takeWhile is_digit (to_string n @ r) = to_string n"
  using to_string_digits [of n]
  by (cases r) (auto simp: stops_digits_def takeWhile_append)

lemma hd_to_string: "is_digit (hd (to_string n @ r))"
  using to_string_digits [of n] by (cases "to_string n") auto

lemma skip_space_to_string [simp]: "skip_space (to_string n @ r) = to_string n @ r"
  using hd_to_string [of n r] by (intro skip_space_eq) (auto dest: is_digit_not_space)

lemma read_sign_to_string [simp]: "read_sign (to_string n @ r) = (False, to_string n @ r)"
  using hd_to_string [of n r] by (cases "to_string n @ r") (auto simp: read_sign_def dest: is_digit_not_sign)

lemma read_number_to_string:
  "stops_digits r \<Longrightarrow> read_number (to_string n @ r) = Some (False, n, r)"
  by (simp add: read_number_def takeWhile_to_string)

lemma read_number_to_string_int:
  "stops_digits r \<Longrightarrow> read_number (to_string_int i @ r) = Some (i < 0, nat \<bar>i\<bar>, r)"
proof (cases "i < 0")
  case True
  assume r: "stops_digits r"
  have "skip_space (CHR ''-'' # to_string (nat (- i)) @ r) = CHR ''-'' # to_string (nat (- i)) @ r"
    by (rule skip_space_eq) (simp add: is_space_def)
  then show ?thesis
    using True r by (simp add: to_string_int_def read_number_def read_sign_def takeWhile_to_string)
qed (simp add: to_string_int_def read_number_to_string)

lemma read_number_space [simp]: "read_number (CHR '' '' # s) = read_number s"
  by (simp add: read_number_def)

lemma read_space [simp]:
  "read_u16 (CHR '' '' # s) = read_u16 s" "read_u32 (CHR '' '' # s) = read_u32 s"
  "read_i32 (CHR '' '' # s) = read_i32 s" "read_word (CHR '' '' # s) = read_word s"
  by (simp_all add: read_u16_def read_u32_def read_i32_def read_unsigned_def read_word_def)

lemma read_u16_to_string [simp]:
  "stops_digits r \<Longrightarrow> read_u16 (to_string (unat (w :: u16)) @ r) = Some (w, r)"
  using unsigned_less [where 'a = nat, of w]
  by (simp add: read_u16_def read_unsigned_def read_number_to_string)

lemma read_u32_to_string [simp]:
  "stops_digits r \<Longrightarrow> read_u32 (to_string (unat (w :: u32)) @ r) = Some (w, r)"
  using unsigned_less [where 'a = nat, of w]
  by (simp add: read_u32_def read_unsigned_def read_number_to_string)

lemma read_i32_to_string [simp]:
  "stops_digits r \<Longrightarrow> in_i32 i \<Longrightarrow> read_i32 (to_string_int i @ r) = Some (i, r)"
  by (simp add: read_i32_def read_number_to_string_int)

definition is_word :: "string \<Rightarrow> bool" where
  "is_word w \<longleftrightarrow> w \<noteq> [] \<and> (\<forall>c \<in> set w. \<not> is_space c)"

lemma is_word_skip: "is_word w \<Longrightarrow> skip_space (w @ s) = w @ s"
  by (intro skip_space_eq) (cases w, auto simp: is_word_def)

lemma is_word_takeWhile: "is_word w \<Longrightarrow> takeWhile (\<lambda>c. \<not> is_space c) (w @ s) = w @ takeWhile (\<lambda>c. \<not> is_space c) s"
  by (simp add: is_word_def takeWhile_append2)

lemma read_word_space:
  assumes "is_word w"
  shows "read_word (w @ CHR '' '' # r) = Some (w, CHR '' '' # r)"
  using assms is_word_takeWhile [OF assms, of "CHR '' '' # r"]
  by (simp add: read_word_def is_word_skip Let_def is_space_def is_word_def)

lemma read_word_last:
  assumes "is_word w"
  shows "read_word w = Some (w, [])"
proof -
  have w: "takeWhile (\<lambda>c. \<not> is_space c) w = w" "skip_space w = w"
    using is_word_takeWhile [OF assms, of "[]"] is_word_skip [OF assms, of "[]"] by simp_all
  show ?thesis using assms unfolding read_word_def Let_def w by (simp add: is_word_def)
qed

lemma at_end_Nil [simp]: "at_end []"
  by (simp add: at_end_def read_word_def skip_space_def)

lemma to_string_is_word: "is_word (to_string n)" "is_word (to_string_int i)"
  using to_string_digits [of n] to_string_digits [of "nat i"] to_string_digits [of "nat (- i)"]
  by (auto simp: is_word_def to_string_int_def is_space_def dest!: is_digit_not_space)

lemma to_string_inj [simp]: "to_string m = to_string n \<longleftrightarrow> m = n"
  by (metis value_of_to_string)

subsection \<open>Lines\<close>

text \<open>The loop over a receive buffer: \<open>i\<close> scans, \<open>line_start\<close> is where the current line began, and every
  newline hands the line before it, without one preceding carriage return, to \<open>handle\<close>. The result
  is the final \<open>line_start\<close>: the number of bytes consumed.\<close>

function line_loop ::
  "(string \<Rightarrow> 's \<Rightarrow> 'e + 's) \<Rightarrow> u8 list \<Rightarrow> nat \<Rightarrow> nat \<Rightarrow> 's \<Rightarrow> 'e + nat \<times> 's" where
  "line_loop handle bytes i line_start s =
     (if i < length bytes then
        if bytes ! i \<noteq> 10 then line_loop handle bytes (i + 1) line_start s
        else
          let line_end = i;
              line_end = (if line_end > line_start \<and> bytes ! (line_end - 1) = 13
                          then line_end - 1 else line_end);
              line = chars_of (take (line_end - line_start) (drop line_start bytes))
          in and_then (handle line s) (line_loop handle bytes (i + 1) (i + 1))
      else Inr (line_start, s))"
  by pat_completeness auto

termination by (relation "measure (\<lambda>(handle, bytes, i, line_start, s). length bytes - i)") auto

declare line_loop.simps [simp del]

text \<open>What the loop computes: the complete lines of a buffer, and the bytes after the last newline.\<close>

definition chomp :: "u8 list \<Rightarrow> u8 list" where
  "chomp l = (if l \<noteq> [] \<and> last l = 13 then butlast l else l)"

fun split_lines :: "u8 list \<Rightarrow> u8 list \<Rightarrow> string list \<times> u8 list" where
  "split_lines acc [] = ([], acc)"
| "split_lines acc (b # bs) =
     (if b = 10 then (case split_lines [] bs of (ls, r) \<Rightarrow> (chars_of (chomp acc) # ls, r))
      else split_lines (acc @ [b]) bs)"

lemma split_lines_append:
  "split_lines acc (xs @ ys) =
     (case split_lines acc xs of (ls, r) \<Rightarrow> case split_lines r ys of (ls', r') \<Rightarrow> (ls @ ls', r'))"
  by (induction acc xs rule: split_lines.induct) (auto split: prod.splits)

lemma split_lines_rest:
  "split_lines acc bs = (ls, r) \<Longrightarrow> 10 \<notin> set acc \<Longrightarrow>
   10 \<notin> set r \<and> length r \<le> length acc + length bs \<and> r = drop (length acc + length bs - length r) (acc @ bs)"
proof (induction acc bs arbitrary: ls r rule: split_lines.induct)
  case (2 acc b bs)
  show ?case
  proof (cases "b = 10")
    case True
    then obtain ls' where "split_lines [] bs = (ls', r)" using 2 by (auto split: prod.splits)
    from 2(1) [OF True this] show ?thesis by (auto simp: Suc_diff_le)
  next
    case False
    then show ?thesis using 2(2) [OF False, of ls r] 2(3,4) by auto
  qed
qed simp

lemma split_lines_no_newline: "10 \<notin> set bs \<Longrightarrow> split_lines acc bs = ([], acc @ bs)"
  by (induction bs arbitrary: acc) auto

lemma split_lines_line:
  "10 \<notin> set (acc @ l) \<Longrightarrow> split_lines acc (l @ 10 # bs) =
     (chars_of (chomp (acc @ l)) # fst (split_lines [] bs), snd (split_lines [] bs))"
  by (simp add: split_lines_append split_lines_no_newline split: prod.splits)

lemma chomp_index:
  assumes "line_start \<le> i" "i \<le> length bytes"
  shows "take ((if i > line_start \<and> bytes ! (i - 1) = 13 then i - 1 else i) - line_start)
       (drop line_start bytes) = chomp (take (i - line_start) (drop line_start bytes))"
proof (cases "i = line_start")
  case False
  let ?l = "take (i - line_start) (drop line_start bytes)"
  have l: "length ?l = i - line_start" "?l \<noteq> []" using assms False by auto
  then have "last ?l = bytes ! (i - 1)"
    using assms False by (simp add: last_conv_nth)
  moreover have "butlast ?l = take (i - 1 - line_start) (drop line_start bytes)"
    using assms False by (simp add: butlast_take)
  ultimately show ?thesis using l False assms by (simp add: chomp_def)
qed (simp add: chomp_def)

lemma line_loop_split:
  assumes "line_start \<le> i" "i \<le> length bytes"
    and "split_lines (take (i - line_start) (drop line_start bytes)) (drop i bytes) = (ls, r)"
  shows "line_loop handle bytes i line_start s =
     and_then (fold_res handle ls s) (\<lambda>s. Inr (length bytes - length r, s))"
  using assms
proof (induction "length bytes - i" arbitrary: i line_start s ls)
  case 0
  then have "ls = []" "r = drop line_start bytes" by auto
  then show ?case using 0 by (subst line_loop.simps) simp
next
  case (Suc n)
  then have i: "i < length bytes" and n: "n = length bytes - (i + 1)" by auto
  let ?acc = "take (i - line_start) (drop line_start bytes)"
  have d: "drop i bytes = bytes ! i # drop (i + 1) bytes" using i by (simp add: Cons_nth_drop_Suc)
  show ?case
  proof (cases "bytes ! i = 10")
    case True
    then obtain ls' where ls': "split_lines [] (drop (i + 1) bytes) = (ls', r)"
      "ls = chars_of (chomp ?acc) # ls'"
      using Suc.prems(3) d by (auto split: prod.splits)
    have "line_loop handle bytes (i + 1) (i + 1) s =
        and_then (fold_res handle ls' s) (\<lambda>s. Inr (length bytes - length r, s))" for s
      using Suc.hyps(1) [OF n, of "i + 1" ls' s] ls'(1) i by simp
    then have "line_loop handle bytes (Suc i) (Suc i) =
        (\<lambda>s. and_then (fold_res handle ls' s) (\<lambda>s. Inr (length bytes - length r, s)))"
      by (intro ext) simp
    then show ?thesis
      using True i ls'(2) chomp_index [OF Suc.prems(1,2)]
      by (subst line_loop.simps) (simp add: Let_def and_then_assoc)
  next
    case False
    have "take (Suc i - line_start) (drop line_start bytes) = ?acc @ [bytes ! i]"
      using Suc.prems(1) i by (simp add: Suc_diff_le take_Suc_conv_app_nth)
    then have "split_lines (take (i + 1 - line_start) (drop line_start bytes)) (drop (i + 1) bytes) = (ls, r)"
      using Suc.prems(3) d False by simp
    then show ?thesis
      using Suc.hyps(1) [OF n] Suc.prems(1) i False by (subst line_loop.simps) simp
  qed
qed

lemma line_loop_lines:
  "split_lines [] bytes = (ls, r) \<Longrightarrow>
   line_loop handle bytes 0 0 s = and_then (fold_res handle ls s) (\<lambda>s. Inr (length bytes - length r, s))"
  by (rule line_loop_split) simp_all

subsection \<open>Readers of a line protocol\<close>

text \<open>A reader keeps the bytes of an unfinished line and handles every complete line as its bytes
  arrive. The laws say that one call does that and that handling a line neither reads nor changes
  the pending bytes; then how the stream was cut into chunks makes no difference.\<close>

locale line_reader =
  fixes feed :: "u8 list \<Rightarrow> 's \<Rightarrow> 'e + 's" and handle :: "string \<Rightarrow> 's \<Rightarrow> 'e + 's"
    and pending :: "'s \<Rightarrow> u8 list" and set_pending :: "u8 list \<Rightarrow> 's \<Rightarrow> 's"
  assumes feed_lines: "split_lines [] (pending s @ bs) = (ls, r) \<Longrightarrow>
      feed bs s = and_then (fold_res handle ls s) (\<lambda>s. Inr (set_pending r s))"
    and pending_set [simp]: "pending (set_pending r s) = r"
    and set_set [simp]: "set_pending r (set_pending r' s) = set_pending r s"
    and handle_set: "handle l (set_pending r s) = and_then (handle l s) (\<lambda>s. Inr (set_pending r s))"
begin

lemma handle_set_fold:
  "fold_res handle ls (set_pending r s) = and_then (fold_res handle ls s) (\<lambda>s. Inr (set_pending r s))"
  by (rule fold_res_commute) (rule handle_set)

lemma feed_feed:
  assumes "10 \<notin> set (pending s)"
  shows "and_then (feed xs s) (feed ys) = feed (xs @ ys) s"
proof -
  obtain ls r where a: "split_lines [] (pending s @ xs) = (ls, r)" by fastforce
  obtain ls' r' where b: "split_lines r ys = (ls', r')" by fastforce
  have r: "10 \<notin> set r" using split_lines_rest [OF a] by simp
  have "split_lines [] (r @ ys) = (ls', r')"
    using split_lines_append [of "[]" r ys] split_lines_no_newline [OF r, of "[]"] b by simp
  then have second: "feed ys (set_pending r s) =
      and_then (fold_res handle ls' s) (\<lambda>s. Inr (set_pending r' s))" for s
    using feed_lines [of "set_pending r s" ys ls' r']
    by (simp add: handle_set_fold and_then_assoc)
  have "split_lines [] (pending s @ xs @ ys) = (ls @ ls', r')"
    using split_lines_append [of "[]" "pending s @ xs" ys] a b by simp
  then show ?thesis
    using feed_lines [OF a] feed_lines [of s "xs @ ys"] second
    by (simp add: fold_res_append and_then_assoc)
qed

lemma feed_pending: "feed xs s = Inr s' \<Longrightarrow> 10 \<notin> set (pending s')"
proof -
  assume f: "feed xs s = Inr s'"
  obtain ls r where a: "split_lines [] (pending s @ xs) = (ls, r)" by fastforce
  then show ?thesis
    using split_lines_rest [OF a] f feed_lines [OF a] by (auto simp: and_then_Inr)
qed

text \<open>The chunks of a stream handled one by one are the stream handled at once.\<close>

lemma feed_chunks:
  "10 \<notin> set (pending s) \<Longrightarrow> chunks \<noteq> [] \<Longrightarrow> fold_res feed chunks s = feed (concat chunks) s"
proof (induction chunks arbitrary: s)
  case (Cons c cs)
  show ?case
  proof (cases "cs = []")
    case True
    then show ?thesis by (cases "feed c s") simp_all
  next
    case False
    have "and_then (feed c s) (fold_res feed cs) = and_then (feed c s) (feed (concat cs))"
    proof (cases "feed c s")
      case (Inr s')
      then show ?thesis using Cons.IH [OF feed_pending [OF Inr] False] by simp
    qed simp
    then show ?thesis using feed_feed [OF Cons.prems(1)] by simp
  qed
qed simp

end

end
