(* ===== verification/Store_Data.thy ===== *)
theory Store_Data
  imports Event_Loop Device_Session Text_Stream
begin

section \<open>Readings and alerts (server/store.hpp, store.cpp: the data)\<close>

text \<open>
  The data the store keeps: per device and metric a ring of the last 64 samples with the smoothed
  reading, and per device two latched alerts. What \<open>record\<close>, \<open>latch_offline\<close> and \<open>add_subscriber\<close> do
  with the subscribers is in \<open>Store\<close>, on top of \<open>Subscriber\<close>, which itself calls \<open>ack\<close>.

  \<open>history_\<close> is only looked up, so it is a map; \<open>alerts_\<close> is also iterated over, so it is an
  association list, whose order stands for the iteration order of the \<open>unordered_map\<close>.
\<close>

subsection \<open>State\<close>

definition kHistoryPerDevice :: nat where "kHistoryPerDevice = 64"

definition kHighThresholdMilli :: i32 where "kHighThresholdMilli = 5500"

definition kTempMetricId :: u8 where "kTempMetricId = 0"

record sample =
  sm_timestamp_ms :: u32
  sm_value_milli :: i32

record alert_state =
  al_active :: bool
  al_value_milli :: i32
  al_timestamp_ms :: u32
  al_triggered_at :: time_point

record ack_result =
  had_excursion :: bool
  excursion_duration :: int
  excursion_still_active :: bool
  had_offline :: bool
  offline_duration :: int

record device_history =
  dh_entries :: "sample list"
  dh_count :: nat
  dh_next :: nat
  dh_have_average :: bool
  dh_average_milli :: i32

record device_alerts =
  da_excursion :: alert_state
  da_offline :: alert_state

record store =
  st_history :: "u32 \<rightharpoonup> device_history"
  st_alerts :: "(u16 \<times> device_alerts) list"
  st_subscribers :: "fd list"

definition no_alert :: alert_state where
  "no_alert = \<lparr>al_active = False, al_value_milli = 0, al_timestamp_ms = 0, al_triggered_at = 0\<rparr>"

definition no_alerts :: device_alerts where
  "no_alerts = \<lparr>da_excursion = no_alert, da_offline = no_alert\<rparr>"

definition no_ack :: ack_result where
  "no_ack = \<lparr>had_excursion = False, excursion_duration = 0, excursion_still_active = False,
     had_offline = False, offline_duration = 0\<rparr>"

definition empty_history :: device_history where
  "empty_history =
     \<lparr>dh_entries = replicate kHistoryPerDevice \<lparr>sm_timestamp_ms = 0, sm_value_milli = 0\<rparr>,
      dh_count = 0, dh_next = 0, dh_have_average = False, dh_average_milli = 0\<rparr>"

definition empty_store :: store where
  "empty_store = \<lparr>st_history = Map.empty, st_alerts = [], st_subscribers = []\<rparr>"

subsection \<open>Keys and names\<close>

definition make_key :: "u16 \<Rightarrow> u8 \<Rightarrow> u32" where
  "make_key session_id metric_id = push_bit 8 (ucast session_id) OR ucast metric_id"

definition metric_name :: "u8 \<Rightarrow> string" where
  "metric_name metric_id =
     (if metric_id = 0 then ''temp''
      else if metric_id = 1 then ''pressure''
      else ''metric'' @ to_string (unat metric_id))"

subsection \<open>Samples\<close>

definition store_history :: "store \<Rightarrow> u16 \<Rightarrow> u8 \<Rightarrow> sample list" where
  "store_history st session_id metric_id =
     (case st_history st (make_key session_id metric_id) of
        None \<Rightarrow> []
      | Some h \<Rightarrow>
          let oldest = (if dh_count h < kHistoryPerDevice then 0 else dh_next h) in
          map (\<lambda>i. dh_entries h ! ((oldest + i) mod kHistoryPerDevice)) [0..<dh_count h])"

definition push_sample :: "sample \<Rightarrow> device_history \<Rightarrow> device_history" where
  "push_sample s h =
     (let h = h\<lparr>dh_entries := (dh_entries h)[dh_next h := s]\<rparr>;
          h = h\<lparr>dh_next := (dh_next h + 1) mod kHistoryPerDevice\<rparr>
      in if dh_count h < kHistoryPerDevice then h\<lparr>dh_count := dh_count h + 1\<rparr> else h)"

text \<open>\<open>average += (value - average) >> 2\<close>: the subtraction is on \<open>int\<close> and may overflow; the shift of a
  negative difference rounds down.\<close>

definition ema_step :: "i32 \<Rightarrow> i32 \<Rightarrow> server_error + i32" where
  "ema_step average value_milli =
     (let difference = value_milli - average in
      if in_i32 difference then Inr (average + difference div 4) else Inl Signed_Overflow)"

definition update_average :: "i32 \<Rightarrow> device_history \<Rightarrow> server_error + device_history" where
  "update_average value_milli h =
     (if \<not> dh_have_average h
      then Inr (h\<lparr>dh_average_milli := value_milli, dh_have_average := True\<rparr>)
      else and_then (ema_step (dh_average_milli h) value_milli)
             (\<lambda>a. Inr (h\<lparr>dh_average_milli := a\<rparr>)))"

text \<open>The part of \<open>record\<close> before the fan-out.\<close>

definition record_sample ::
  "u16 \<Rightarrow> u8 \<Rightarrow> i32 \<Rightarrow> u32 \<Rightarrow> store \<Rightarrow> server_error + i32 \<times> store" where
  "record_sample session_id metric_id value_milli timestamp_ms st =
     (let key = make_key session_id metric_id;
          h = (case st_history st key of None \<Rightarrow> empty_history | Some h \<Rightarrow> h);
          h = push_sample \<lparr>sm_timestamp_ms = timestamp_ms, sm_value_milli = value_milli\<rparr> h
      in and_then (update_average value_milli h)
           (\<lambda>h. Inr (dh_average_milli h, st\<lparr>st_history := (st_history st)(key \<mapsto> h)\<rparr>)))"

subsection \<open>Alerts\<close>

definition alerts_at :: "store \<Rightarrow> u16 \<Rightarrow> device_alerts" where
  "alerts_at st session_id =
     (case map_of (st_alerts st) session_id of None \<Rightarrow> no_alerts | Some a \<Rightarrow> a)"

definition set_alerts :: "u16 \<Rightarrow> device_alerts \<Rightarrow> store \<Rightarrow> store" where
  "set_alerts session_id a st = st\<lparr>st_alerts := AList.update session_id a (st_alerts st)\<rparr>"

definition excursion_alert :: "store \<Rightarrow> u16 \<Rightarrow> alert_state" where
  "excursion_alert st session_id =
     (case map_of (st_alerts st) session_id of None \<Rightarrow> no_alert | Some a \<Rightarrow> da_excursion a)"

definition offline_alert :: "store \<Rightarrow> u16 \<Rightarrow> alert_state" where
  "offline_alert st session_id =
     (case map_of (st_alerts st) session_id of None \<Rightarrow> no_alert | Some a \<Rightarrow> da_offline a)"

definition ack :: "u16 \<Rightarrow> time_point \<Rightarrow> store \<Rightarrow> ack_result \<times> store" where
  "ack session_id now st =
     (case map_of (st_alerts st) session_id of
        None \<Rightarrow> (no_ack, st)
      | Some alerts \<Rightarrow>
          let (result, alerts) =
                (if al_active (da_offline alerts)
                 then (no_ack\<lparr>had_offline := True,
                         offline_duration := ms_of_ns (now - al_triggered_at (da_offline alerts))\<rparr>,
                       alerts\<lparr>da_offline := (da_offline alerts)\<lparr>al_active := False\<rparr>\<rparr>)
                 else (no_ack, alerts));
              (result, alerts) =
                (if al_active (da_excursion alerts)
                 then
                   let result = result\<lparr>had_excursion := True,
                         excursion_duration := ms_of_ns (now - al_triggered_at (da_excursion alerts))\<rparr>;
                       recovered = (case st_history st (make_key session_id kTempMetricId) of
                           None \<Rightarrow> False
                         | Some h \<Rightarrow> dh_average_milli h \<le> kHighThresholdMilli)
                   in if recovered
                      then (result, alerts\<lparr>da_excursion := (da_excursion alerts)\<lparr>al_active := False\<rparr>\<rparr>)
                      else (result\<lparr>excursion_still_active := True\<rparr>, alerts)
                 else (result, alerts))
          in (result, set_alerts session_id alerts st))"

subsection \<open>Keys and names are unambiguous\<close>

lemma make_key_eq: "make_key s m = make_key s' m' \<longleftrightarrow> s = s' \<and> m = m'"
proof
  assume eq: "make_key s m = make_key s' m'"
  have key: "ucast (drop_bit 8 (make_key s m)) = s" "ucast (make_key s m) = m" for s m
    by (rule bit_word_eqI; auto simp: make_key_def bit_simps dest: bit_imp_le_length)+
  show "s = s' \<and> m = m'" using key [of s m] key [of s' m'] eq by simp
qed simp

lemma metric_name_word: "is_word (metric_name m)"
  using to_string_is_word(1) [of "unat m"] by (auto simp: metric_name_def is_word_def is_space_def)

lemma metric_name_eq: "metric_name m = metric_name m' \<longleftrightarrow> m = m'"
  by (auto simp: metric_name_def) (simp add: word_unat_eq_iff)

subsection \<open>The history ring\<close>

definition dh_ok :: "device_history \<Rightarrow> bool" where
  "dh_ok h \<longleftrightarrow> length (dh_entries h) = 64 \<and> dh_count h \<le> 64 \<and> dh_next h < 64 \<and>
     (dh_count h < 64 \<longrightarrow> dh_next h = dh_count h)"

definition dh_list :: "device_history \<Rightarrow> sample list" where
  "dh_list h = map (\<lambda>i. dh_entries h ! (((if dh_count h < 64 then 0 else dh_next h) + i) mod 64)) [0..<dh_count h]"

definition last64 :: "'a list \<Rightarrow> 'a list" where
  "last64 xs = drop (length xs - 64) xs"

lemma empty_history_ok: "dh_ok empty_history" "dh_list empty_history = []"
  by (simp_all add: dh_ok_def empty_history_def kHistoryPerDevice_def dh_list_def)

lemma push_sample_partial:
  assumes "dh_ok h" "dh_count h < 64"
  shows "dh_list (push_sample s h) = dh_list h @ [s]"
proof (rule nth_equalityI)
  have z: "Suc (dh_count h) mod 64 = 0" if "\<not> dh_count h < 63"
  proof -
    have "dh_count h = 63" using that assms(2) by simp
    then show ?thesis by simp
  qed
  show "length (dh_list (push_sample s h)) = length (dh_list h @ [s])"
    using assms by (simp add: dh_list_def push_sample_def kHistoryPerDevice_def Let_def)
  show "dh_list (push_sample s h) ! i = (dh_list h @ [s]) ! i" if "i < length (dh_list (push_sample s h))" for i
    using assms that z
    by (auto simp: dh_list_def push_sample_def kHistoryPerDevice_def Let_def nth_append dh_ok_def nth_list_update)
qed

lemma push_sample_full:
  assumes "dh_ok h" "dh_count h = 64"
  shows "dh_list (push_sample s h) = tl (dh_list h) @ [s]"
proof (rule nth_equalityI)
  let ?n = "dh_next h"
  have n: "?n < 64" "length (dh_entries h) = 64" using assms(1) by (auto simp: dh_ok_def)
  show "length (dh_list (push_sample s h)) = length (tl (dh_list h) @ [s])"
    using assms by (simp add: dh_list_def push_sample_def kHistoryPerDevice_def Let_def)
  fix i assume "i < length (dh_list (push_sample s h))"
  then have i: "i < 64" using assms(2) by (simp add: dh_list_def push_sample_def kHistoryPerDevice_def Let_def)
  have l: "dh_list (push_sample s h) ! i = (dh_entries h)[?n := s] ! (((?n + 1) mod 64 + i) mod 64)"
    using assms(2) i by (simp add: dh_list_def push_sample_def kHistoryPerDevice_def Let_def)
  have idx: "((?n + 1) mod 64 + i) mod 64 = (?n + Suc i) mod 64"
    by (metis add.assoc mod_add_left_eq plus_1_eq_Suc)
  show "dh_list (push_sample s h) ! i = (tl (dh_list h) @ [s]) ! i"
  proof (cases "i = 63")
    case True
    then have "(?n + Suc i) mod 64 = ?n" using n(1) by simp
    then show ?thesis using n True assms(2) unfolding l idx by (simp add: nth_append dh_list_def)
  next
    case False
    then have "(?n + Suc i) mod 64 \<noteq> ?n" using n(1) i by (cases "?n + Suc i < 64") (auto simp: mod_if)
    moreover have "(tl (dh_list h) @ [s]) ! i = dh_entries h ! ((?n + Suc i) mod 64)"
      using False i assms(2) by (simp add: nth_append nth_tl dh_list_def)
    ultimately show ?thesis unfolding l idx by simp
  qed
qed

lemma push_sample_ok: "dh_ok h \<Longrightarrow> dh_ok (push_sample s h)"
  by (auto simp: dh_ok_def push_sample_def kHistoryPerDevice_def Let_def mod_Suc)

lemma length_dh_list [simp]: "length (dh_list h) = dh_count h"
  by (simp add: dh_list_def)

lemma push_sample_last64:
  assumes "dh_ok h" "dh_list h = last64 xs"
  shows "dh_list (push_sample s h) = last64 (xs @ [s])"
proof (cases "dh_count h < 64")
  case True
  then have "length xs < 64" using arg_cong [OF assms(2), of length] by (simp add: last64_def)
  then show ?thesis using push_sample_partial [OF assms(1) True] assms(2) by (simp add: last64_def)
next
  case False
  then have c: "dh_count h = 64" using assms(1) by (simp add: dh_ok_def)
  then have "64 \<le> length xs" using arg_cong [OF assms(2), of length] by (simp add: last64_def)
  then have "Suc (length xs - 64) = length (xs @ [s]) - 64" by simp
  then have "tl (last64 xs) = drop (length (xs @ [s]) - 64) xs"
    by (metis last64_def drop_Suc tl_drop)
  then show ?thesis
    using push_sample_full [OF assms(1) c] assms(2) \<open>64 \<le> length xs\<close> by (simp add: last64_def)
qed

subsection \<open>The smoothed reading\<close>

lemma ema_step_ok:
  assumes "in_i32 (v - a)"
  shows "\<exists>a'. ema_step a v = Inr a' \<and> a' = a + (v - a) div 4 \<and> min a v \<le> a' \<and> a' \<le> max a v"
proof -
  have "v - a \<le> (v - a) div 4" if "v - a \<le> 0" using that by linarith
  moreover have "(v - a) div 4 \<le> v - a" if "0 \<le> v - a" using that by linarith
  moreover have "0 \<le> (v - a) div 4 \<longleftrightarrow> 0 \<le> v - a" by linarith
  ultimately show ?thesis using assms by (auto simp: ema_step_def Let_def)
qed

definition plausible :: "i32 \<Rightarrow> bool" where
  "plausible v \<longleftrightarrow> - (2 ^ 30) \<le> v \<and> v < 2 ^ 30"

lemma plausible_diff: "plausible a \<Longrightarrow> plausible v \<Longrightarrow> in_i32 (v - a)"
  by (auto simp: plausible_def in_i32_def)

lemma ema_plausible:
  assumes "plausible a" "plausible v"
  shows "\<exists>a'. ema_step a v = Inr a' \<and> plausible a'"
  using ema_step_ok [OF plausible_diff [OF assms]] assms by (auto simp: plausible_def)

subsection \<open>Recording\<close>

lemma record_sample_Inr:
  assumes "record_sample sid mid v ts st = Inr (a, st')"
  shows "\<exists>h h'. h = (case st_history st (make_key sid mid) of None \<Rightarrow> empty_history | Some h \<Rightarrow> h) \<and>
     update_average v (push_sample \<lparr>sm_timestamp_ms = ts, sm_value_milli = v\<rparr> h) = Inr h' \<and>
     a = dh_average_milli h' \<and> st' = st\<lparr>st_history := (st_history st)(make_key sid mid \<mapsto> h')\<rparr>"
  using assms by (auto simp: record_sample_def Let_def and_then_Inr)

lemma update_average_ring:
  "update_average v h = Inr h' \<Longrightarrow> dh_list h' = dh_list h \<and> (dh_ok h' \<longleftrightarrow> dh_ok h)"
  by (auto simp: update_average_def and_then_Inr dh_list_def dh_ok_def split: if_splits)

type_synonym reading = "u16 \<times> u8 \<times> i32 \<times> u32"

definition samples_for :: "u16 \<Rightarrow> u8 \<Rightarrow> reading list \<Rightarrow> sample list" where
  "samples_for sid mid rs =
     map (\<lambda>(s, m, v, t). \<lparr>sm_timestamp_ms = t, sm_value_milli = v\<rparr>)
       (filter (\<lambda>(s, m, v, t). s = sid \<and> m = mid) rs)"

definition history_is :: "store \<Rightarrow> reading list \<Rightarrow> bool" where
  "history_is st rs \<longleftrightarrow>
     (\<forall>sid mid. case st_history st (make_key sid mid) of
        None \<Rightarrow> samples_for sid mid rs = []
      | Some h \<Rightarrow> dh_ok h \<and> dh_list h = last64 (samples_for sid mid rs))"

lemma store_history_list:
  "store_history st sid mid = (case st_history st (make_key sid mid) of None \<Rightarrow> [] | Some h \<Rightarrow> dh_list h)"
  by (simp add: store_history_def dh_list_def kHistoryPerDevice_def Let_def split: option.split)

lemma history_is_empty: "history_is empty_store []"
  by (simp add: history_is_def empty_store_def samples_for_def)

lemma history_is_lookup:
  assumes "history_is st rs"
  shows "store_history st sid mid = last64 (samples_for sid mid rs)"
  using assms [unfolded history_is_def, rule_format, of sid mid]
  by (cases "st_history st (make_key sid mid)") (simp_all add: store_history_list last64_def)

lemma history_is_record:
  assumes "history_is st rs" "record_sample sid mid v ts st = Inr (a, st')"
  shows "history_is st' (rs @ [(sid, mid, v, ts)])"
  unfolding history_is_def
proof (intro allI)
  fix s m
  let ?x = "\<lparr>sm_timestamp_ms = ts, sm_value_milli = v\<rparr>"
  obtain h h' where h: "h = (case st_history st (make_key sid mid) of None \<Rightarrow> empty_history | Some h \<Rightarrow> h)"
    "update_average v (push_sample ?x h) = Inr h'"
    "st' = st\<lparr>st_history := (st_history st)(make_key sid mid \<mapsto> h')\<rparr>"
    using record_sample_Inr [OF assms(2)] by blast
  have old: "dh_ok h \<and> dh_list h = last64 (samples_for sid mid rs)"
    using assms(1) [unfolded history_is_def, rule_format, of sid mid] h(1) empty_history_ok
    by (cases "st_history st (make_key sid mid)") (simp_all add: last64_def)
  show "case st_history st' (make_key s m) of
      None \<Rightarrow> samples_for s m (rs @ [(sid, mid, v, ts)]) = []
    | Some h \<Rightarrow> dh_ok h \<and> dh_list h = last64 (samples_for s m (rs @ [(sid, mid, v, ts)]))"
  proof (cases "s = sid \<and> m = mid")
    case True
    then show ?thesis
      using h(3) update_average_ring [OF h(2)] push_sample_ok [of h ?x]
        push_sample_last64 [of h "samples_for sid mid rs" ?x] old
      by (simp add: samples_for_def)
  next
    case False
    then have "make_key s m \<noteq> make_key sid mid" by (simp add: make_key_eq)
    moreover have "samples_for s m (rs @ [(sid, mid, v, ts)]) = samples_for s m rs"
      using False by (auto simp: samples_for_def)
    ultimately show ?thesis
      using assms(1) [unfolded history_is_def, rule_format, of s m] h(3)
      by (simp split: option.split_asm option.split)
  qed
qed

subsection \<open>Alerts\<close>

lemma alerts_at_set [simp]:
  "alerts_at (set_alerts sid a st) s = (if s = sid then a else alerts_at st s)"
  by (simp add: alerts_at_def set_alerts_def update_conv')

lemma alert_lookup:
  "excursion_alert st sid = da_excursion (alerts_at st sid)"
  "offline_alert st sid = da_offline (alerts_at st sid)"
  by (simp_all add: excursion_alert_def offline_alert_def alerts_at_def no_alerts_def split: option.split)

lemma set_alerts_frame [simp]:
  "st_history (set_alerts sid a st) = st_history st"
  "st_subscribers (set_alerts sid a st) = st_subscribers st"
  by (simp_all add: set_alerts_def)

lemma map_of_alerts: "map_of (st_alerts st) sid = Some a \<Longrightarrow> alerts_at st sid = a"
  by (simp add: alerts_at_def)

subsection \<open>Properties\<close>

text \<open>C29: the EMA stays between the old average and the reading, never overflows for readings and
  averages within \<open>\<plusminus>2^30\<close>, and closes at least a quarter of the distance up to rounding.\<close>

theorem ema_bounds:
  assumes "plausible a" and "plausible v"
  shows "\<exists>a'. ema_step a v = Inr a' \<and> plausible a' \<and> min a v \<le> a' \<and> a' \<le> max a v \<and>
     4 * \<bar>v - a'\<bar> \<le> 3 * \<bar>v - a\<bar> + 3"
proof -
  obtain a' where a': "ema_step a v = Inr a'" "a' = a + (v - a) div 4" "min a v \<le> a'" "a' \<le> max a v"
    using ema_step_ok [OF plausible_diff [OF assms]] by blast
  have "4 * ((v - a) div 4) \<le> v - a" "v - a \<le> 4 * ((v - a) div 4) + 3" by linarith+
  then have "4 * \<bar>v - a'\<bar> \<le> 3 * \<bar>v - a\<bar> + 3"
    using a'(2-4) by (cases "a \<le> v") (auto simp: min_def max_def abs_if)
  then show ?thesis using a' assms by (auto simp: plausible_def)
qed

theorem ema_bounds_witness:
  "\<exists>a'. ema_step 4000 9000 = Inr a' \<and> 4000 \<le> a' \<and> a' \<le> 9000"
  using ema_bounds [of 4000 9000] by (auto simp: plausible_def)

text \<open>C24: acknowledging. \<open>ack\<close> reports for each kind whether an alert was open and for how long, in
  whole milliseconds since it was triggered; it always closes an offline alert; it closes an
  excursion exactly when the device's current smoothed temperature is back at or below the
  threshold, and otherwise leaves the excursion with its trigger time untouched; no other device's
  alerts and no history change.\<close>

theorem ack_contract:
  assumes "ack sid now st = (r, st')"
  shows "had_excursion r = al_active (excursion_alert st sid) \<and>
     had_offline r = al_active (offline_alert st sid) \<and>
     (had_excursion r \<longrightarrow> excursion_duration r = ms_of_ns (now - al_triggered_at (excursion_alert st sid))) \<and>
     (had_offline r \<longrightarrow> offline_duration r = ms_of_ns (now - al_triggered_at (offline_alert st sid))) \<and>
     \<not> al_active (offline_alert st' sid) \<and>
     (excursion_still_active r \<longleftrightarrow> had_excursion r \<and>
        \<not> (\<exists>h. st_history st (make_key sid kTempMetricId) = Some h \<and>
             dh_average_milli h \<le> kHighThresholdMilli)) \<and>
     al_active (excursion_alert st' sid) = excursion_still_active r \<and>
     (excursion_still_active r \<longrightarrow> excursion_alert st' sid = excursion_alert st sid) \<and>
     (\<forall>s. s \<noteq> sid \<longrightarrow> alerts_at st' s = alerts_at st s) \<and>
     st_history st' = st_history st \<and> st_subscribers st' = st_subscribers st"
proof (cases "map_of (st_alerts st) sid")
  case None
  then have "alerts_at st sid = no_alerts" by (simp add: alerts_at_def)
  then show ?thesis
    using assms None by (auto simp: ack_def alert_lookup no_ack_def no_alerts_def no_alert_def)
next
  case (Some al)
  show ?thesis
    using assms Some
    by (cases "al_active (da_offline al)"; cases "al_active (da_excursion al)")
      (auto simp: ack_def Let_def alert_lookup map_of_alerts no_ack_def split: if_splits option.splits)
qed

theorem ack_contract_witness:
  "let al = \<lparr>da_excursion = no_alert, da_offline = \<lparr>al_active = True, al_value_milli = 0,
         al_timestamp_ms = 7, al_triggered_at = 1000000\<rparr>\<rparr>;
       st = empty_store\<lparr>st_alerts := [(3, al)]\<rparr>; r = fst (ack 3 6000000 st) in
   had_offline r \<and> offline_duration r = 5 \<and> \<not> had_excursion r"
proof -
  let ?al = "\<lparr>da_excursion = no_alert, da_offline = \<lparr>al_active = True, al_value_milli = 0,
         al_timestamp_ms = 7, al_triggered_at = 1000000\<rparr>\<rparr>"
  let ?st = "empty_store\<lparr>st_alerts := [(3 :: u16, ?al)]\<rparr>"
  show ?thesis
    using ack_contract [of 3 6000000 ?st, OF surjective_pairing]
    by (simp add: excursion_alert_def offline_alert_def empty_store_def no_alert_def ms_of_ns_def Let_def)
qed

end
