(* ===== verification/Subscriber.thy ===== *)
theory Subscriber
  imports Connection Store_Data
begin

section \<open>The text protocol's server side (server/subscriber.hpp, subscriber.cpp)\<close>

text \<open>
  A subscriber's methods work on the object itself, on the connection it references and, for \<open>ACK\<close>,
  on the store and the clock; \<open>sub_env\<close> holds the four. Publishing needs only the first two and the
  kernel, so the store's fan-out can use it for every subscriber in turn.
\<close>

record subscriber =
  sub_metric :: string
  sub_updates_sent :: nat

definition new_subscriber :: subscriber where
  "new_subscriber = \<lparr>sub_metric = [], sub_updates_sent = 0\<rparr>"

definition subscribed :: "subscriber \<Rightarrow> bool" where
  "subscribed s \<longleftrightarrow> sub_metric s \<noteq> []"

definition newline :: char where "newline = chr_of 10"

definition send_line :: "'k os \<Rightarrow> string \<Rightarrow> connection \<Rightarrow> 'k \<Rightarrow> server_error + connection \<times> 'k" where
  "send_line os line c k = enqueue_write os (bytes_of (line @ [newline])) c k"

subsection \<open>Publishing\<close>

definition sample_line :: "string \<Rightarrow> u16 \<Rightarrow> u32 \<Rightarrow> i32 \<Rightarrow> string" where
  "sample_line metric session_id timestamp_ms value_milli =
     metric @ '' '' @ to_string (unat session_id) @ '' '' @ to_string (unat timestamp_ms) @ '' '' @
     to_string_int value_milli"

definition excursion_line :: "u16 \<Rightarrow> u32 \<Rightarrow> i32 \<Rightarrow> string" where
  "excursion_line session_id timestamp_ms value_milli =
     ''ALERT EXCURSION '' @ to_string (unat session_id) @ '' '' @ to_string (unat timestamp_ms) @ '' '' @
     to_string_int value_milli"

definition offline_line :: "u16 \<Rightarrow> u32 \<Rightarrow> string" where
  "offline_line session_id timestamp_ms =
     ''ALERT OFFLINE '' @ to_string (unat session_id) @ '' '' @ to_string (unat timestamp_ms)"

definition publish ::
  "'k os \<Rightarrow> string \<Rightarrow> u16 \<Rightarrow> i32 \<Rightarrow> u32 \<Rightarrow> subscriber \<times> connection \<times> 'k
     \<Rightarrow> server_error + subscriber \<times> connection \<times> 'k" where
  "publish os metric session_id value_milli timestamp_ms =
     (\<lambda>(s, c, k).
        if metric \<noteq> sub_metric s then Inr (s, c, k)
        else and_then (send_line os (sample_line metric session_id timestamp_ms value_milli) c k)
               (\<lambda>(c, k). Inr (s\<lparr>sub_updates_sent := sub_updates_sent s + 1\<rparr>, c, k)))"

definition publish_excursion_alert ::
  "'k os \<Rightarrow> u16 \<Rightarrow> i32 \<Rightarrow> u32 \<Rightarrow> subscriber \<times> connection \<times> 'k
     \<Rightarrow> server_error + subscriber \<times> connection \<times> 'k" where
  "publish_excursion_alert os session_id value_milli timestamp_ms =
     (\<lambda>(s, c, k). and_then (send_line os (excursion_line session_id timestamp_ms value_milli) c k)
        (\<lambda>(c, k). Inr (s, c, k)))"

definition publish_offline_alert ::
  "'k os \<Rightarrow> u16 \<Rightarrow> u32 \<Rightarrow> subscriber \<times> connection \<times> 'k
     \<Rightarrow> server_error + subscriber \<times> connection \<times> 'k" where
  "publish_offline_alert os session_id timestamp_ms =
     (\<lambda>(s, c, k). and_then (send_line os (offline_line session_id timestamp_ms) c k)
        (\<lambda>(c, k). Inr (s, c, k)))"

subsection \<open>Commands\<close>

record 'k sub_env =
  se_sub :: subscriber
  se_conn :: connection
  se_store :: store
  se_kernel :: 'k

definition reply :: "'k os \<Rightarrow> string \<Rightarrow> 'k sub_env \<Rightarrow> server_error + 'k sub_env" where
  "reply os line e =
     and_then (send_line os line (se_conn e) (se_kernel e))
       (\<lambda>(c, k). Inr (e\<lparr>se_conn := c, se_kernel := k\<rparr>))"

definition ack_line :: "u16 \<Rightarrow> ack_result \<Rightarrow> string" where
  "ack_line session_id r =
     ''ACK_OK '' @ to_string (unat session_id) @
     '' excursion_ms='' @ to_string_int (excursion_duration r) @
     '' excursion_active='' @ (if excursion_still_active r then ''1'' else ''0'') @
     '' offline_ms='' @ to_string_int (offline_duration r)"

definition stats_line :: "subscriber \<Rightarrow> string" where
  "stats_line s =
     ''STATS metric='' @ (if sub_metric s = [] then ''none'' else sub_metric s) @
     '' updates_sent='' @ to_string (sub_updates_sent s)"

definition handle_command ::
  "'k os \<Rightarrow> string \<Rightarrow> string \<Rightarrow> 'k sub_env \<Rightarrow> server_error + 'k sub_env" where
  "handle_command os verb args e =
     (if verb = ''SUBSCRIBE'' then Inr (e\<lparr>se_sub := (se_sub e)\<lparr>sub_metric := args\<rparr>\<rparr>)
      else if verb = ''UNSUBSCRIBE'' then Inr (e\<lparr>se_sub := (se_sub e)\<lparr>sub_metric := []\<rparr>\<rparr>)
      else if verb = ''STATS'' then reply os (stats_line (se_sub e)) e
      else if verb = ''ACK'' then
        (case read_u16 args of
           None \<Rightarrow> Inr e
         | Some (session_id, rest) \<Rightarrow>
             if \<not> at_end rest then Inr e
             else
               let (now, k) = os_now os (se_kernel e);
                   (result, st) = ack session_id now (se_store e)
               in reply os (ack_line session_id result) (e\<lparr>se_store := st, se_kernel := k\<rparr>))
      else Inr e)"

text \<open>\<open>line.find(' ')\<close>, \<open>substr\<close>: the verb is the text before the first space.\<close>

definition handle_line :: "'k os \<Rightarrow> string \<Rightarrow> 'k sub_env \<Rightarrow> server_error + 'k sub_env" where
  "handle_line os line e =
     (let verb = takeWhile (\<lambda>c. c \<noteq> CHR '' '') line;
          args = drop (length verb + 1) line
      in handle_command os verb args e)"

definition sub_on_readable :: "'k os \<Rightarrow> 'k sub_env \<Rightarrow> server_error + 'k sub_env" where
  "sub_on_readable os e =
     and_then (line_loop (handle_line os) (cn_read_buffer (se_conn e)) 0 0 e)
       (\<lambda>(line_start, e). and_then (consume line_start (se_conn e)) (\<lambda>c. Inr (e\<lparr>se_conn := c\<rparr>)))"

subsection \<open>The reader contract\<close>

text \<open>The bytes of a chunk arrive in the read buffer, then \<open>on_readable\<close> runs.\<close>

definition sub_feed :: "'k os \<Rightarrow> u8 list \<Rightarrow> 'k sub_env \<Rightarrow> server_error + 'k sub_env" where
  "sub_feed os bs e =
     sub_on_readable os (e\<lparr>se_conn := (se_conn e)\<lparr>cn_read_buffer := cn_read_buffer (se_conn e) @ bs\<rparr>\<rparr>)"

definition sub_pending :: "'k sub_env \<Rightarrow> u8 list" where
  "sub_pending e = cn_read_buffer (se_conn e)"

definition sub_set_pending :: "u8 list \<Rightarrow> 'k sub_env \<Rightarrow> 'k sub_env" where
  "sub_set_pending r e = e\<lparr>se_conn := (se_conn e)\<lparr>cn_read_buffer := r\<rparr>\<rparr>"

lemma epoll_interest_read_buffer [simp]:
  "epoll_interest (c\<lparr>cn_read_buffer := r\<rparr>) = epoll_interest c"
  by (simp add: epoll_interest_def write_congested_def)

lemma send_line_read_buffer:
  "send_line os l (c\<lparr>cn_read_buffer := r\<rparr>) k =
     and_then (send_line os l c k) (\<lambda>(c, k). Inr (c\<lparr>cn_read_buffer := r\<rparr>, k))"
proof -
  have "update_epoll_interest os (c\<lparr>cn_read_buffer := r, cn_write_buffer := b, cn_write_interest := True\<rparr>) k =
      update_epoll_interest os (c\<lparr>cn_write_buffer := b, cn_write_interest := True\<rparr>) k" for b
    by (simp add: update_epoll_interest_def epoll_interest_def write_congested_def)
  then show ?thesis by (cases c) (simp add: send_line_def enqueue_write_def Let_def and_then_assoc)
qed

lemma reply_set_pending:
  "reply os l (sub_set_pending r e) = and_then (reply os l e) (\<lambda>e. Inr (sub_set_pending r e))"
  by (cases e) (simp add: reply_def sub_set_pending_def send_line_read_buffer and_then_assoc case_prod_beta)

lemma handle_line_set_pending:
  "handle_line os l (sub_set_pending r e) = and_then (handle_line os l e) (\<lambda>e. Inr (sub_set_pending r e))"
proof -
  have upd: "(sub_set_pending r e)\<lparr>se_store := st, se_kernel := k\<rparr> =
      sub_set_pending r (e\<lparr>se_store := st, se_kernel := k\<rparr>)"
    "(sub_set_pending r e)\<lparr>se_sub := s\<rparr> = sub_set_pending r (e\<lparr>se_sub := s\<rparr>)" for st k s
    by (simp_all add: sub_set_pending_def)
  have sel: "se_sub (sub_set_pending r e) = se_sub e" "se_store (sub_set_pending r e) = se_store e"
    "se_kernel (sub_set_pending r e) = se_kernel e"
    by (simp_all add: sub_set_pending_def)
  show ?thesis
    unfolding handle_line_def handle_command_def Let_def sel upd reply_set_pending
    by (simp split: option.split prod.split)
qed

interpretation sub_reader: line_reader "sub_feed os" "handle_line os" sub_pending sub_set_pending
  for os :: "'k os"
proof (unfold_locales, goal_cases)
  case (1 s bs ls r)
  let ?X = "sub_pending s @ bs"
  have rest: "length r \<le> length ?X" "r = drop (length ?X - length r) ?X"
    using split_lines_rest [OF 1] by auto
  have feed: "sub_feed os bs s = sub_on_readable os (sub_set_pending ?X s)"
    by (simp add: sub_feed_def sub_set_pending_def sub_pending_def)
  have cons: "(case (length ?X - length r, sub_set_pending ?X e) of (n, e) \<Rightarrow>
       and_then (consume n (se_conn e)) (\<lambda>c. Inr (e\<lparr>se_conn := c\<rparr>))) = Inr (sub_set_pending r e)" for e
    using rest by (simp add: sub_set_pending_def consume_def)
  have "cn_read_buffer (se_conn (sub_set_pending ?X s)) = ?X" by (simp add: sub_set_pending_def)
  then show ?case
    using line_loop_lines [OF 1, of "handle_line os" "sub_set_pending ?X s"]
      fold_res_commute [of "handle_line os" "sub_set_pending ?X" ls s, OF handle_line_set_pending]
    by (simp only: feed sub_on_readable_def and_then_assoc and_then.simps cons)
next
  case (4 l r s)
  show ?case by (rule handle_line_set_pending)
qed (simp_all add: sub_pending_def sub_set_pending_def)

subsection \<open>Lines on the wire\<close>

lemma send_line_Inr:
  "send_line os line c k = Inr (c', k') \<Longrightarrow>
   cn_write_buffer c' = cn_write_buffer c @ bytes_of (line @ [newline]) \<and>
   cn_read_buffer c' = cn_read_buffer c \<and> cn_fd c' = cn_fd c \<and> cn_closed c' = cn_closed c"
  by (simp add: send_line_def enqueue_write_Inr)

lemma handle_line_verb:
  "CHR '' '' \<notin> set v \<Longrightarrow> handle_line os (v @ '' '' @ args) e = handle_command os v args e"
  "CHR '' '' \<notin> set v \<Longrightarrow> handle_line os v e = handle_command os v [] e"
proof -
  assume v: "CHR '' '' \<notin> set v"
  then have t: "takeWhile (\<lambda>c. c \<noteq> CHR '' '') v = v"
    by (intro takeWhile_eq_all_conv [THEN iffD2]) auto
  have "takeWhile (\<lambda>c. c \<noteq> CHR '' '') (v @ '' '' @ args) = v @ takeWhile (\<lambda>c. c \<noteq> CHR '' '') ('' '' @ args)"
    using v by (intro takeWhile_append2) auto
  then have u: "takeWhile (\<lambda>c. c \<noteq> CHR '' '') (v @ '' '' @ args) = v" by simp
  show "handle_line os (v @ '' '' @ args) e = handle_command os v args e"
    unfolding handle_line_def Let_def u by simp
  show "handle_line os v e = handle_command os v [] e"
    unfolding handle_line_def Let_def t by simp
qed

lemma handle_ack:
  "handle_command os ''ACK'' args e =
     (case read_u16 args of
        None \<Rightarrow> Inr e
      | Some (session_id, rest) \<Rightarrow>
          if \<not> at_end rest then Inr e
          else let (now, k) = os_now os (se_kernel e); (result, st) = ack session_id now (se_store e)
               in reply os (ack_line session_id result) (e\<lparr>se_store := st, se_kernel := k\<rparr>))"
  by (simp add: handle_command_def)

lemma handle_line_ack: "handle_line os (''ACK '' @ args) e = handle_command os ''ACK'' args e"
  using handle_line_verb(1) [of "''ACK''" os args e] by simp

subsection \<open>Properties\<close>

text \<open>C26: commands do not depend on how TCP cuts the stream. Feeding a subscriber any sequence of
  chunks, from a state with no unprocessed line, executes the same commands with the same effect on
  the subscriber, the store, the outgoing bytes and the kernel as feeding their concatenation at
  once.\<close>

theorem command_chunking:
  assumes "10 \<notin> set (cn_read_buffer (se_conn e))" and "chunks \<noteq> []"
  shows "fold_res (sub_feed os) chunks e = sub_feed os (concat chunks) e"
  using sub_reader.feed_chunks [of e chunks os] assms by (simp add: sub_pending_def)

theorem command_chunking_witness:
  "let e = \<lparr>se_sub = new_subscriber, se_conn = new_connection 4, se_store = empty_store, se_kernel = 0\<rparr>
   in fold_res (sub_feed quiet_os) [[65, 67], [75], [10]] e = sub_feed quiet_os [65, 67, 75, 10] e"
  using command_chunking [of "\<lparr>se_sub = new_subscriber, se_conn = new_connection 4,
      se_store = empty_store, se_kernel = 0\<rparr>" "[[65, 67], [75], [10]]" quiet_os]
  by (simp add: new_connection_def Let_def)

text \<open>C33: what each command does. \<open>SUBSCRIBE m\<close> replaces the metric and \<open>UNSUBSCRIBE\<close> clears it,
  sending nothing; \<open>STATS\<close> only sends its line; \<open>ACK n\<close> with a decimal session id runs the store's
  acknowledgement at the current time and sends its line; a verb other than these, or an \<open>ACK\<close> whose
  argument does not begin with a number or has text after it, changes nothing.\<close>

theorem commands_do:
  "handle_line os (''SUBSCRIBE '' @ m) e = Inr (e\<lparr>se_sub := (se_sub e)\<lparr>sub_metric := m\<rparr>\<rparr>) \<and>
   handle_line os ''UNSUBSCRIBE'' e = Inr (e\<lparr>se_sub := (se_sub e)\<lparr>sub_metric := []\<rparr>\<rparr>) \<and>
   handle_line os ''STATS'' e = reply os (stats_line (se_sub e)) e \<and>
   handle_line os (''ACK '' @ to_string (unat sid)) e =
     (let (now, k) = os_now os (se_kernel e); (result, st) = ack sid now (se_store e)
      in reply os (ack_line sid result) (e\<lparr>se_store := st, se_kernel := k\<rparr>)) \<and>
   (read_u16 args = None \<or> (\<exists>n r. read_u16 args = Some (n, r) \<and> \<not> at_end r) \<longrightarrow>
      handle_line os (''ACK '' @ args) e = Inr e) \<and>
   (v \<notin> {''SUBSCRIBE'', ''UNSUBSCRIBE'', ''STATS'', ''ACK''} \<and> CHR '' '' \<notin> set v \<longrightarrow>
      handle_line os v e = Inr e \<and> handle_line os (v @ '' '' @ args) e = Inr e)"
proof (intro conjI impI)
  show "handle_line os (''SUBSCRIBE '' @ m) e = Inr (e\<lparr>se_sub := (se_sub e)\<lparr>sub_metric := m\<rparr>\<rparr>)"
    using handle_line_verb(1) [of "''SUBSCRIBE''" os m e] by (simp add: handle_command_def)
  show "handle_line os ''UNSUBSCRIBE'' e = Inr (e\<lparr>se_sub := (se_sub e)\<lparr>sub_metric := []\<rparr>\<rparr>)"
    using handle_line_verb(2) [of "''UNSUBSCRIBE''" os e] by (simp add: handle_command_def)
  show "handle_line os ''STATS'' e = reply os (stats_line (se_sub e)) e"
    using handle_line_verb(2) [of "''STATS''" os e] by (simp add: handle_command_def)
  have "read_u16 (to_string (unat sid)) = Some (sid, [])"
    using read_u16_to_string [of "[]" sid] by simp
  then show "handle_line os (''ACK '' @ to_string (unat sid)) e =
     (let (now, k) = os_now os (se_kernel e); (result, st) = ack sid now (se_store e)
      in reply os (ack_line sid result) (e\<lparr>se_store := st, se_kernel := k\<rparr>))"
    unfolding handle_line_ack handle_ack by simp
  show "handle_line os (''ACK '' @ args) e = Inr e"
    if "read_u16 args = None \<or> (\<exists>n r. read_u16 args = Some (n, r) \<and> \<not> at_end r)"
    using that unfolding handle_line_ack handle_ack by auto
  show "handle_line os v e = Inr e" "handle_line os (v @ '' '' @ args) e = Inr e"
    if "v \<notin> {''SUBSCRIBE'', ''UNSUBSCRIBE'', ''STATS'', ''ACK''} \<and> CHR '' '' \<notin> set v"
    using that handle_line_verb [of v os] by (simp_all add: handle_command_def)
qed

theorem commands_do_witness:
  "handle_line quiet_os (''ACK '' @ ''x'')
     \<lparr>se_sub = new_subscriber, se_conn = new_connection 4, se_store = empty_store, se_kernel = 0\<rparr> =
   Inr \<lparr>se_sub = new_subscriber, se_conn = new_connection 4, se_store = empty_store, se_kernel = 0\<rparr>"
proof -
  have "read_u16 ''x'' = None"
    by (simp add: read_u16_def read_unsigned_def read_number_def read_sign_def skip_space_def
        is_space_def is_digit_def)
  then show ?thesis
    using commands_do [of quiet_os _ "\<lparr>se_sub = new_subscriber, se_conn = new_connection 4,
       se_store = empty_store, se_kernel = 0\<rparr>" _ "''x''"] by blast
qed

text \<open>\<open>ACK\<close> accepts a negative number. The stream extraction that is meant to admit one decimal
  number and nothing else reads a minus sign and negates modulo \<open>2^16\<close>: \<open>ACK -1\<close> acknowledges session
  65535.\<close>

theorem ack_negative_accepted:
  assumes "0 < n" and "n \<le> 65535"
  shows "handle_line os (''ACK -'' @ to_string n) e =
     (let (now, k) = os_now os (se_kernel e); (result, st) = ack (- of_nat n) now (se_store e)
      in reply os (ack_line (- of_nat n) result) (e\<lparr>se_store := st, se_kernel := k\<rparr>))"
proof -
  have "read_number (CHR ''-'' # to_string n) = Some (True, n, [])"
    using read_number_to_string_int [of "[]" "- int n"] assms(1) by (simp add: to_string_int_def)
  moreover have "(of_nat (65536 - n) :: u16) = - of_nat n"
    using assms by (simp add: of_nat_diff)
  ultimately have "read_u16 (CHR ''-'' # to_string n) = Some (- of_nat n, [])"
    using assms by (simp add: read_u16_def read_unsigned_def)
  then show ?thesis
    using handle_line_ack [of os "CHR ''-'' # to_string n" e] by (simp add: handle_ack)
qed

theorem ack_negative_accepted_witness:
  "handle_line quiet_os (''ACK -'' @ to_string 1)
     \<lparr>se_sub = new_subscriber, se_conn = new_connection 4, se_store = empty_store, se_kernel = 0\<rparr> =
   reply quiet_os (ack_line (- 1) no_ack)
     \<lparr>se_sub = new_subscriber, se_conn = new_connection 4, se_store = empty_store, se_kernel = 0\<rparr>"
proof -
  let ?e = "\<lparr>se_sub = new_subscriber, se_conn = new_connection 4, se_store = empty_store, se_kernel = 0\<rparr>"
  have "os_now quiet_os 0 = (0, 0)" "ack s t empty_store = (no_ack, empty_store)" for s t
    by (simp_all add: quiet_os_def ack_def empty_store_def)
  then show ?thesis
    using ack_negative_accepted [of 1 quiet_os ?e] by simp
qed

end
