(* ===== verification/Store.thy ===== *)
theory Store
  imports Subscriber
begin

section \<open>The store's fan-out (server/store.cpp: record, alerts, subscribers)\<close>

text \<open>
  The objects the store reaches: \<open>hub\<close> extends the event loop's state with the live connections and
  subscribers and with the store itself. A \<open>subscriber*\<close> is the descriptor of the connection the
  subscriber was built on (the two live and die together, one per descriptor), so following a pointer
  to a destroyed subscriber is the explicit outcome \<open>Dangling_Pointer\<close>.
\<close>

record ('k, 'cb, 'tcb) hub = "('k, 'cb, 'tcb) event_loop" +
  hub_conns :: "fd \<rightharpoonup> connection"
  hub_subs :: "fd \<rightharpoonup> subscriber"
  hub_store :: store

definition with_sub ::
  "fd \<Rightarrow> (subscriber \<times> connection \<times> 'k \<Rightarrow> server_error + subscriber \<times> connection \<times> 'k)
     \<Rightarrow> ('k, 'cb, 'tcb, 'z) hub_scheme \<Rightarrow> server_error + ('k, 'cb, 'tcb, 'z) hub_scheme" where
  "with_sub p f w =
     (case (hub_subs w p, hub_conns w p) of
        (Some s, Some c) \<Rightarrow>
          and_then (f (s, c, el_kernel w)) (\<lambda>(s, c, k).
            Inr (w\<lparr>hub_subs := (hub_subs w)(p \<mapsto> s), hub_conns := (hub_conns w)(p \<mapsto> c), el_kernel := k\<rparr>))
      | _ \<Rightarrow> Inl Dangling_Pointer)"

definition fan_out where
  "fan_out f w = fold_res (\<lambda>p. with_sub p f) (st_subscribers (hub_store w)) w"

definition notify_excursion where
  "notify_excursion os session_id a w =
     fan_out (publish_excursion_alert os session_id (al_value_milli a) (al_timestamp_ms a)) w"

definition notify_offline where
  "notify_offline os session_id a w =
     fan_out (publish_offline_alert os session_id (al_timestamp_ms a)) w"

definition replay_alerts ::
  "'k os \<Rightarrow> u16 \<times> device_alerts \<Rightarrow> subscriber \<times> connection \<times> 'k
     \<Rightarrow> server_error + subscriber \<times> connection \<times> 'k" where
  "replay_alerts os = (\<lambda>(session_id, alerts) x.
     and_then
       (if al_active (da_excursion alerts)
        then publish_excursion_alert os session_id (al_value_milli (da_excursion alerts))
               (al_timestamp_ms (da_excursion alerts)) x
        else Inr x)
       (\<lambda>x. if al_active (da_offline alerts)
            then publish_offline_alert os session_id (al_timestamp_ms (da_offline alerts)) x
            else Inr x))"

definition add_subscriber where
  "add_subscriber os p w =
     (let st = hub_store w; w = w\<lparr>hub_store := st\<lparr>st_subscribers := st_subscribers st @ [p]\<rparr>\<rparr> in
      fold_res (\<lambda>a. with_sub p (replay_alerts os a)) (st_alerts st) w)"

definition remove_subscriber where
  "remove_subscriber p w =
     w\<lparr>hub_store := (hub_store w)\<lparr>st_subscribers := filter (\<lambda>q. q \<noteq> p) (st_subscribers (hub_store w))\<rparr>\<rparr>"

definition store_record where
  "store_record os session_id metric_id value_milli timestamp_ms now w =
     and_then (record_sample session_id metric_id value_milli timestamp_ms (hub_store w)) (\<lambda>(average, st).
     and_then (fan_out (publish os (metric_name metric_id) session_id value_milli timestamp_ms)
        (w\<lparr>hub_store := st\<rparr>)) (\<lambda>w.
       if metric_id \<noteq> kTempMetricId \<or> average \<le> kHighThresholdMilli then Inr w
       else
         let alerts = alerts_at (hub_store w) session_id in
         if al_active (da_excursion alerts) then Inr w
         else
           let a = \<lparr>al_active = True, al_value_milli = average, al_timestamp_ms = timestamp_ms,
                    al_triggered_at = now\<rparr>
           in notify_excursion os session_id a
                (w\<lparr>hub_store := set_alerts session_id (alerts\<lparr>da_excursion := a\<rparr>) (hub_store w)\<rparr>)))"

definition latch_offline where
  "latch_offline os session_id timestamp_ms now w =
     (let alerts = alerts_at (hub_store w) session_id in
      if al_active (da_offline alerts) then Inr w
      else
        let a = \<lparr>al_active = True, al_value_milli = 0, al_timestamp_ms = timestamp_ms,
                 al_triggered_at = now\<rparr>
        in notify_offline os session_id a
             (w\<lparr>hub_store := set_alerts session_id (alerts\<lparr>da_offline := a\<rparr>) (hub_store w)\<rparr>))"

subsection \<open>Delivery\<close>

text \<open>The pointers the store holds are live and distinct.\<close>

definition subs_ok :: "('k, 'cb, 'tcb, 'z) hub_scheme \<Rightarrow> bool" where
  "subs_ok w \<longleftrightarrow> distinct (st_subscribers (hub_store w)) \<and>
     (\<forall>p \<in> set (st_subscribers (hub_store w)). hub_subs w p \<noteq> None \<and> hub_conns w p \<noteq> None)"

text \<open>Changing a socket's registration succeeds.\<close>

definition mod_succeeds :: "'k os \<Rightarrow> bool" where
  "mod_succeeds os \<longleftrightarrow> (\<forall>fd ev k. \<exists>k'. os_epoll_ctl os EPOLL_CTL_MOD fd ev k = (Inr (), k'))"

definition outbuf :: "('k, 'cb, 'tcb, 'z) hub_scheme \<Rightarrow> fd \<Rightarrow> u8 list" where
  "outbuf w p = (case hub_conns w p of None \<Rightarrow> [] | Some c \<Rightarrow> cn_write_buffer c)"

definition conn_same :: "connection \<Rightarrow> connection \<Rightarrow> bool" where
  "conn_same c c' \<longleftrightarrow> cn_fd c' = cn_fd c \<and> cn_closed c' = cn_closed c \<and>
     cn_read_buffer c' = cn_read_buffer c \<and> cn_on_readable c' = cn_on_readable c"

text \<open>An operation on a subscriber that appends \<open>out s\<close> to its connection and makes it \<open>upd s\<close>.\<close>

definition delivers ::
  "(subscriber \<times> connection \<times> 'k \<Rightarrow> server_error + subscriber \<times> connection \<times> 'k)
     \<Rightarrow> (subscriber \<Rightarrow> u8 list) \<Rightarrow> (subscriber \<Rightarrow> subscriber) \<Rightarrow> bool" where
  "delivers f out upd \<longleftrightarrow>
     (\<forall>s c k. \<exists>c' k'. f (s, c, k) = Inr (upd s, c', k') \<and> conn_same c c' \<and>
        cn_write_buffer c' = cn_write_buffer c @ out s)"

definition line_bytes :: "string \<Rightarrow> u8 list" where
  "line_bytes l = bytes_of (l @ [newline])"

lemma send_line_delivers:
  assumes "mod_succeeds os"
  shows "\<exists>c' k'. send_line os l c k = Inr (c', k') \<and> conn_same c c' \<and>
     cn_write_buffer c' = cn_write_buffer c @ line_bytes l"
proof -
  let ?c = "c\<lparr>cn_write_buffer := cn_write_buffer c @ line_bytes l, cn_write_interest := True\<rparr>"
  obtain k' where "os_epoll_ctl os EPOLL_CTL_MOD (cn_fd ?c) (epoll_interest ?c) k = (Inr (), k')"
    using assms unfolding mod_succeeds_def by blast
  then have "update_epoll_interest os ?c k = Inr k'"
    unfolding update_epoll_interest_def el_modify_def el_epoll_ctl_Inr .
  then have "send_line os l c k = Inr (?c, k')"
    unfolding send_line_def enqueue_write_Inr by (simp add: line_bytes_def)
  then show ?thesis by (auto simp: conn_same_def)
qed

lemma publish_delivers:
  assumes "mod_succeeds os"
  shows "delivers (publish os m sid v ts)
     (\<lambda>s. if m = sub_metric s then line_bytes (sample_line m sid ts v) else [])
     (\<lambda>s. if m = sub_metric s then s\<lparr>sub_updates_sent := sub_updates_sent s + 1\<rparr> else s)"
  unfolding delivers_def
proof (intro allI)
  fix s c k
  show "\<exists>c' k'. publish os m sid v ts (s, c, k) =
       Inr ((if m = sub_metric s then s\<lparr>sub_updates_sent := sub_updates_sent s + 1\<rparr> else s), c', k') \<and>
     conn_same c c' \<and> cn_write_buffer c' =
       cn_write_buffer c @ (if m = sub_metric s then line_bytes (sample_line m sid ts v) else [])"
    using send_line_delivers [OF assms, of "sample_line m sid ts v" c k]
    by (auto simp: publish_def conn_same_def)
qed

lemma send_then_delivers:
  assumes "mod_succeeds os"
  shows "delivers (\<lambda>(s, c, k). and_then (send_line os l c k) (\<lambda>(c, k). Inr (s, c, k))) (\<lambda>s. line_bytes l) (\<lambda>s. s)"
  unfolding delivers_def
proof (intro allI)
  fix s c k
  show "\<exists>c' k'. (case (s, c, k) of (s, c, k) \<Rightarrow> and_then (send_line os l c k) (\<lambda>(c, k). Inr (s, c, k))) =
       Inr (s, c', k') \<and> conn_same c c' \<and> cn_write_buffer c' = cn_write_buffer c @ line_bytes l"
    using send_line_delivers [OF assms, of l c k] by auto
qed

lemma alerts_deliver:
  assumes "mod_succeeds os"
  shows "delivers (publish_excursion_alert os sid v ts) (\<lambda>s. line_bytes (excursion_line sid ts v)) (\<lambda>s. s)"
    and "delivers (publish_offline_alert os sid ts) (\<lambda>s. line_bytes (offline_line sid ts)) (\<lambda>s. s)"
  unfolding publish_excursion_alert_def publish_offline_alert_def
  by (rule send_then_delivers [OF assms])+

lemma delivers_skip: "delivers Inr (\<lambda>s. []) (\<lambda>s. s)"
  by (simp add: delivers_def conn_same_def)

lemma delivers_then:
  assumes f: "delivers f out upd" and g: "delivers g out' (\<lambda>s. s)" and same: "\<And>s. out' (upd s) = out' s"
  shows "delivers (\<lambda>x. and_then (f x) g) (\<lambda>s. out s @ out' s) upd"
  unfolding delivers_def
proof (intro allI)
  fix s c k
  obtain c1 k1 where 1: "f (s, c, k) = Inr (upd s, c1, k1)" "conn_same c c1"
    "cn_write_buffer c1 = cn_write_buffer c @ out s"
    using f unfolding delivers_def by blast
  obtain c2 k2 where 2: "g (upd s, c1, k1) = Inr (upd s, c2, k2)" "conn_same c1 c2"
    "cn_write_buffer c2 = cn_write_buffer c1 @ out' (upd s)"
    using g unfolding delivers_def by blast
  show "\<exists>c' k'. and_then (f (s, c, k)) g = Inr (upd s, c', k') \<and> conn_same c c' \<and>
      cn_write_buffer c' = cn_write_buffer c @ out s @ out' s"
    using 1 2 same by (intro exI [of _ c2] exI [of _ k2]) (simp add: conn_same_def)
qed

text \<open>The bytes that replaying one device's alerts sends.\<close>

definition alert_bytes :: "u16 \<times> device_alerts \<Rightarrow> u8 list" where
  "alert_bytes = (\<lambda>(sid, al).
     (if al_active (da_excursion al)
      then line_bytes (excursion_line sid (al_timestamp_ms (da_excursion al)) (al_value_milli (da_excursion al)))
      else []) @
     (if al_active (da_offline al) then line_bytes (offline_line sid (al_timestamp_ms (da_offline al))) else []))"

lemma replay_delivers:
  assumes "mod_succeeds os"
  shows "delivers (replay_alerts os a) (\<lambda>s. alert_bytes a) (\<lambda>s. s)"
proof -
  obtain sid al where a: "a = (sid, al)" by fastforce
  note d = alerts_deliver [OF assms] delivers_skip
  have "delivers (\<lambda>x. if b then f x else Inr x) (\<lambda>s. if b then l else []) (\<lambda>s. s)"
    if "delivers f (\<lambda>s. l) (\<lambda>s. s)" for b l and f :: "subscriber \<times> connection \<times> 'a \<Rightarrow> _"
    using that d(3) by (cases b) simp_all
  note d' = this [OF d(1)] this [OF d(2)]
  show ?thesis
    unfolding a replay_alerts_def alert_bytes_def prod.case by (rule delivers_then [OF d']) simp
qed

text \<open>Only the kernel, the subscribers and the connections change.\<close>

definition hub_same :: "('k, 'cb, 'tcb, 'z) hub_scheme \<Rightarrow> ('k, 'cb, 'tcb, 'z) hub_scheme \<Rightarrow> bool" where
  "hub_same w w' \<longleftrightarrow> (\<exists>S C k. w' = w\<lparr>hub_subs := S, hub_conns := C, el_kernel := k\<rparr>)"

lemma hub_same_refl [simp]: "hub_same w w"
  unfolding hub_same_def by (rule exI [of _ "hub_subs w"], rule exI [of _ "hub_conns w"], rule exI [of _ "el_kernel w"]) simp

lemma hub_same_trans: "hub_same w w1 \<Longrightarrow> hub_same w1 w2 \<Longrightarrow> hub_same w w2"
  unfolding hub_same_def by fastforce

lemma hub_same_store: "hub_same w w' \<Longrightarrow> hub_store w' = hub_store w"
  unfolding hub_same_def by auto

definition delivered where
  "delivered out upd ps w w' \<longleftrightarrow> hub_same w w' \<and>
     (\<forall>p. hub_subs w' p = map_option (if p \<in> set ps then upd else id) (hub_subs w p)) \<and>
     (\<forall>p. rel_option conn_same (hub_conns w p) (hub_conns w' p)) \<and>
     (\<forall>p. p \<notin> set ps \<longrightarrow> hub_conns w' p = hub_conns w p) \<and>
     (\<forall>p \<in> set ps. \<forall>s. hub_subs w p = Some s \<longrightarrow> outbuf w' p = outbuf w p @ out s)"

lemma conn_same_refl [simp]: "conn_same c c"
  by (simp add: conn_same_def)

lemma conn_same_trans: "conn_same a b \<Longrightarrow> conn_same b c \<Longrightarrow> conn_same a c"
  by (simp add: conn_same_def)

lemma with_sub_delivered:
  assumes "delivers f out upd" "hub_subs w p \<noteq> None" "hub_conns w p \<noteq> None"
  shows "\<exists>w'. with_sub p f w = Inr w' \<and> delivered out upd [p] w w'"
proof -
  obtain s c where sc: "hub_subs w p = Some s" "hub_conns w p = Some c" using assms(2,3) by auto
  obtain c' k' where f: "f (s, c, el_kernel w) = Inr (upd s, c', k')" "conn_same c c'"
    "cn_write_buffer c' = cn_write_buffer c @ out s"
    using assms(1) unfolding delivers_def by blast
  let ?w = "w\<lparr>hub_subs := (hub_subs w)(p \<mapsto> upd s), hub_conns := (hub_conns w)(p \<mapsto> c'), el_kernel := k'\<rparr>"
  have "with_sub p f w = Inr ?w" using sc f(1) by (simp add: with_sub_def)
  moreover have "hub_same w ?w" unfolding hub_same_def by blast
  then have "delivered out upd [p] w ?w"
    using sc f(2,3) by (auto simp: delivered_def outbuf_def option.rel_refl option.map_id)
  ultimately show ?thesis by blast
qed

lemma delivered_alive:
  "delivered out upd ps w w' \<Longrightarrow> (hub_subs w' p \<noteq> None \<longleftrightarrow> hub_subs w p \<noteq> None) \<and>
     (hub_conns w' p \<noteq> None \<longleftrightarrow> hub_conns w p \<noteq> None)"
  unfolding delivered_def by (metis option.map_disc_iff option.rel_distinct(1,2) option.exhaust)

lemma rel_option_conn_trans:
  "rel_option conn_same a b \<Longrightarrow> rel_option conn_same b c \<Longrightarrow> rel_option conn_same a c"
  by (cases a; cases b; cases c) (auto intro: conn_same_trans)

lemma delivered_Cons:
  assumes "delivered out upd [p] w w1" "delivered out upd ps w1 w2" "p \<notin> set ps"
  shows "delivered out upd (p # ps) w w2"
proof -
  have s1: "hub_subs w1 q = map_option (if q = p then upd else id) (hub_subs w q)" for q
    using assms(1) by (auto simp: delivered_def)
  have "hub_subs w2 q = map_option (if q \<in> set (p # ps) then upd else id) (hub_subs w q)" for q
    using assms(2,3) s1 [of q] by (auto simp: delivered_def option.map_id)
  moreover have "outbuf w2 q = outbuf w q @ out s" if "q \<in> set (p # ps)" "hub_subs w q = Some s" for q s
  proof (cases "q = p")
    case True
    then have "outbuf w2 q = outbuf w1 q" using assms(2,3) by (simp add: delivered_def outbuf_def)
    then show ?thesis using assms(1) True that(2) by (simp add: delivered_def)
  next
    case False
    then have "outbuf w1 q = outbuf w q" using assms(1) by (simp add: delivered_def outbuf_def)
    then show ?thesis using assms(2) False that s1 [of q] by (simp add: delivered_def)
  qed
  moreover have "hub_same w w2" using assms(1,2) hub_same_trans by (auto simp: delivered_def)
  moreover have "rel_option conn_same (hub_conns w q) (hub_conns w2 q)" for q
    using assms(1,2) rel_option_conn_trans unfolding delivered_def by blast
  ultimately show ?thesis using assms(1,2) unfolding delivered_def by auto
qed

lemma fold_with_sub_delivered:
  assumes "delivers f out upd"
  shows "distinct ps \<Longrightarrow> \<forall>p \<in> set ps. hub_subs w p \<noteq> None \<and> hub_conns w p \<noteq> None \<Longrightarrow>
     \<exists>w'. fold_res (\<lambda>p. with_sub p f) ps w = Inr w' \<and> delivered out upd ps w w'"
proof (induction ps arbitrary: w)
  case Nil
  then show ?case by (auto simp: delivered_def option.map_id rel_option_reflI)
next
  case (Cons p ps)
  then obtain w1 where w1: "with_sub p f w = Inr w1" "delivered out upd [p] w w1"
    using with_sub_delivered [OF assms, of w p] by auto
  have "\<forall>q \<in> set ps. hub_subs w1 q \<noteq> None \<and> hub_conns w1 q \<noteq> None"
    using Cons.prems(2) delivered_alive [OF w1(2)] by simp
  then obtain w2 where "fold_res (\<lambda>p. with_sub p f) ps w1 = Inr w2" "delivered out upd ps w1 w2"
    using Cons.IH [of w1] Cons.prems(1) by auto
  then show ?case using w1 delivered_Cons Cons.prems(1) by fastforce
qed

lemma fan_out_delivered:
  "delivers f out upd \<Longrightarrow> subs_ok w \<Longrightarrow>
   \<exists>w'. fan_out f w = Inr w' \<and> delivered out upd (st_subscribers (hub_store w)) w w'"
  unfolding fan_out_def subs_ok_def by (intro fold_with_sub_delivered) auto

lemma delivered_store: "delivered out upd ps w w' \<Longrightarrow> hub_store w' = hub_store w"
  by (simp add: delivered_def hub_same_store)

lemma delivered_subs_ok: "delivered out upd ps w w' \<Longrightarrow> subs_ok w' \<longleftrightarrow> subs_ok w"
  using delivered_store delivered_alive by (fastforce simp: subs_ok_def)

lemma delivered_metric:
  "delivered out upd ps w w' \<Longrightarrow> (\<And>s. sub_metric (upd s) = sub_metric s) \<Longrightarrow>
   map_option sub_metric (hub_subs w' p) = map_option sub_metric (hub_subs w p)"
  unfolding delivered_def by (cases "hub_subs w p") auto

lemma with_sub_same: "with_sub p f w = Inr w' \<Longrightarrow> hub_same w w'"
  by (auto simp: with_sub_def and_then_Inr hub_same_def split: option.splits)

lemma fan_out_same: "fan_out f w = Inr w' \<Longrightarrow> hub_same w w'"
  unfolding fan_out_def
  by (erule fold_res_invariant) (auto intro: hub_same_trans with_sub_same)

lemma hub_same_history [simp]: "hub_same w w' \<Longrightarrow> hub_store w' = hub_store w"
  by (rule hub_same_store)

text \<open>A new reading with these values opens an excursion.\<close>

definition opens_excursion :: "u16 \<Rightarrow> u8 \<Rightarrow> i32 \<Rightarrow> store \<Rightarrow> bool" where
  "opens_excursion sid mid average st \<longleftrightarrow>
     mid = kTempMetricId \<and> kHighThresholdMilli < average \<and> \<not> al_active (excursion_alert st sid)"

definition new_excursion :: "i32 \<Rightarrow> u32 \<Rightarrow> time_point \<Rightarrow> alert_state" where
  "new_excursion average ts now =
     \<lparr>al_active = True, al_value_milli = average, al_timestamp_ms = ts, al_triggered_at = now\<rparr>"

lemma record_sample_frame:
  "record_sample sid mid v ts st = Inr (a, st') \<Longrightarrow>
   st_alerts st' = st_alerts st \<and> st_subscribers st' = st_subscribers st"
  using record_sample_Inr by fastforce

lemma store_record_cases:
  "store_record os sid mid v ts now w =
     and_then (record_sample sid mid v ts (hub_store w)) (\<lambda>(average, st).
     and_then (fan_out (publish os (metric_name mid) sid v ts) (w\<lparr>hub_store := st\<rparr>)) (\<lambda>w1.
       if opens_excursion sid mid average (hub_store w1)
       then fan_out (publish_excursion_alert os sid average ts)
         (w1\<lparr>hub_store := set_alerts sid ((alerts_at (hub_store w1) sid)\<lparr>da_excursion :=
            new_excursion average ts now\<rparr>) (hub_store w1)\<rparr>)
       else Inr w1))"
proof -
  have "(\<lambda>(average, st).
     and_then (fan_out (publish os (metric_name mid) sid v ts) (w\<lparr>hub_store := st\<rparr>)) (\<lambda>w.
       if mid \<noteq> kTempMetricId \<or> average \<le> kHighThresholdMilli then Inr w
       else
         let alerts = alerts_at (hub_store w) sid in
         if al_active (da_excursion alerts) then Inr w
         else
           let a = \<lparr>al_active = True, al_value_milli = average, al_timestamp_ms = ts, al_triggered_at = now\<rparr>
           in notify_excursion os sid a
                (w\<lparr>hub_store := set_alerts sid (alerts\<lparr>da_excursion := a\<rparr>) (hub_store w)\<rparr>))) =
    (\<lambda>(average, st).
     and_then (fan_out (publish os (metric_name mid) sid v ts) (w\<lparr>hub_store := st\<rparr>)) (\<lambda>w1.
       if opens_excursion sid mid average (hub_store w1)
       then fan_out (publish_excursion_alert os sid average ts)
         (w1\<lparr>hub_store := set_alerts sid ((alerts_at (hub_store w1) sid)\<lparr>da_excursion :=
            new_excursion average ts now\<rparr>) (hub_store w1)\<rparr>)
       else Inr w1))"
    by (intro ext) (auto simp: opens_excursion_def notify_excursion_def new_excursion_def alert_lookup
        Let_def split: prod.split intro!: arg_cong [of _ _ "and_then _"])
  then show ?thesis by (simp only: store_record_def)
qed

text \<open>What a successful \<open>record\<close> leaves in the store.\<close>

definition recorded_store :: "u16 \<Rightarrow> u8 \<Rightarrow> i32 \<Rightarrow> u32 \<Rightarrow> time_point \<Rightarrow> store \<Rightarrow> store" where
  "recorded_store sid mid average ts now st =
     (if opens_excursion sid mid average st
      then set_alerts sid ((alerts_at st sid)\<lparr>da_excursion := new_excursion average ts now\<rparr>) st
      else st)"

lemma store_record_store:
  assumes "store_record os sid mid v ts now w = Inr w'"
  shows "\<exists>average st. record_sample sid mid v ts (hub_store w) = Inr (average, st) \<and>
     hub_store w' = recorded_store sid mid average ts now st"
proof -
  obtain average st w1 where 1: "record_sample sid mid v ts (hub_store w) = Inr (average, st)"
    "fan_out (publish os (metric_name mid) sid v ts) (w\<lparr>hub_store := st\<rparr>) = Inr w1"
    and 2: "(if opens_excursion sid mid average (hub_store w1)
       then fan_out (publish_excursion_alert os sid average ts)
         (w1\<lparr>hub_store := set_alerts sid ((alerts_at (hub_store w1) sid)\<lparr>da_excursion :=
            new_excursion average ts now\<rparr>) (hub_store w1)\<rparr>)
       else Inr w1) = Inr w'"
    using assms unfolding store_record_cases by (auto simp: and_then_Inr)
  have "hub_store w1 = st" using fan_out_same [OF 1(2)] by simp
  then show ?thesis
    using 1(1) 2 by (auto simp: recorded_store_def dest!: fan_out_same split: if_splits)
qed

lemma recorded_store_alerts:
  "alerts_at (recorded_store sid mid average ts now st) s =
     (if s = sid \<and> opens_excursion sid mid average st
      then (alerts_at st s)\<lparr>da_excursion := new_excursion average ts now\<rparr> else alerts_at st s)"
  by (simp add: recorded_store_def)

lemma recorded_store_history [simp]:
  "st_history (recorded_store sid mid average ts now st) = st_history st"
  "st_subscribers (recorded_store sid mid average ts now st) = st_subscribers st"
  by (simp_all add: recorded_store_def)

lemma alerts_at_cong: "st_alerts st = st_alerts st' \<Longrightarrow> alerts_at st = alerts_at st'"
  by (simp add: alerts_at_def fun_eq_iff)

lemma opens_excursion_cong:
  "st_alerts st = st_alerts st' \<Longrightarrow> opens_excursion sid mid a st = opens_excursion sid mid a st'"
  using alerts_at_cong [of st st'] by (simp add: opens_excursion_def alert_lookup)

lemma latch_offline_store:
  assumes "latch_offline os sid ts now w = Inr w'"
  shows "hub_store w' =
     (if al_active (offline_alert (hub_store w) sid) then hub_store w
      else set_alerts sid ((alerts_at (hub_store w) sid)\<lparr>da_offline :=
        \<lparr>al_active = True, al_value_milli = 0, al_timestamp_ms = ts, al_triggered_at = now\<rparr>\<rparr>) (hub_store w))"
  using assms
  by (auto simp: latch_offline_def notify_offline_def Let_def alert_lookup dest!: fan_out_same split: if_splits)

subsection \<open>What the store leaves alone\<close>

text \<open>No operation of the store opens, closes or replaces a connection or a subscriber, touches what
  was received, or changes the event loop: the frame every caller relies on.\<close>

definition keeps :: "('k, 'cb, 'tcb, 'z) hub_scheme \<Rightarrow> ('k, 'cb, 'tcb, 'z) hub_scheme \<Rightarrow> bool" where
  "keeps w w' \<longleftrightarrow> (\<forall>p. rel_option conn_same (hub_conns w p) (hub_conns w' p)) \<and>
     (\<forall>p. hub_subs w' p = None \<longleftrightarrow> hub_subs w p = None) \<and>
     st_subscribers (hub_store w') = st_subscribers (hub_store w) \<and>
     el_callbacks w' = el_callbacks w \<and> el_timers w' = el_timers w \<and> el_running w' = el_running w \<and>
     hub.more w' = hub.more w"

lemma keeps_refl [simp]: "keeps w w"
  by (simp add: keeps_def rel_option_reflI)

lemma keeps_trans: "keeps w w1 \<Longrightarrow> keeps w1 w2 \<Longrightarrow> keeps w w2"
  by (auto simp: keeps_def intro: rel_option_conn_trans)

lemma keeps_store: "st_subscribers st = st_subscribers (hub_store w) \<Longrightarrow> keeps w (w\<lparr>hub_store := st\<rparr>)"
  by (simp add: keeps_def rel_option_reflI)

lemma keeps_subs_ok: "keeps w w' \<Longrightarrow> subs_ok w \<Longrightarrow> subs_ok w'"
  unfolding keeps_def subs_ok_def by (metis option.rel_distinct(2) option.exhaust)

lemma keeps_kernel [simp]: "keeps w (w\<lparr>el_kernel := k\<rparr>)"
  by (simp add: keeps_def rel_option_reflI)

lemma keeps_conn:
  "keeps w w' \<Longrightarrow> hub_conns w p = Some c \<Longrightarrow> \<exists>c'. hub_conns w' p = Some c' \<and> conn_same c c'"
  unfolding keeps_def by (metis option_rel_Some1)

text \<open>An operation on a subscriber that leaves its connection's identity and input alone.\<close>

definition sends_only where
  "sends_only f \<longleftrightarrow> (\<forall>s c k s' c' k'. f (s, c, k) = Inr (s', c', k') \<longrightarrow> conn_same c c')"

lemma send_line_same: "send_line os l c k = Inr (c', k') \<Longrightarrow> conn_same c c'"
  by (auto simp: send_line_def enqueue_write_Inr conn_same_def)

lemma publish_sends_only:
  "sends_only (publish os m sid v ts)" "sends_only (publish_excursion_alert os sid v ts)"
  "sends_only (publish_offline_alert os sid ts)"
  by (auto simp: sends_only_def publish_def publish_excursion_alert_def publish_offline_alert_def
      and_then_Inr dest: send_line_same)

lemma replay_sends_only: "sends_only (replay_alerts os a)"
  by (cases a) (auto simp: sends_only_def replay_alerts_def and_then_Inr
      dest!: publish_sends_only [unfolded sends_only_def, rule_format]
      intro: conn_same_trans split: if_splits)

lemma with_sub_keeps:
  assumes "sends_only f" "with_sub p f w = Inr w'"
  shows "keeps w w'"
proof -
  obtain s c s' c' k' where "hub_subs w p = Some s" "hub_conns w p = Some c"
    "f (s, c, el_kernel w) = Inr (s', c', k')"
    "w' = w\<lparr>hub_subs := (hub_subs w)(p \<mapsto> s'), hub_conns := (hub_conns w)(p \<mapsto> c'), el_kernel := k'\<rparr>"
    using assms(2) by (auto simp: with_sub_def and_then_Inr split: option.splits)
  moreover from this have "conn_same c c'" using assms(1) unfolding sends_only_def by blast
  ultimately show ?thesis by (simp add: keeps_def rel_option_reflI)
qed

lemma fan_out_keeps: "sends_only f \<Longrightarrow> fan_out f w = Inr w' \<Longrightarrow> keeps w w'"
  unfolding fan_out_def
  by (erule fold_res_invariant) (auto intro: keeps_trans with_sub_keeps)

lemma fan_out_store_keeps:
  "sends_only f \<Longrightarrow> fan_out f (w\<lparr>hub_store := st\<rparr>) = Inr w' \<Longrightarrow>
   st_subscribers st = st_subscribers (hub_store w) \<Longrightarrow> keeps w w'"
  by (blast intro: keeps_trans keeps_store fan_out_keeps)

lemma store_record_keeps:
  assumes "store_record os sid mid v ts now w = Inr w'"
  shows "keeps w w'"
proof -
  obtain average st w1 where 1: "record_sample sid mid v ts (hub_store w) = Inr (average, st)"
    "fan_out (publish os (metric_name mid) sid v ts) (w\<lparr>hub_store := st\<rparr>) = Inr w1"
    and 2: "(if opens_excursion sid mid average (hub_store w1)
       then fan_out (publish_excursion_alert os sid average ts)
         (w1\<lparr>hub_store := set_alerts sid ((alerts_at (hub_store w1) sid)\<lparr>da_excursion :=
            new_excursion average ts now\<rparr>) (hub_store w1)\<rparr>)
       else Inr w1) = Inr w'"
    using assms unfolding store_record_cases by (auto simp: and_then_Inr)
  have "keeps w w1"
    using fan_out_store_keeps [OF publish_sends_only(1) 1(2)] record_sample_frame [OF 1(1)] by simp
  moreover have "keeps w1 w'"
  proof (cases "opens_excursion sid mid average (hub_store w1)")
    case True
    from 2 [unfolded if_P [OF True]] show ?thesis
      by (rule fan_out_store_keeps [OF publish_sends_only(2)]) simp
  qed (use 2 in simp)
  ultimately show ?thesis by (rule keeps_trans)
qed

lemma latch_offline_keeps:
  assumes "latch_offline os sid ts now w = Inr w'"
  shows "keeps w w'"
proof (cases "al_active (da_offline (alerts_at (hub_store w) sid))")
  case True
  then show ?thesis using assms by (simp add: latch_offline_def)
next
  case False
  from assms [unfolded latch_offline_def Let_def notify_offline_def if_not_P [OF False]] show ?thesis
    by (rule fan_out_store_keeps [OF publish_sends_only(3)]) simp
qed

lemma store_record_delivers:
  assumes "subs_ok w" "mod_succeeds os" "record_sample sid mid v ts (hub_store w) = Inr (average, st)"
  defines "opens \<equiv> opens_excursion sid mid average st"
  shows "\<exists>w'. store_record os sid mid v ts now w = Inr w' \<and> subs_ok w' \<and>
     hub_store w' = recorded_store sid mid average ts now st \<and>
     (\<forall>p s. p \<in> set (st_subscribers (hub_store w)) \<longrightarrow> hub_subs w p = Some s \<longrightarrow>
        outbuf w' p = outbuf w p @
          (if metric_name mid = sub_metric s then line_bytes (sample_line (metric_name mid) sid ts v) else []) @
          (if opens then line_bytes (excursion_line sid ts average) else [])) \<and>
     (\<forall>p. p \<notin> set (st_subscribers (hub_store w)) \<longrightarrow> hub_conns w' p = hub_conns w p) \<and>
     (\<forall>p. map_option sub_metric (hub_subs w' p) = map_option sub_metric (hub_subs w p))"
proof -
  let ?ps = "st_subscribers (hub_store w)"
  have st: "st_subscribers st = ?ps" using record_sample_frame [OF assms(3)] by simp
  have ok0: "subs_ok (w\<lparr>hub_store := st\<rparr>)" using assms(1) st by (simp add: subs_ok_def)
  obtain w1 where w1: "fan_out (publish os (metric_name mid) sid v ts) (w\<lparr>hub_store := st\<rparr>) = Inr w1"
    "delivered (\<lambda>s. if metric_name mid = sub_metric s then line_bytes (sample_line (metric_name mid) sid ts v) else [])
       (\<lambda>s. if metric_name mid = sub_metric s then s\<lparr>sub_updates_sent := sub_updates_sent s + 1\<rparr> else s)
       ?ps (w\<lparr>hub_store := st\<rparr>) w1"
    using fan_out_delivered [OF publish_delivers [OF assms(2), of "metric_name mid" sid v ts] ok0] st by auto
  have st1: "hub_store w1 = st" using delivered_store [OF w1(2)] by simp
  have ok1: "subs_ok w1" using delivered_subs_ok [OF w1(2)] ok0 by simp
  have metric1: "map_option sub_metric (hub_subs w1 p) = map_option sub_metric (hub_subs w p)" for p
    using delivered_metric [OF w1(2)] by simp
  show ?thesis
  proof (cases opens)
    case False
    then have "store_record os sid mid v ts now w = Inr w1"
      using assms(3) w1(1) st1 by (simp add: store_record_cases opens_def)
    then show ?thesis
      using False ok1 st1 w1(2) metric1 by (auto simp: recorded_store_def delivered_def opens_def outbuf_def)
  next
    case True
    let ?st = "set_alerts sid ((alerts_at st sid)\<lparr>da_excursion := new_excursion average ts now\<rparr>) st"
    have ok2: "subs_ok (w1\<lparr>hub_store := ?st\<rparr>)" using ok1 st1 by (simp add: subs_ok_def)
    obtain w2 where w2: "fan_out (publish_excursion_alert os sid average ts) (w1\<lparr>hub_store := ?st\<rparr>) = Inr w2"
      "delivered (\<lambda>s. line_bytes (excursion_line sid ts average)) (\<lambda>s. s) ?ps (w1\<lparr>hub_store := ?st\<rparr>) w2"
      using fan_out_delivered [OF alerts_deliver(1) [OF assms(2), of sid average ts] ok2] st by auto
    have "store_record os sid mid v ts now w = Inr w2"
      using assms(3) w1(1) st1 w2(1) True by (simp add: store_record_cases opens_def)
    moreover have "hub_store w2 = recorded_store sid mid average ts now st"
      using delivered_store [OF w2(2)] True by (simp add: recorded_store_def opens_def)
    moreover have "subs_ok w2" using delivered_subs_ok [OF w2(2)] ok2 by simp
    moreover have "outbuf w2 p = outbuf w p @
        (if metric_name mid = sub_metric s then line_bytes (sample_line (metric_name mid) sid ts v) else []) @
        line_bytes (excursion_line sid ts average)" if "p \<in> set ?ps" "hub_subs w p = Some s" for p s
      using that w1(2) w2(2) by (auto simp: delivered_def outbuf_def)
    moreover have "hub_conns w2 p = hub_conns w p" if "p \<notin> set ?ps" for p
      using that w1(2) w2(2) by (simp add: delivered_def)
    moreover have "map_option sub_metric (hub_subs w2 p) = map_option sub_metric (hub_subs w p)" for p
      using delivered_metric [OF w2(2), of p] metric1 [of p] by simp
    ultimately show ?thesis using True by auto
  qed
qed

lemma add_subscriber_loop:
  assumes "mod_succeeds os"
  shows "hub_subs w p \<noteq> None \<Longrightarrow> hub_conns w p \<noteq> None \<Longrightarrow>
     \<exists>w'. fold_res (\<lambda>a. with_sub p (replay_alerts os a)) as w = Inr w' \<and> hub_same w w' \<and>
       outbuf w' p = outbuf w p @ concat (map alert_bytes as) \<and>
       (\<forall>q. (hub_subs w' q \<noteq> None \<longleftrightarrow> hub_subs w q \<noteq> None) \<and> (hub_conns w' q \<noteq> None \<longleftrightarrow> hub_conns w q \<noteq> None)) \<and>
       (\<forall>q. q \<noteq> p \<longrightarrow> hub_conns w' q = hub_conns w q)"
proof (induction "as" arbitrary: w)
  case (Cons a "as")
  obtain w1 where w1: "with_sub p (replay_alerts os a) w = Inr w1"
    "delivered (\<lambda>s. alert_bytes a) (\<lambda>s. s) [p] w w1"
    using with_sub_delivered [OF replay_delivers [OF assms] Cons.prems] by blast
  note alive = delivered_alive [OF w1(2)]
  obtain w2 where w2: "fold_res (\<lambda>a. with_sub p (replay_alerts os a)) as w1 = Inr w2" "hub_same w1 w2"
    "outbuf w2 p = outbuf w1 p @ concat (map alert_bytes as)"
    "\<forall>q. (hub_subs w2 q \<noteq> None \<longleftrightarrow> hub_subs w1 q \<noteq> None) \<and> (hub_conns w2 q \<noteq> None \<longleftrightarrow> hub_conns w1 q \<noteq> None)"
    "\<forall>q. q \<noteq> p \<longrightarrow> hub_conns w2 q = hub_conns w1 q"
    using Cons.IH [of w1] Cons.prems alive by blast
  have "outbuf w1 p = outbuf w p @ alert_bytes a" "hub_same w w1"
    using w1(2) Cons.prems(1) by (auto simp: delivered_def)
  moreover have "\<forall>q. q \<noteq> p \<longrightarrow> hub_conns w1 q = hub_conns w q" using w1(2) by (simp add: delivered_def)
  ultimately show ?case using w1(1) w2 alive hub_same_trans [of w w1 w2] by auto
qed simp

subsection \<open>Properties\<close>

text \<open>C10: every reading reaches exactly the subscribers of its metric, and every new excursion reaches
  all subscribers. When the store's pointers are live and registration updates succeed, \<open>record\<close>
  returns unless the average overflows; each subscriber's outgoing bytes grow by the reading's line
  if it is subscribed to that metric, followed by the alert line if the reading opened an excursion;
  no other connection's bytes change.\<close>

theorem record_fans_out:
  assumes "subs_ok w" and "mod_succeeds os"
    and "record_sample sid mid v ts (hub_store w) = Inr (average, st)"
  shows "\<exists>w'. store_record os sid mid v ts now w = Inr w' \<and> subs_ok w' \<and>
     (\<forall>p s. p \<in> set (st_subscribers (hub_store w)) \<longrightarrow> hub_subs w p = Some s \<longrightarrow>
        outbuf w' p = outbuf w p @
          (if metric_name mid = sub_metric s then line_bytes (sample_line (metric_name mid) sid ts v) else []) @
          (if mid = 0 \<and> 5500 < average \<and> \<not> al_active (excursion_alert (hub_store w) sid)
           then line_bytes (excursion_line sid ts average) else [])) \<and>
     (\<forall>p. p \<notin> set (st_subscribers (hub_store w)) \<longrightarrow> hub_conns w' p = hub_conns w p)"
proof -
  have "opens_excursion sid mid average st \<longleftrightarrow>
      mid = 0 \<and> 5500 < average \<and> \<not> al_active (excursion_alert (hub_store w) sid)"
    using record_sample_frame [OF assms(3)] opens_excursion_cong [of st "hub_store w"]
    by (simp add: opens_excursion_def kTempMetricId_def kHighThresholdMilli_def)
  then show ?thesis using store_record_delivers [OF assms, of now] by auto
qed

definition one_subscriber_hub :: "(int, unit, unit) hub" where
  "one_subscriber_hub =
     \<lparr>el_kernel = 0, el_running = True, el_callbacks = Map.empty, el_timers = [],
      hub_conns = [7 \<mapsto> new_connection 7], hub_subs = [7 \<mapsto> \<lparr>sub_metric = ''temp'', sub_updates_sent = 0\<rparr>],
      hub_store = empty_store\<lparr>st_subscribers := [7]\<rparr>\<rparr>"

lemma quiet_mod_succeeds: "mod_succeeds quiet_os"
  by (simp add: mod_succeeds_def quiet_os_def)

lemma one_subscriber_ok: "subs_ok one_subscriber_hub"
  by (simp add: subs_ok_def one_subscriber_hub_def)

lemma first_reading:
  "st_history st (make_key sid mid) = None \<Longrightarrow> \<exists>st'. record_sample sid mid v ts st = Inr (v, st')"
  by (simp add: record_sample_def update_average_def push_sample_def empty_history_def Let_def)

theorem record_fans_out_witness:
  "\<exists>w'. store_record quiet_os 5 0 6000 10 99 one_subscriber_hub = Inr w' \<and>
     outbuf w' 7 = line_bytes (sample_line ''temp'' 5 10 6000) @ line_bytes (excursion_line 5 10 6000)"
proof -
  obtain st' where "record_sample 5 0 6000 10 (hub_store one_subscriber_hub) = Inr (6000, st')"
    using first_reading [of "hub_store one_subscriber_hub" 5 0 6000 10]
    by (auto simp: one_subscriber_hub_def empty_store_def)
  from record_fans_out [OF one_subscriber_ok quiet_mod_succeeds this, of 99] show ?thesis
    by (auto simp: one_subscriber_hub_def outbuf_def new_connection_def metric_name_def
        excursion_alert_def no_alert_def empty_store_def)
qed

text \<open>C9: alerts are latched. Whatever is recorded and whichever device goes offline, an alert of
  either kind that is active stays exactly as it was, trigger time included, for every device: only
  \<open>ack\<close> can change it.\<close>

theorem alerts_latched:
  assumes "store_record os sid mid v ts now w = Inr w' \<or> latch_offline os sid ts now w = Inr w'"
  shows "(al_active (excursion_alert (hub_store w) s) \<longrightarrow>
       excursion_alert (hub_store w') s = excursion_alert (hub_store w) s) \<and>
     (al_active (offline_alert (hub_store w) s) \<longrightarrow>
       offline_alert (hub_store w') s = offline_alert (hub_store w) s)"
  using assms
proof
  assume "store_record os sid mid v ts now w = Inr w'"
  then obtain average st where st: "record_sample sid mid v ts (hub_store w) = Inr (average, st)"
    "hub_store w' = recorded_store sid mid average ts now st"
    using store_record_store by blast
  then have "alerts_at st = alerts_at (hub_store w)"
    using record_sample_frame alerts_at_cong by blast
  then show ?thesis
    using st(2) by (auto simp: alert_lookup recorded_store_alerts opens_excursion_def)
next
  assume "latch_offline os sid ts now w = Inr w'"
  from latch_offline_store [OF this] show ?thesis by (simp add: alert_lookup)
qed

theorem alerts_latched_witness:
  "let w = one_subscriber_hub\<lparr>hub_store := (empty_store\<lparr>st_alerts := [(5, no_alerts\<lparr>da_offline :=
        no_alert\<lparr>al_active := True, al_triggered_at := 3\<rparr>\<rparr>)]\<rparr>)\<rparr> in
   latch_offline quiet_os 5 77 99 w = Inr w \<and> al_triggered_at (offline_alert (hub_store w) 5) = 3"
proof -
  let ?w = "one_subscriber_hub\<lparr>hub_store := (empty_store\<lparr>st_alerts := [(5, no_alerts\<lparr>da_offline :=
        no_alert\<lparr>al_active := True, al_triggered_at := 3\<rparr>\<rparr>)]\<rparr>)\<rparr>"
  have "latch_offline quiet_os 5 77 99 ?w = Inr ?w"
    by (simp add: latch_offline_def alerts_at_def Let_def)
  then show ?thesis
    using alerts_latched [of quiet_os 5 _ _ 77 99 ?w ?w 5] by (simp add: offline_alert_def)
qed

text \<open>C18: the history is the last 64 readings. After any sequence of successful \<open>record\<close> calls, for any
  mix of devices and metrics, starting from an empty store, \<open>history\<close> returns for each device and
  metric exactly its last 64 readings (or all of them, when fewer), oldest first.\<close>

theorem history_last_64:
  assumes "fold_res (\<lambda>(sid, mid, v, ts). store_record os sid mid v ts (now ts)) rs w = Inr w'"
    and "st_history (hub_store w) = Map.empty"
  shows "store_history (hub_store w') sid mid = last64 (samples_for sid mid rs)"
proof -
  have "history_is (hub_store w) []" using assms(2) by (simp add: history_is_def samples_for_def)
  then have "history_is (hub_store w') ([] @ rs)"
    using assms(1)
  proof (induction rs arbitrary: w w' rule: rev_induct)
    case (snoc r rs)
    obtain s m v t where r: "r = (s, m, v, t)" by (cases r) auto
    obtain w1 where w1: "fold_res (\<lambda>(sid, mid, v, ts). store_record os sid mid v ts (now ts)) rs w = Inr w1"
      "store_record os s m v t (now t) w1 = Inr w'"
      using snoc.prems(2) r by (auto simp: fold_res_append and_then_Inr)
    have "history_is (hub_store w1) rs" using snoc.IH [OF snoc.prems(1) w1(1)] by simp
    moreover obtain a st where st: "record_sample s m v t (hub_store w1) = Inr (a, st)"
      "hub_store w' = recorded_store s m a t (now t) st"
      using store_record_store [OF w1(2)] by blast
    ultimately have "history_is st (rs @ [(s, m, v, t)])" by (blast intro: history_is_record)
    then show ?case using st(2) r by (simp add: history_is_def)
  qed simp
  then show ?thesis by (simp add: history_is_lookup)
qed

theorem history_last_64_witness:
  "\<exists>w'. store_record quiet_os 5 0 6000 10 10 one_subscriber_hub = Inr w' \<and>
     store_history (hub_store w') 5 0 = [\<lparr>sm_timestamp_ms = 10, sm_value_milli = 6000\<rparr>]"
proof -
  obtain st' where "record_sample 5 0 6000 10 (hub_store one_subscriber_hub) = Inr (6000, st')"
    using first_reading [of "hub_store one_subscriber_hub" 5 0 6000 10]
    by (auto simp: one_subscriber_hub_def empty_store_def)
  then obtain w' where w': "store_record quiet_os 5 0 6000 10 10 one_subscriber_hub = Inr w'"
    using store_record_delivers [OF one_subscriber_ok quiet_mod_succeeds] by blast
  then show ?thesis
    using history_last_64 [of quiet_os uint "[(5, 0, 6000, 10)]" one_subscriber_hub w' 5 0]
    by (simp add: one_subscriber_hub_def empty_store_def samples_for_def last64_def)
qed

text \<open>C28: a late subscriber learns of every open alert. Registering a live subscriber appends it to
  the fan-out list and sends it, and nobody else, the line of each alert that is active at that
  moment, so an alert latched before it connected is not missed.\<close>

theorem late_subscriber_replay:
  assumes "subs_ok w" and "mod_succeeds os" and "p \<notin> set (st_subscribers (hub_store w))"
    and "hub_subs w p \<noteq> None" and "hub_conns w p \<noteq> None"
  shows "\<exists>w'. add_subscriber os p w = Inr w' \<and> subs_ok w' \<and>
     st_subscribers (hub_store w') = st_subscribers (hub_store w) @ [p] \<and>
     st_alerts (hub_store w') = st_alerts (hub_store w) \<and>
     outbuf w' p = outbuf w p @ concat (map alert_bytes (st_alerts (hub_store w))) \<and>
     (\<forall>q. q \<noteq> p \<longrightarrow> hub_conns w' q = hub_conns w q)"
proof -
  let ?w = "w\<lparr>hub_store := (hub_store w)\<lparr>st_subscribers := st_subscribers (hub_store w) @ [p]\<rparr>\<rparr>"
  obtain w' where w': "fold_res (\<lambda>a. with_sub p (replay_alerts os a)) (st_alerts (hub_store w)) ?w = Inr w'"
    "hub_same ?w w'" "outbuf w' p = outbuf ?w p @ concat (map alert_bytes (st_alerts (hub_store w)))"
    "\<forall>q. (hub_subs w' q \<noteq> None \<longleftrightarrow> hub_subs ?w q \<noteq> None) \<and> (hub_conns w' q \<noteq> None \<longleftrightarrow> hub_conns ?w q \<noteq> None)"
    "\<forall>q. q \<noteq> p \<longrightarrow> hub_conns w' q = hub_conns ?w q"
    using add_subscriber_loop [OF assms(2), of ?w p "st_alerts (hub_store w)"] assms(4,5) by auto
  have "add_subscriber os p w = Inr w'" using w'(1) by (simp add: add_subscriber_def Let_def)
  moreover have "hub_store w' = hub_store ?w" using w'(2) by simp
  moreover have "subs_ok w'" using assms w'(4) calculation(2) by (auto simp: subs_ok_def)
  ultimately show ?thesis using w'(3,5) by (auto simp: outbuf_def)
qed

theorem late_subscriber_replay_witness:
  "let w = one_subscriber_hub\<lparr>hub_store := empty_store\<lparr>st_alerts := [(5, no_alerts\<lparr>da_offline :=
        no_alert\<lparr>al_active := True, al_timestamp_ms := 3\<rparr>\<rparr>)]\<rparr>\<rparr> in
   \<exists>w'. add_subscriber quiet_os 7 w = Inr w' \<and> outbuf w' 7 = line_bytes (offline_line 5 3)"
proof -
  let ?w = "one_subscriber_hub\<lparr>hub_store := empty_store\<lparr>st_alerts := [(5, no_alerts\<lparr>da_offline :=
        no_alert\<lparr>al_active := True, al_timestamp_ms := 3\<rparr>\<rparr>)]\<rparr>\<rparr>"
  have "subs_ok ?w" by (simp add: subs_ok_def empty_store_def)
  from late_subscriber_replay [OF this quiet_mod_succeeds, of 7] show ?thesis
    by (auto simp: one_subscriber_hub_def empty_store_def outbuf_def new_connection_def alert_bytes_def
        no_alerts_def no_alert_def Let_def)
qed

end
