(* ===== verification/Cobs.thy ===== *)
theory Cobs
  imports Prelude
begin

section \<open>Consistent Overhead Byte Stuffing (proto/cobs.hpp)\<close>

text \<open>
  \<open>cobs_encode\<close> and \<open>cobs_decode\<close> work on caller-provided buffers through indices. A buffer is a
  list whose length is the size of the memory behind the pointer; the capacity the caller states
  is a separate argument, as in the code. The functions return the status, the number of bytes
  written and the buffer as it is left behind, on the error paths too.

  \<open>cobs_ref\<close> and \<open>cobs_dec_ref\<close> are the reference definitions on plain lists: what the encoding
  is, with no buffer. The index routines are shown to compute them.
\<close>

subsection \<open>Status and size bound\<close>

datatype CobsStatus = CobsOk | CobsOutputOverflow | CobsInvalidInput

record CobsResult =
  cobs_status :: CobsStatus
  cobs_size :: nat

definition cobs_encoded_max_size :: "nat \<Rightarrow> nat" where
  "cobs_encoded_max_size raw_size = raw_size + raw_size div 254 + 1"

abbreviation cobs_overflow :: CobsResult where
  "cobs_overflow \<equiv> \<lparr>cobs_status = CobsOutputOverflow, cobs_size = 0\<rparr>"

abbreviation cobs_invalid :: CobsResult where
  "cobs_invalid \<equiv> \<lparr>cobs_status = CobsInvalidInput, cobs_size = 0\<rparr>"

abbreviation cobs_ok :: "nat \<Rightarrow> CobsResult" where
  "cobs_ok n \<equiv> \<lparr>cobs_status = CobsOk, cobs_size = n\<rparr>"

subsection \<open>Encoder\<close>

text \<open>The loop over \<open>read\<close>: the local variables \<open>write\<close>, \<open>code_index\<close> and \<open>code\<close> and the
  destination buffer are its state.\<close>

function cobs_encode_loop ::
  "u8 list \<Rightarrow> nat \<Rightarrow> nat \<Rightarrow> nat \<Rightarrow> nat \<Rightarrow> nat \<Rightarrow> u8 \<Rightarrow> u8 list \<Rightarrow> CobsResult \<times> u8 list" where
  "cobs_encode_loop src src_size dst_capacity read write code_index code dst =
     (if read < src_size then
        let byte = src ! read in
        if byte \<noteq> 0 then
          if write \<ge> dst_capacity then (cobs_overflow, dst)
          else
            let dst = dst[write := byte]; write = write + 1; code = code + 1 in
            if code = 0xFF then
              let dst = dst[code_index := code] in
              if write \<ge> dst_capacity then (cobs_overflow, dst)
              else cobs_encode_loop src src_size dst_capacity (read + 1) (write + 1) write 1 dst
            else cobs_encode_loop src src_size dst_capacity (read + 1) write code_index code dst
        else
          let dst = dst[code_index := code] in
          if write \<ge> dst_capacity then (cobs_overflow, dst)
          else cobs_encode_loop src src_size dst_capacity (read + 1) (write + 1) write 1 dst
      else (cobs_ok write, dst[code_index := code]))"
  by pat_completeness auto
termination
  by (relation "measure (\<lambda>(src, src_size, cap, read, _). src_size - read)") auto

declare cobs_encode_loop.simps [simp del]

definition cobs_encode :: "u8 list \<Rightarrow> nat \<Rightarrow> u8 list \<Rightarrow> nat \<Rightarrow> CobsResult \<times> u8 list" where
  "cobs_encode src src_size dst dst_capacity =
     (if dst_capacity = 0 then (cobs_overflow, dst)
      else cobs_encode_loop src src_size dst_capacity 0 1 0 1 dst)"

subsection \<open>Decoder\<close>


text \<open>The inner \<open>for\<close> loop copies one block. \<open>Inl\<close> is a \<open>return\<close> out of the function, \<open>Inr\<close>
  leaves the loop with the new \<open>read\<close>, \<open>write\<close> and buffer.\<close>

function cobs_decode_block ::
  "u8 list \<Rightarrow> nat \<Rightarrow> nat \<Rightarrow> u8 \<Rightarrow> u8 \<Rightarrow> nat \<Rightarrow> nat \<Rightarrow> u8 list
     \<Rightarrow> (CobsResult \<times> u8 list) + (nat \<times> nat \<times> u8 list)" where
  "cobs_decode_block src src_size dst_capacity i code read write dst =
     (if i < code then
        if read \<ge> src_size then Inl (cobs_invalid, dst)
        else
          let byte = src ! read; read = read + 1 in
          if byte = 0 then Inl (cobs_invalid, dst)
          else if write \<ge> dst_capacity then Inl (cobs_overflow, dst)
          else cobs_decode_block src src_size dst_capacity (i + 1) code read (write + 1)
                 (dst[write := byte])
      else Inr (read, write, dst))"
  by pat_completeness auto
termination
  by (relation "measure (\<lambda>(src, src_size, cap, i, code, read, _). unat code - unat i)")
    (simp_all add: word_less_nat_alt unat_Suc_less)

declare cobs_decode_block.simps [simp del]

lemma cobs_decode_block_read:
  "cobs_decode_block src n cap i code read write dst = Inr (r, w, d) \<Longrightarrow> read \<le> r"
proof (induction src n cap i code read "write" dst rule: cobs_decode_block.induct)
  case (1 src n cap i code read wr dst)
  show ?case
    using "1.prems" "1.IH"
    by (simp add: cobs_decode_block.simps [of src n cap i] Let_def split: if_splits) force
qed

function cobs_decode_loop ::
  "u8 list \<Rightarrow> nat \<Rightarrow> nat \<Rightarrow> nat \<Rightarrow> nat \<Rightarrow> u8 list \<Rightarrow> CobsResult \<times> u8 list" where
  "cobs_decode_loop src src_size dst_capacity read write dst =
     (if read < src_size then
        let code = src ! read; read = read + 1 in
        if code = 0 then (cobs_invalid, dst)
        else
          (case cobs_decode_block src src_size dst_capacity 1 code read write dst of
             Inl ret \<Rightarrow> ret
           | Inr (read, write, dst) \<Rightarrow>
               if code \<noteq> 0xFF \<and> read < src_size then
                 if write \<ge> dst_capacity then (cobs_overflow, dst)
                 else cobs_decode_loop src src_size dst_capacity read (write + 1) (dst[write := 0])
               else cobs_decode_loop src src_size dst_capacity read write dst)
      else (cobs_ok write, dst))"
  by pat_completeness auto
termination
  by (relation "measure (\<lambda>(src, src_size, cap, read, _). src_size - read)")
    (auto dest!: cobs_decode_block_read)

declare cobs_decode_loop.simps [simp del]

definition cobs_decode :: "u8 list \<Rightarrow> nat \<Rightarrow> u8 list \<Rightarrow> nat \<Rightarrow> CobsResult \<times> u8 list" where
  "cobs_decode src src_size dst dst_capacity =
     cobs_decode_loop src src_size dst_capacity 0 0 dst"

subsection \<open>Reference definitions\<close>

text \<open>\<open>blk\<close> holds the non-zero bytes of the block being collected.\<close>

fun cobs_ref :: "u8 list \<Rightarrow> u8 list \<Rightarrow> u8 list" where
  "cobs_ref blk [] = of_nat (length blk + 1) # blk"
| "cobs_ref blk (b # bs) =
     (if b = 0 then of_nat (length blk + 1) # blk @ cobs_ref [] bs
      else if length blk = 253 then 0xFF # blk @ b # cobs_ref [] bs
      else cobs_ref (blk @ [b]) bs)"

function cobs_dec_ref :: "u8 list \<Rightarrow> u8 list option" where
  "cobs_dec_ref [] = Some []"
| "cobs_dec_ref (c # cs) =
     (let n = unat c - 1; blk = take n cs; rest = drop n cs in
      if c = 0 \<or> length cs < n \<or> 0 \<in> set blk then None
      else map_option (\<lambda>out. blk @ (if c \<noteq> 0xFF \<and> rest \<noteq> [] then [0] else []) @ out)
             (cobs_dec_ref rest))"
  by pat_completeness auto
termination
  by (relation "measure length") auto

subsection \<open>Facts on the reference encoding\<close>

lemma unat_code [simp]: "n \<le> 254 \<Longrightarrow> unat (of_nat (Suc n) :: u8) = Suc n"
  by (simp add: unat_of_nat del: of_nat_Suc)

lemma code_neq_0: "n \<le> 254 \<Longrightarrow> (of_nat (Suc n) :: u8) \<noteq> 0"
  by (metis unat_code nat.distinct(1) unat_0)

lemma code_eq_FF: "n \<le> 254 \<Longrightarrow> ((of_nat (Suc n) :: u8) = 0xFF) = (n = 254)"
proof
  assume n: "n \<le> 254" and e: "(of_nat (Suc n) :: u8) = 0xFF"
  then have "unat (of_nat (Suc n) :: u8) = unat (0xFF :: u8)" by simp
  then show "n = 254" using n by (simp del: of_nat_Suc)
qed (simp del: of_nat_Suc)

lemma cobs_ref_no_zero: "0 \<notin> set blk \<Longrightarrow> length blk \<le> 253 \<Longrightarrow> 0 \<notin> set (cobs_ref blk bs)"
proof (induction blk bs rule: cobs_ref.induct)
  case (1 blk)
  then show ?case using code_neq_0 [of "length blk"] by simp
next
  case (2 blk b bs)
  then show ?case using code_neq_0 [of "length blk"] by auto
qed

lemma cobs_ref_length_lower: "length blk + length bs + 1 \<le> length (cobs_ref blk bs)"
  by (induction blk bs rule: cobs_ref.induct) (auto simp: not_le)

lemma cobs_ref_length_upper:
  "length blk \<le> 253 \<Longrightarrow>
   length (cobs_ref blk bs) \<le> cobs_encoded_max_size (length blk + length bs)"
proof (induction blk bs rule: cobs_ref.induct)
  case (1 blk)
  then show ?case by (simp add: cobs_encoded_max_size_def)
next
  case (2 blk b bs)
  then show ?case by (auto simp: cobs_encoded_max_size_def)
qed

lemma cobs_ref_nonempty: "cobs_ref blk bs \<noteq> []"
  using cobs_ref_length_lower [of blk bs] by auto

lemma cobs_dec_ref_block:
  assumes "0 \<notin> set blk" "length blk \<le> 254" "length blk = 254 \<or> rest \<noteq> []"
  shows "cobs_dec_ref (of_nat (length blk + 1) # blk @ rest) =
     map_option (\<lambda>out. blk @ (if length blk \<noteq> 254 then [0] else []) @ out) (cobs_dec_ref rest)"
  using assms code_neq_0 [of "length blk"] code_eq_FF [of "length blk"]
  by (auto simp: Let_def simp del: of_nat_Suc)

lemma cobs_ref_roundtrip:
  "0 \<notin> set blk \<Longrightarrow> length blk \<le> 253 \<Longrightarrow> cobs_dec_ref (cobs_ref blk bs) = Some (blk @ bs)"
proof (induction blk bs rule: cobs_ref.induct)
  case (1 blk)
  then show ?case
    using code_neq_0 [of "length blk"] by (simp add: Let_def del: of_nat_Suc)
next
  case (2 blk b bs)
  show ?case
  proof (cases "b = 0 \<or> length blk \<noteq> 253")
    case True
    then show ?thesis
      using 2 cobs_dec_ref_block [of blk "cobs_ref [] bs"]
      by (auto simp: cobs_ref_nonempty simp del: of_nat_Suc cobs_dec_ref.simps)
  next
    case False
    then have "cobs_ref blk (b # bs) = of_nat (length (blk @ [b]) + 1) # (blk @ [b]) @ cobs_ref [] bs"
      by simp
    then show ?thesis
      using 2 False cobs_dec_ref_block [of "blk @ [b]" "cobs_ref [] bs"]
      by (simp del: of_nat_Suc cobs_dec_ref.simps cobs_ref.simps)
  qed
qed

subsection \<open>The index routines compute the reference\<close>

lemma drop_Cons_nth: "drop k xs = b # bs \<Longrightarrow> k < length xs \<and> xs ! k = b \<and> drop (Suc k) xs = bs"
  by (metis Cons_nth_drop_Suc drop_all list.distinct(1) list.inject not_le)

text \<open>The encoder's state at the head of its loop: the finished blocks \<open>fin\<close>, the reserved code
  byte \<open>slot\<close>, the bytes of the open block \<open>blk\<close>, and the untouched rest of the buffer. One
  iteration moves between such states.\<close>

definition enc_run ::
  "u8 list \<Rightarrow> nat \<Rightarrow> nat \<Rightarrow> nat \<Rightarrow> u8 list \<Rightarrow> u8 \<Rightarrow> u8 list \<Rightarrow> u8 list \<Rightarrow> CobsResult \<times> u8 list" where
  "enc_run src n cap r fin slot blk rest =
     cobs_encode_loop src n cap r (length fin + 1 + length blk) (length fin)
       (of_nat (length blk + 1)) (fin @ slot # blk @ rest)"

lemma code_succ_FF: "n \<le> 253 \<Longrightarrow> ((of_nat (n + 1) :: u8) + 1 = 0xFF) = (n = 253)"
  using code_eq_FF [of "Suc n"] by (simp add: add.commute)

lemma enc_run_end:
  "r = n \<Longrightarrow> enc_run src n cap r fin slot blk rest =
     (cobs_ok (length fin + 1 + length blk), fin @ of_nat (length blk + 1) # blk @ rest)"
  by (simp add: enc_run_def cobs_encode_loop.simps [of src n] list_update_append)

lemma enc_run_full_buffer:
  "r < n \<Longrightarrow> cap \<le> length fin + 1 + length blk \<Longrightarrow>
   fst (enc_run src n cap r fin slot blk rest) = cobs_overflow"
  by (simp add: enc_run_def cobs_encode_loop.simps [of src n] Let_def)

lemma enc_run_zero:
  "r < n \<Longrightarrow> src ! r = 0 \<Longrightarrow> length fin + 1 + length blk < cap \<Longrightarrow>
   enc_run src n cap r fin slot blk (s # rest) =
     enc_run src n cap (Suc r) (fin @ of_nat (length blk + 1) # blk) s [] rest"
  by (simp add: enc_run_def cobs_encode_loop.simps [of src n cap r] Let_def list_update_append)

lemma enc_run_byte:
  "r < n \<Longrightarrow> src ! r \<noteq> 0 \<Longrightarrow> length fin + 1 + length blk < cap \<Longrightarrow> length blk < 253 \<Longrightarrow>
   enc_run src n cap r fin slot blk (s # rest) =
     enc_run src n cap (Suc r) fin slot (blk @ [src ! r]) rest"
  using code_succ_FF [of "length blk"]
  by (simp add: enc_run_def cobs_encode_loop.simps [of src n cap r] Let_def list_update_append
      add.commute)

lemma enc_run_block:
  "r < n \<Longrightarrow> src ! r \<noteq> 0 \<Longrightarrow> length fin + 2 + length blk < cap \<Longrightarrow> length blk = 253 \<Longrightarrow>
   enc_run src n cap r fin slot blk (s # s' # rest) =
     enc_run src n cap (Suc r) (fin @ 0xFF # blk @ [src ! r]) s' [] rest"
  using code_succ_FF [of "length blk"]
  by (simp add: enc_run_def cobs_encode_loop.simps [of src n cap r] Let_def list_update_append
      add.commute [of 255])

lemma enc_run_block_full:
  "r < n \<Longrightarrow> src ! r \<noteq> 0 \<Longrightarrow> cap \<le> length fin + 2 + length blk \<Longrightarrow> length blk = 253 \<Longrightarrow>
   fst (enc_run src n cap r fin slot blk rest) = cobs_overflow"
  using code_succ_FF [of "length blk"]
  by (simp add: enc_run_def cobs_encode_loop.simps [of src n cap r] Let_def)

text \<open>What the loop returns: the reference encoding at the front of the buffer when it fits, an
  overflow otherwise.\<close>

definition enc_post :: "nat \<Rightarrow> u8 list \<Rightarrow> u8 list \<Rightarrow> CobsResult \<times> u8 list \<Rightarrow> bool" where
  "enc_post cap out mem res =
     (if length out \<le> cap then res = (cobs_ok (length out), out @ drop (length out) mem)
      else fst res = cobs_overflow)"

lemma enc_post_cong: "enc_post cap out mem res \<Longrightarrow> drop (length out) mem = drop (length out) mem' \<Longrightarrow>
    enc_post cap out mem' res"
  by (simp add: enc_post_def)

lemma drop_past: "length xs < k \<Longrightarrow> drop k (xs @ a # zs) = drop k (xs @ b # zs)"
  by (cases "k - length xs") auto

lemma drop_same: "length xs = length ys \<Longrightarrow> length xs \<le> k \<Longrightarrow> drop k (xs @ zs) = drop k (ys @ zs)"
  by simp

lemma enc_run_ref:
  assumes "drop r (take n src) = bs" and "n \<le> length src" and "r \<le> n"
    and "length blk \<le> 253" and "cap \<le> length fin + 1 + length blk + length rest"
    and "length fin + 1 + length blk \<le> cap"
  shows "enc_post cap (fin @ cobs_ref blk bs) (fin @ slot # blk @ rest)
     (enc_run src n cap r fin slot blk rest)"
  using assms
proof (induction bs arbitrary: r fin slot blk rest)
  case Nil
  then show ?case by (simp add: enc_run_end enc_post_def)
next
  case (Cons b bs)
  have r: "r < n" "src ! r = b" "drop (Suc r) (take n src) = bs"
    using drop_Cons_nth [OF Cons.prems(1)] Cons.prems(2) by auto
  have long: "length blk + length bs + 2 \<le> length (cobs_ref blk (b # bs))"
    using cobs_ref_length_lower [of blk "b # bs"] by simp
  consider (full) "length fin + 1 + length blk \<ge> cap"
    | (zero) "b = 0" "length fin + 1 + length blk < cap"
    | (byte) "b \<noteq> 0" "length blk < 253" "length fin + 1 + length blk < cap"
    | (block_full) "b \<noteq> 0" "length blk = 253" "length fin + 2 + length blk \<ge> cap"
    | (block) "b \<noteq> 0" "length blk = 253" "length fin + 2 + length blk < cap"
    using Cons.prems(4) by linarith
  then show ?case
  proof cases
    case full
    then show ?thesis
      using r long by (simp add: enc_post_def enc_run_full_buffer del: cobs_ref.simps)
  next
    case zero
    then obtain s rest' where rest: "rest = s # rest'"
      using Cons.prems by (cases rest) auto
    show ?thesis
      using Cons.IH [of "Suc r" "[]" "fin @ of_nat (length blk + 1) # blk" rest' s] Cons.prems r zero
      by (auto simp: rest enc_run_zero elim: enc_post_cong)
  next
    case byte
    then obtain s rest' where rest: "rest = s # rest'"
      using Cons.prems by (cases rest) auto
    have "drop (length (cobs_ref blk (b # bs))) (slot # blk @ b # rest') =
        drop (length (cobs_ref blk (b # bs))) (slot # blk @ s # rest')"
      using long drop_past [of "slot # blk"] by simp
    then show ?thesis
      using Cons.IH [of "Suc r" "blk @ [b]" fin rest' slot] Cons.prems r byte
      by (auto simp: rest enc_run_byte elim!: enc_post_cong)
  next
    case block_full
    then show ?thesis
      using r cobs_ref_length_lower [of "[]" bs] by (simp add: enc_post_def enc_run_block_full)
  next
    case block
    then obtain s s' rest' where rest: "rest = s # s' # rest'"
      using Cons.prems by (cases rest; cases "tl rest") auto
    show ?thesis
      using Cons.IH [of "Suc r" "[]" "fin @ 0xFF # blk @ [b]" rest' s'] Cons.prems r block
        drop_same [of "0xFF # blk @ [b]" "slot # blk @ [s]"
          "length (cobs_ref blk (b # bs))" "s' # rest'"] long
      by (auto simp: rest enc_run_block enc_post_def)
  qed
qed

lemma cobs_encode_ref:
  assumes "n \<le> length src" "cap \<le> length dst" "cap \<noteq> 0"
  shows "enc_post cap (cobs_ref [] (take n src)) dst (cobs_encode src n dst cap)"
proof -
  obtain d ds where dst: "dst = d # ds"
    using assms by (cases dst) auto
  show ?thesis
    using enc_run_ref [of 0 n src "take n src" "[]" cap "[]" ds d] assms
    by (simp add: dst cobs_encode_def enc_run_def)
qed

text \<open>Whatever happens, nothing at or beyond the stated capacity is written.\<close>

lemma drop_update_less: "i < k \<Longrightarrow> drop k (xs[i := v]) = drop k xs"
  by (simp add: drop_update_cancel)

lemma cobs_encode_loop_frame:
  "ci < cap \<Longrightarrow> res = cobs_encode_loop src n cap r w ci code dst \<Longrightarrow>
   length (snd res) = length dst \<and> drop cap (snd res) = drop cap dst"
proof (induction src n cap r w ci code dst rule: cobs_encode_loop.induct)
  case (1 src n cap r w ci code dst)
  show ?case
    using "1.prems" "1.IH"
    by (auto simp: cobs_encode_loop.simps [of src n cap r] Let_def drop_update_less split: if_splits)
qed


text \<open>The inner loop of the decoder, with \<open>k\<close> bytes of the block still to copy and \<open>xs\<close> the source
  bytes not yet read.\<close>

definition dec_block_post where
  "dec_block_post cap k xs r w out rest res =
     (case res of
        Inr (r', w', dst) \<Rightarrow>
          k \<le> length xs \<and> 0 \<notin> set (take k xs) \<and> r' = r + k \<and> w' = w + k \<and> w + k \<le> cap \<and>
          dst = out @ take k xs @ drop k rest
      | Inl (res, dst) \<Rightarrow>
          res = cobs_invalid \<and> (length xs < k \<or> 0 \<in> set (take k xs)) \<or>
          res = cobs_overflow \<and> cap < w + min k (length xs))"

lemma dec_block_post_step:
  "dec_block_post cap k xs (Suc r) (Suc w) (out @ [b]) rest res \<Longrightarrow> b \<noteq> 0 \<Longrightarrow>
   dec_block_post cap (Suc k) (b # xs) r w out (s # rest) res"
  by (auto simp: dec_block_post_def split: sum.splits)

lemma cobs_decode_block_ref:
  assumes "unat code - unat i = k" "i \<le> code" "n \<le> length src" "drop r (take n src) = xs"
    and "w = length out" "length out \<le> cap" "cap \<le> length out + length rest"
  shows "dec_block_post cap k xs r w out rest
     (cobs_decode_block src n cap i code r w (out @ rest))"
  using assms
proof (induction k arbitrary: i r w out rest xs)
  case 0
  then have "\<not> i < code" by (simp add: word_less_nat_alt)
  with 0 show ?case
    by (simp add: cobs_decode_block.simps [of src n cap code code] dec_block_post_def)
next
  case (Suc k)
  then have lt: "i < code" by (simp add: word_less_nat_alt)
  then have i1: "unat (i + 1) = Suc (unat i)"
    by (intro unat_Suc_less [of i code]) (simp add: word_less_nat_alt)
  note unfold = cobs_decode_block.simps [of src n _ i code r]
  show ?case
  proof (cases xs)
    case Nil
    then have "n \<le> r" using Suc.prems by simp
    with lt Nil show ?thesis by (simp add: unfold dec_block_post_def)
  next
    case (Cons b ys)
    then have r: "r < n" "src ! r = b" "drop (Suc r) (take n src) = ys"
      using drop_Cons_nth [of r "take n src"] Suc.prems by auto
    show ?thesis
    proof (cases "b = 0 \<or> w \<ge> cap")
      case True
      with r lt Cons Suc.prems show ?thesis by (auto simp: unfold dec_block_post_def Let_def)
    next
      case False
      then obtain s rest' where rest: "rest = s # rest'"
        using Suc.prems by (cases rest) auto
      have "dec_block_post cap k ys (Suc r) (Suc w) (out @ [b]) rest'
          (cobs_decode_block src n cap (i + 1) code (Suc r) (Suc w) ((out @ [b]) @ rest'))"
        using Suc.prems i1 r False rest lt
        by (intro Suc.IH) (auto simp: word_le_nat_alt word_less_nat_alt)
      then show ?thesis
        using dec_block_post_step [of cap k ys r w out b rest' _ s] False r lt rest Cons Suc.prems
        by (simp add: unfold Let_def)
    qed
  qed
qed

text \<open>The outer loop.\<close>

definition dec_post :: "nat \<Rightarrow> u8 list \<Rightarrow> u8 list \<Rightarrow> u8 list \<Rightarrow> CobsResult \<times> u8 list \<Rightarrow> bool" where
  "dec_post cap xs out rest res =
     (case cobs_dec_ref xs of
        Some ys \<Rightarrow>
          if length out + length ys \<le> cap
          then res = (cobs_ok (length out + length ys), out @ ys @ drop (length ys) rest)
          else fst res = cobs_overflow
      | None \<Rightarrow> fst res = cobs_invalid \<or>
          fst res = cobs_overflow \<and> cap < length out + length xs)"

lemma cobs_dec_ref_length: "cobs_dec_ref xs = Some ys \<Longrightarrow> length ys \<le> length xs"
proof (induction xs arbitrary: ys rule: cobs_dec_ref.induct)
  case (2 c cs)
  then show ?case by (fastforce simp: Let_def split: if_splits)
qed simp

lemma dec_post_step:
  assumes "dec_post cap xs' (out @ z) (drop (length z) rest) res"
    and "cobs_dec_ref xs = map_option ((@) z) (cobs_dec_ref xs')"
    and "length z + length xs' \<le> length xs"
  shows "dec_post cap xs out rest res"
  using assms by (auto simp: dec_post_def add.assoc add.commute split: option.splits)

lemma dec_post_overflow:
  assumes "cobs_dec_ref xs = map_option ((@) z) (cobs_dec_ref xs')"
    and "cap < length out + length z" "length z \<le> length xs"
  shows "dec_post cap xs out rest (cobs_overflow, d)"
  using assms by (auto simp: dec_post_def split: option.splits)

lemma cobs_dec_ref_Cons:
  assumes "c \<noteq> 0" "k = unat c - 1" "k \<le> length cs" "0 \<notin> set (take k cs)"
    and "z = take k cs @ (if c \<noteq> 0xFF \<and> k < length cs then [0] else [])"
  shows "cobs_dec_ref (c # cs) = map_option ((@) z) (cobs_dec_ref (drop k cs))"
  using assms by (auto simp: Let_def intro!: map_option_cong)

lemma dec_post_block_return:
  assumes "dec_block_post cap (unat c - 1) cs r (length out) out rest (Inl ret)" "c \<noteq> 0"
  shows "dec_post cap (c # cs) out rest ret"
  using assms
  by (cases ret) (auto simp: dec_block_post_def dec_post_def Let_def split: option.splits)

text \<open>One full iteration: a block of \<open>k\<close> bytes, then the implied zero, in \<open>z\<close>.\<close>

lemma cobs_decode_loop_iter:
  assumes r: "r < n" "src ! r = c" "length cs = n - Suc r" and c: "c \<noteq> 0" and k: "k = unat c - 1"
    and block: "cobs_decode_block src n cap 1 c (Suc r) (length out) (out @ rest) =
        Inr (Suc r + k, length out + k, out @ take k cs @ drop k rest)"
    and b: "k \<le> length cs" "length out + k \<le> cap" "cap \<le> length out + length rest"
    and z: "z = take k cs @ (if c \<noteq> 0xFF \<and> k < length cs then [0] else [])"
  shows "cobs_decode_loop src n cap r (length out) (out @ rest) =
     (if cap < length out + length z then (cobs_overflow, out @ take k cs @ drop k rest)
      else cobs_decode_loop src n cap (Suc r + k) (length (out @ z))
             ((out @ z) @ drop (length z) rest))"
proof -
  have upd: "(out @ take k cs @ drop k rest)[length out + k := 0] =
      out @ take k cs @ 0 # drop (Suc k) rest" if "length out + k < cap"
  proof -
    have "k < length rest" using that b by simp
    then have "drop k rest = rest ! k # drop (Suc k) rest" by (rule Cons_nth_drop_Suc [symmetric])
    then show ?thesis using b by (simp add: list_update_append)
  qed
  show ?thesis
    using r c block b upd by (simp add: cobs_decode_loop.simps [of src n cap r] z Let_def) auto
qed

lemma cobs_decode_loop_ref:
  assumes "n \<le> length src" "r \<le> n" "drop r (take n src) = xs"
    and "length out \<le> cap" "cap \<le> length out + length rest"
  shows "dec_post cap xs out rest (cobs_decode_loop src n cap r (length out) (out @ rest))"
  using assms
proof (induction xs arbitrary: r out rest rule: length_induct)
  case (1 xs)
  show ?case
  proof (cases xs)
    case Nil
    with "1.prems" show ?thesis
      by (simp add: cobs_decode_loop.simps [of src r cap r] dec_post_def)
  next
    case (Cons c cs)
    then have r: "r < n" "src ! r = c" "drop (Suc r) (take n src) = cs"
      using drop_Cons_nth [of r "take n src"] "1.prems" by auto
    then have len: "length cs = n - Suc r" using "1.prems" by auto
    define k where "k = unat c - 1"
    define z where "z = take k cs @ (if c \<noteq> 0xFF \<and> k < length cs then [0] else [])"
    let ?block = "cobs_decode_block src n cap 1 c (Suc r) (length out) (out @ rest)"
    consider (zero) "c = 0" | (return) ret where "c \<noteq> 0" "?block = Inl ret"
      | (iter) t where "c \<noteq> 0" "?block = Inr t"
      by (cases ?block) auto
    then show ?thesis
    proof cases
      case zero
      with r Cons show ?thesis by (simp add: cobs_decode_loop.simps [of src n cap r] dec_post_def)
    next
      case return
      have "dec_block_post cap k cs (Suc r) (length out) out rest ?block"
        using "1.prems" r return(1) by (intro cobs_decode_block_ref) (auto simp: k_def word_le_nat_alt Suc_le_eq unat_gt_0)
      then have "dec_post cap xs out rest ret"
        using return Cons by (simp add: dec_post_block_return k_def)
      with r return show ?thesis by (simp add: cobs_decode_loop.simps [of src n cap r])
    next
      case iter
      have block: "dec_block_post cap k cs (Suc r) (length out) out rest ?block"
        using "1.prems" r iter(1) by (intro cobs_decode_block_ref) (auto simp: k_def word_le_nat_alt Suc_le_eq unat_gt_0)
      then have b: "?block = Inr (Suc r + k, length out + k, out @ take k cs @ drop k rest)"
          "k \<le> length cs" "0 \<notin> set (take k cs)" "length out + k \<le> cap"
        using iter by (cases t; simp add: dec_block_post_def)+
      note loop = cobs_decode_loop_iter [OF r(1,2) len iter(1) k_def b(1,2,4) "1.prems"(5) z_def]
      have ref: "cobs_dec_ref xs = map_option ((@) z) (cobs_dec_ref (drop k cs))"
        unfolding Cons using iter(1) k_def b(2,3) z_def by (rule cobs_dec_ref_Cons)
      show ?thesis
      proof (cases "cap < length out + length z")
        case True
        with dec_post_overflow [OF ref True] b(2) Cons show ?thesis
          by (simp add: loop z_def)
      next
        case False
        have "dec_post cap (drop k cs) (out @ z) (drop (length z) rest)
            (cobs_decode_loop src n cap (Suc r + k) (length (out @ z))
              ((out @ z) @ drop (length z) rest))"
          using "1.prems" False b(2) r Cons len
          by (intro "1.IH" [rule_format]) (auto simp: add.commute)
        with False show ?thesis
          using ref b(2) Cons by (simp add: loop) (rule dec_post_step, auto simp: z_def)
      qed
    qed
  qed
qed

lemma cobs_decode_ref:
  assumes "n \<le> length src" "cap \<le> length dst"
  shows "dec_post cap (take n src) [] dst (cobs_decode src n dst cap)"
  unfolding cobs_decode_def
  using cobs_decode_loop_ref [of n src 0 "take n src" "[]" cap dst] assms by simp

lemma cobs_decode_block_frame:
  "res = cobs_decode_block src n cap i code r w dst \<Longrightarrow>
   (case res of Inl (_, d) \<Rightarrow> length d = length dst \<and> drop cap d = drop cap dst
              | Inr (_, _, d) \<Rightarrow> length d = length dst \<and> drop cap d = drop cap dst)"
proof (induction src n cap i code r w dst arbitrary: res rule: cobs_decode_block.induct)
  case (1 src n cap i code r w dst)
  show ?case
    using "1.prems" "1.IH"
    by (auto simp: cobs_decode_block.simps [of src n cap i code r] Let_def drop_update_less
        split: if_splits sum.splits)
qed

lemma cobs_decode_loop_frame:
  "res = cobs_decode_loop src n cap r w dst \<Longrightarrow>
   length (snd res) = length dst \<and> drop cap (snd res) = drop cap dst"
proof (induction src n cap r w dst arbitrary: res rule: cobs_decode_loop.induct)
  case (1 src n cap r w dst)
  show ?case
    using "1.prems" "1.IH" cobs_decode_block_frame [OF refl, where src = src and n = n and cap = cap
        and i = 1 and code = "src ! r" and r = "Suc r" and w = w and dst = dst]
    by (auto simp: cobs_decode_loop.simps [of src n cap r] Let_def drop_update_less
        split: if_splits sum.splits)
qed

subsection \<open>Consequences used by the frame layer\<close>

lemma cobs_encode_ok:
  assumes "n \<le> length src" "cap \<le> length dst" "length (cobs_ref [] (take n src)) \<le> cap"
  shows "cobs_encode src n dst cap =
    (cobs_ok (length (cobs_ref [] (take n src))),
     cobs_ref [] (take n src) @ drop (length (cobs_ref [] (take n src))) dst)"
proof -
  have "cap \<noteq> 0" using assms(3) cobs_ref_length_lower [of "[]" "take n src"] by linarith
  from cobs_encode_ref [OF assms(1,2) this] assms(3) show ?thesis
    by (simp add: enc_post_def)
qed

lemma cobs_encode_overflow:
  assumes "n \<le> length src" "cap \<le> length dst" "cap < length (cobs_ref [] (take n src))"
  shows "fst (cobs_encode src n dst cap) = cobs_overflow"
  using cobs_encode_ref [OF assms(1,2)] assms(3)
  by (cases "cap = 0") (auto simp: cobs_encode_def enc_post_def)

lemma cobs_ref_max: "length (cobs_ref [] bs) \<le> cobs_encoded_max_size (length bs)"
  using cobs_ref_length_upper [of "[]" bs] by simp

lemma cobs_decode_ok:
  assumes "n \<le> length src" "cap \<le> length dst" "cobs_dec_ref (take n src) = Some ys"
    "length ys \<le> cap"
  shows "cobs_decode src n dst cap = (cobs_ok (length ys), ys @ drop (length ys) dst)"
  using cobs_decode_ref [OF assms(1,2)] assms(3,4) by (simp add: dec_post_def)

lemma cobs_decode_ok_iff:
  assumes "n \<le> length src" "cap \<le> length dst"
  shows "cobs_status (fst (cobs_decode src n dst cap)) = CobsOk \<longleftrightarrow>
     (\<exists>ys. cobs_dec_ref (take n src) = Some ys \<and> length ys \<le> cap)"
  using cobs_decode_ref [OF assms]
  by (auto simp: dec_post_def split: option.splits if_splits)

lemma cobs_decode_length:
  "length (snd (cobs_decode src n dst cap)) = length dst"
  unfolding cobs_decode_def using cobs_decode_loop_frame [OF refl] by blast

subsection \<open>Properties\<close>

text \<open>C17: COBS round trip through the index routines. Encoding any payload into a buffer of at
  least \<open>cobs_encoded_max_size\<close> bytes succeeds, and decoding what was written, into a buffer
  that holds the payload, returns exactly the payload.\<close>

theorem cobs_roundtrip:
  assumes "cobs_encoded_max_size (length src) \<le> length dst" and "length src \<le> length dst2"
  shows "\<exists>n out out2.
     cobs_encode src (length src) dst (length dst) = (cobs_ok n, out) \<and>
     cobs_decode out n dst2 (length dst2) = (cobs_ok (length src), out2) \<and>
     take (length src) out2 = src"
proof -
  let ?enc = "cobs_ref [] src"
  have fits: "length ?enc \<le> length dst"
    using cobs_ref_max [of src] assms(1) by simp
  have "cobs_encode src (length src) dst (length dst) =
      (cobs_ok (length ?enc), ?enc @ drop (length ?enc) dst)"
    using cobs_encode_ok [of "length src" src "length dst" dst] fits by simp
  moreover have "cobs_decode (?enc @ drop (length ?enc) dst) (length ?enc) dst2 (length dst2) =
      (cobs_ok (length src), src @ drop (length src) dst2)"
    using cobs_decode_ok [of "length ?enc" "?enc @ drop (length ?enc) dst" "length dst2" dst2 src]
      cobs_ref_roundtrip [of "[]" src] assms(2) by simp
  ultimately show ?thesis by simp
qed

theorem cobs_roundtrip_witness:
  "\<exists>n out out2.
     cobs_encode [1, 0, 2] (length [1, 0, 2 :: u8]) (replicate 8 0) (length (replicate 8 (0 :: u8))) =
       (cobs_ok n, out) \<and>
     cobs_decode out n (replicate 3 7) (length (replicate 3 (7 :: u8))) =
       (cobs_ok (length [1, 0, 2 :: u8]), out2) \<and>
     take (length [1, 0, 2 :: u8]) out2 = [1, 0, 2]"
  by (rule cobs_roundtrip) (simp_all add: cobs_encoded_max_size_def)

text \<open>What the encoder writes. Given a capacity inside the buffer, \<open>cobs_encode\<close> succeeds exactly
  when the reference encoding fits; the bytes written are then that encoding, contain no
  \<open>0x00\<close>, and number at least one more than the payload and at most \<open>cobs_encoded_max_size\<close>.
  Otherwise the status is the overflow one. In both cases no byte at or beyond the capacity
  changes.\<close>

theorem cobs_encode_correct:
  assumes "n \<le> length src" and "cap \<le> length dst"
  shows "let enc = cobs_ref [] (take n src); (res, out) = cobs_encode src n dst cap in
     length out = length dst \<and> drop cap out = drop cap dst \<and>
     0 \<notin> set enc \<and> n < length enc \<and> length enc \<le> cobs_encoded_max_size n \<and>
     (if length enc \<le> cap then res = cobs_ok (length enc) \<and> take (length enc) out = enc
      else res = cobs_overflow)"
proof -
  let ?enc = "cobs_ref [] (take n src)"
  have frame: "length (snd (cobs_encode src n dst cap)) = length dst \<and>
      drop cap (snd (cobs_encode src n dst cap)) = drop cap dst"
    unfolding cobs_encode_def using cobs_encode_loop_frame [OF _ refl] by auto
  have "0 \<notin> set ?enc" by (rule cobs_ref_no_zero) auto
  moreover have "n < length ?enc" "length ?enc \<le> cobs_encoded_max_size n"
    using cobs_ref_length_lower [of "[]" "take n src"] cobs_ref_max [of "take n src"] assms(1)
    by auto
  moreover have "if length ?enc \<le> cap
      then fst (cobs_encode src n dst cap) = cobs_ok (length ?enc) \<and>
        take (length ?enc) (snd (cobs_encode src n dst cap)) = ?enc
      else fst (cobs_encode src n dst cap) = cobs_overflow"
    using cobs_encode_ok [OF assms] cobs_encode_overflow [OF assms] by simp
  ultimately show ?thesis using frame by (simp add: Let_def case_prod_beta)
qed

theorem cobs_encode_correct_witness:
  "let enc = cobs_ref [] (take 2 [5, 0, 9]);
       (res, out) = cobs_encode [5, 0, 9] 2 [9, 9, 9, 9] 3 in
     length out = length [9, 9, 9, 9 :: u8] \<and> drop 3 out = drop 3 [9, 9, 9, 9] \<and>
     0 \<notin> set enc \<and> 2 < length enc \<and> length enc \<le> cobs_encoded_max_size 2 \<and>
     (if length enc \<le> 3 then res = cobs_ok (length enc) \<and> take (length enc) out = enc
      else res = cobs_overflow)"
  by (rule cobs_encode_correct) simp_all

text \<open>What the decoder accepts. \<open>cobs_decode\<close> reports success exactly on the inputs the
  reference decoder accepts whose payload fits, returns that payload, rejects every other
  input with an error status, never overflows when the capacity is at least the input size, and
  never writes at or beyond the capacity.\<close>

theorem cobs_decode_correct:
  assumes "n \<le> length src" and "cap \<le> length dst"
  shows "let (res, out) = cobs_decode src n dst cap in
     length out = length dst \<and> drop cap out = drop cap dst \<and>
     (case cobs_dec_ref (take n src) of
        Some ys \<Rightarrow> length ys \<le> n \<and>
          (if length ys \<le> cap then res = cobs_ok (length ys) \<and> take (length ys) out = ys
           else res = cobs_overflow)
      | None \<Rightarrow> res = cobs_invalid \<or> res = cobs_overflow \<and> cap < n)"
proof -
  have "length (snd (cobs_decode src n dst cap)) = length dst \<and>
      drop cap (snd (cobs_decode src n dst cap)) = drop cap dst"
    unfolding cobs_decode_def using cobs_decode_loop_frame [OF refl] by blast
  then show ?thesis
    using cobs_decode_ref [OF assms] assms(1) cobs_dec_ref_length [of "take n src"]
    by (auto simp: dec_post_def Let_def case_prod_beta split: option.splits if_splits)
qed

theorem cobs_decode_correct_witness:
  "let (res, out) = cobs_decode [2, 5, 1, 0] 3 [9, 9, 9, 9] 3 in
     length out = length [9, 9, 9, 9 :: u8] \<and> drop 3 out = drop 3 [9, 9, 9, 9] \<and>
     (case cobs_dec_ref (take 3 [2, 5, 1, 0]) of
        Some ys \<Rightarrow> length ys \<le> 3 \<and>
          (if length ys \<le> 3 then res = cobs_ok (length ys) \<and> take (length ys) out = ys
           else res = cobs_overflow)
      | None \<Rightarrow> res = cobs_invalid \<or> res = cobs_overflow \<and> 3 < (3 :: nat))"
  by (rule cobs_decode_correct) simp_all

end
