(* ===== verification/Crc16.thy ===== *)
theory Crc16
  imports Prelude
begin

section \<open>CRC-16/CCITT-FALSE (proto/crc16.hpp)\<close>

text \<open>
  The bit loop of \<open>crc16_update\<close> and the byte loop of \<open>crc16\<close>, the residue property the frame
  parser relies on, and the error detection the protocol chose a CRC for: a register step is
  linear over XOR and injective, so a corruption confined to 16 consecutive bits never goes
  unnoticed.
\<close>

subsection \<open>The code\<close>

definition kCrc16Poly :: u16 where "kCrc16Poly = 0x1021"

definition kCrc16Init :: u16 where "kCrc16Init = 0xFFFF"

text \<open>One round of the loop in \<open>crc16_update\<close>: shift left, and reduce when the bit shifted out
  was set.\<close>

definition crc16_bit :: "u16 \<Rightarrow> u16" where
  "crc16_bit crc =
     (if crc AND 0x8000 \<noteq> 0 then push_bit 1 crc XOR kCrc16Poly else push_bit 1 crc)"

definition crc16_update :: "u16 \<Rightarrow> u8 \<Rightarrow> u16" where
  "crc16_update crc byte = (crc16_bit ^^ 8) (crc XOR push_bit 8 (ucast byte))"

definition crc16 :: "u8 list \<Rightarrow> nat \<Rightarrow> u16" where
  "crc16 data len = foldl crc16_update kCrc16Init (take len data)"

subsection \<open>A register step is linear and injective\<close>

lemma crc16_bit_alt: "crc16_bit c = push_bit 1 c XOR (if bit c 15 then kCrc16Poly else 0)"
proof -
  have "(c AND 0x8000 \<noteq> 0) = bit c 15"
    using and_exp_eq_0_iff_not_bit [of c 15] by simp
  then show ?thesis by (simp add: crc16_bit_def)
qed

lemma crc16_bit_xor: "crc16_bit (x XOR y) = crc16_bit x XOR crc16_bit y"
  by (simp add: crc16_bit_alt bit_xor_iff ac_simps)

lemma crc16_bit_0 [simp]: "crc16_bit 0 = 0"
  by (simp add: crc16_bit_def)

text \<open>The lowest coefficient of the polynomial is 1, so bit 0 of the result says whether the
  reduction took place: no non-zero register is mapped to 0.\<close>

lemma crc16_bit_eq_0:
  assumes "crc16_bit x = 0"
  shows "x = 0"
proof (rule bit_word_eqI)
  fix n assume n: "n < LENGTH(16)"
  have z: "bit (crc16_bit x) k = False" for k
    using assms by simp
  have b0: "bit kCrc16Poly 0"
    by (simp add: kCrc16Poly_def)
  have top: "\<not> bit x 15"
    using z [of 0] b0 by (auto simp: crc16_bit_alt bit_xor_iff bit_push_bit_iff
        simp del: push_bit_Suc split: if_splits)
  then have "crc16_bit x = push_bit 1 x"
    by (simp add: crc16_bit_alt)
  with z have sh: "\<not> bit (push_bit 1 x) k" for k
    by metis
  have "\<not> bit x n"
  proof (cases "n = 15")
    case False
    with n have "Suc n < 16" by simp
    then show ?thesis using sh [of "Suc n"] by (simp add: bit_push_bit_iff del: push_bit_Suc)
  qed (simp add: top)
  then show "bit x n = bit 0 n" by simp
qed

lemma word_xor_eq_0_iff: "(x XOR y = (0 :: 'a :: len word)) = (x = y)"
  by (metis xor.right_neutral xor_self_eq xor.assoc)

lemma word_xor_cancel: "x XOR z = y XOR (z :: 'a :: len word) \<Longrightarrow> x = y"
  by (metis word_xor_eq_0_iff xor.assoc xor.right_neutral xor_self_eq)

lemma crc16_bit_inj: "crc16_bit x = crc16_bit y \<Longrightarrow> x = y"
  using crc16_bit_eq_0 [of "x XOR y"] by (simp add: crc16_bit_xor word_xor_eq_0_iff)

lemma crc16_bits_inj: "(crc16_bit ^^ k) x = (crc16_bit ^^ k) y \<Longrightarrow> x = y"
  by (induction k arbitrary: x y) (auto dest: crc16_bit_inj)

lemma crc16_bits_xor: "(crc16_bit ^^ k) (x XOR y) = (crc16_bit ^^ k) x XOR (crc16_bit ^^ k) y"
  by (induction k) (simp_all add: crc16_bit_xor)

lemma crc16_bits_0 [simp]: "(crc16_bit ^^ k) 0 = 0"
  by (induction k) simp_all

subsection \<open>The residue of a message followed by its CRC\<close>

text \<open>Eight rounds on a register whose high byte is clear are a plain shift.\<close>

lemma crc16_bits_low:
  "\<forall>n\<ge>16 - k. \<not> bit c n \<Longrightarrow> k \<le> 16 \<Longrightarrow> (crc16_bit ^^ k) c = push_bit k c"
proof (induction k)
  case (Suc k)
  have IH: "(crc16_bit ^^ k) c = push_bit k c"
    using Suc by simp
  have "\<not> bit (push_bit k c) 15"
    using Suc.prems by (simp add: bit_push_bit_iff)
  then have "crc16_bit (push_bit k c) = push_bit 1 (push_bit k c)"
    by (simp add: crc16_bit_alt)
  then show ?case using IH by (simp add: push_bit_push_bit)
qed simp

definition crc_hi :: "u16 \<Rightarrow> u8" where "crc_hi crc = ucast (drop_bit 8 crc)"

definition crc_lo :: "u16 \<Rightarrow> u8" where "crc_lo crc = ucast (crc AND 0xFF)"

lemma crc16_update_hi: "crc16_update c (crc_hi c) = push_bit 8 c"
proof -
  have 1: "c XOR push_bit 8 (ucast (crc_hi c)) = take_bit 8 c"
    by (rule bit_word_eqI) (auto simp: crc_hi_def bit_simps)
  have 2: "(crc16_bit ^^ 8) (take_bit 8 c) = push_bit 8 (take_bit 8 c)"
    by (rule crc16_bits_low) (auto simp: bit_take_bit_iff)
  have 3: "push_bit 8 (take_bit 8 c) = push_bit 8 c"
    by (rule bit_word_eqI) (auto simp: bit_simps)
  show ?thesis by (simp add: crc16_update_def 1 2 3)
qed

lemma crc16_update_lo: "crc16_update (push_bit 8 c) (crc_lo c) = 0"
proof -
  have "push_bit 8 c XOR push_bit 8 (ucast (crc_lo c)) = 0"
  proof (rule bit_word_eqI)
    fix n assume n: "n < LENGTH(16)"
    have lo: "crc_lo c = ucast (c AND mask 8)"
      by (simp add: crc_lo_def mask_eq_exp_minus_1)
    show "bit (push_bit 8 c XOR push_bit 8 (ucast (crc_lo c))) n = bit (0 :: u16) n"
      using n unfolding lo by (auto simp: bit_simps)
  qed
  then show ?thesis by (simp add: crc16_update_def)
qed

lemma foldl_crc_residue:
  "foldl crc16_update c (m @ [crc_hi (foldl crc16_update c m), crc_lo (foldl crc16_update c m)]) = 0"
  by (simp add: crc16_update_hi crc16_update_lo)

subsection \<open>Bit-serial view and burst errors\<close>

text \<open>The bits of a message in the order the CRC consumes them: bytes in order, most significant
  bit first.\<close>

definition byte_bits :: "u8 \<Rightarrow> bool list" where
  "byte_bits b = map (\<lambda>j. bit b (7 - j)) [0..<8]"

definition message_bits :: "u8 list \<Rightarrow> bool list" where
  "message_bits m = concat (map byte_bits m)"

definition bitstep :: "u16 \<Rightarrow> bool \<Rightarrow> u16" where
  "bitstep c v = crc16_bit (c XOR (if v then 0x8000 else 0))"

text \<open>A bit string left-aligned in a 16-bit register.\<close>

fun top_word :: "bool list \<Rightarrow> u16" where
  "top_word [] = 0"
| "top_word (v # vs) = (if v then 0x8000 else 0) XOR drop_bit 1 (top_word vs)"

lemma bit_8000: "bit (0x8000 :: u16) n = (n = 15)"
proof -
  have "bit (2 ^ 15 :: u16) n = (n = 15)"
    unfolding bit_exp_iff by (auto simp: possible_bit_word)
  then show ?thesis by simp
qed

lemma bit_top_word:
  "bit (top_word vs) n = (n < 16 \<and> 15 - n < length vs \<and> vs ! (15 - n))"
proof (induction vs arbitrary: n)
  case (Cons v vs)
  show ?case
  proof (cases "n < 15")
    case True
    then have "15 - n = Suc (14 - n)" by simp
    moreover have "\<not> bit (0x8000 :: u16) n"
      using True by (simp only: bit_8000)
    ultimately show ?thesis
      using True by (cases v) (simp_all add: bit_xor_iff bit_drop_bit_eq Cons.IH)
  next
    case False
    then show ?thesis
      by (cases "n = 15") (auto simp: bit_xor_iff bit_drop_bit_eq bit_8000 Cons.IH)
  qed
qed simp

lemma top_word_Cons:
  assumes "length vs < 16"
  shows "crc16_bit (top_word (v # vs)) = crc16_bit (if v then 0x8000 else 0) XOR top_word vs"
proof -
  have "\<not> bit (drop_bit 1 (top_word vs)) 15"
    by (simp add: bit_drop_bit_eq bit_top_word)
  moreover have "push_bit 1 (drop_bit 1 (top_word vs)) = top_word vs"
    using assms by (intro bit_word_eqI)
      (auto simp: bit_push_bit_iff bit_drop_bit_eq bit_top_word simp del: push_bit_Suc)
  ultimately have "crc16_bit (drop_bit 1 (top_word vs)) = top_word vs"
    by (simp add: crc16_bit_alt)
  then show ?thesis by (simp add: crc16_bit_xor)
qed

text \<open>Feeding up to 16 bits is XOR-ing them into the top of the register, then stepping.\<close>

lemma feed_bits: "length vs \<le> 16 \<Longrightarrow> foldl bitstep c vs = (crc16_bit ^^ length vs) (c XOR top_word vs)"
proof (induction vs arbitrary: c)
  case Nil
  then show ?case by simp
next
  case (Cons v vs)
  have "foldl bitstep c (v # vs) = (crc16_bit ^^ length vs) (bitstep c v XOR top_word vs)"
    using Cons by simp
  also have "bitstep c v XOR top_word vs = crc16_bit (c XOR top_word (v # vs))"
    using Cons.prems
    by (simp add: bitstep_def crc16_bit_xor top_word_Cons ac_simps del: top_word.simps)
  finally show ?case by (simp add: funpow_swap1)
qed

lemma top_word_inj: "length vs = length ws \<Longrightarrow> length vs \<le> 16 \<Longrightarrow> top_word vs = top_word ws \<Longrightarrow> vs = ws"
proof (rule nth_equalityI)
  fix i
  assume l: "length vs = length ws" "length vs \<le> 16" and e: "top_word vs = top_word ws"
    and i: "i < length vs"
  then have "bit (top_word vs) (15 - i) = bit (top_word ws) (15 - i)" by simp
  moreover have "15 - i < 16" by simp
  ultimately show "vs ! i = ws ! i" using l i by (simp add: bit_top_word)
qed

lemma bitstep_inj: "bitstep c v = bitstep d v \<Longrightarrow> c = d"
  unfolding bitstep_def by (blast dest: crc16_bit_inj word_xor_cancel)

lemma feed_inj: "foldl bitstep c vs = foldl bitstep d vs \<Longrightarrow> c = d"
  by (induction vs arbitrary: c d) (auto dest: bitstep_inj)

lemma crc16_update_bits: "crc16_update c b = foldl bitstep c (byte_bits b)"
proof -
  have "top_word (byte_bits b) = push_bit 8 (ucast b)"
    by (rule bit_word_eqI) (auto simp: bit_top_word byte_bits_def bit_simps)
  then show ?thesis
    using feed_bits [of "byte_bits b" c] by (simp add: crc16_update_def byte_bits_def)
qed

lemma crc16_message_bits: "foldl crc16_update c m = foldl bitstep c (message_bits m)"
  by (induction m arbitrary: c) (simp_all add: message_bits_def crc16_update_bits)

lemma feed_burst:
  assumes "length x = length y" "length x \<le> 16" "x \<noteq> y"
  shows "foldl bitstep c (p @ x @ s) \<noteq> foldl bitstep c (p @ y @ s)"
proof
  assume "foldl bitstep c (p @ x @ s) = foldl bitstep c (p @ y @ s)"
  then have "foldl bitstep (foldl bitstep c p) x = foldl bitstep (foldl bitstep c p) y"
    by (auto dest: feed_inj)
  then have "foldl bitstep c p XOR top_word x = foldl bitstep c p XOR top_word y"
    using assms by (auto simp: feed_bits dest: crc16_bits_inj)
  then have "top_word x = top_word y"
    by (metis xor.commute word_xor_cancel)
  then show False using assms top_word_inj by blast
qed

subsection \<open>Properties\<close>

text \<open>The residue property the frame parser relies on. Running \<open>crc16\<close> over a message
  followed by its own CRC, most significant byte first, yields 0 for every message.\<close>

theorem crc16_residue:
  "crc16 (m @ [crc_hi (crc16 m (length m)), crc_lo (crc16 m (length m))]) (length m + 2) = 0"
  unfolding crc16_def using foldl_crc_residue [of kCrc16Init m] by simp

text \<open>C16: every burst error of at most 16 bits is detected. Two messages whose bit streams differ,
  and differ only inside a window of at most 16 consecutive bits, have different CRCs.\<close>

theorem crc16_detects_bursts:
  assumes "message_bits m = p @ x @ s" and "message_bits m' = p @ y @ s"
    and "length x = length y" and "length x \<le> 16" and "x \<noteq> y"
  shows "crc16 m (length m) \<noteq> crc16 m' (length m')"
  unfolding crc16_def using feed_burst [OF assms(3-5), of kCrc16Init p s]
  by (simp add: crc16_message_bits assms(1,2))

theorem crc16_detects_bursts_witness:
  "crc16 [0x12, 0x34, 0x56] 3 \<noteq> crc16 [0x12, 0xCB, 0x57] 3"
proof -
  have 1: "message_bits [0x12, 0x34, 0x56] =
      byte_bits 0x12 @ take 16 (byte_bits 0x34 @ byte_bits 0x56) @ []"
    by (simp add: message_bits_def byte_bits_def)
  have 2: "message_bits [0x12, 0xCB, 0x57] =
      byte_bits 0x12 @ take 16 (byte_bits 0xCB @ byte_bits 0x57) @ []"
    by (simp add: message_bits_def byte_bits_def)
  show ?thesis
    using crc16_detects_bursts [OF 1 2] by (simp add: byte_bits_def upt_rec numeral_3_eq_3)
qed

end
