(* ===== verification/Frame_Encoder.thy ===== *)
theory Frame_Encoder
  imports Cobs Crc16 Messages
begin

section \<open>Frame encoder (proto/frame_encoder.hpp)\<close>

text \<open>
  \<open>encode_frame\<close> lays a blob \<open>type | length | payload | crc\<close> out in a fixed local array, encodes it
  with COBS into the caller's buffer and appends the delimiter. \<open>wire_frame\<close> is the byte string it
  promises to leave at the front of the buffer.
\<close>

subsection \<open>The code\<close>

datatype EncodeStatus = EncodeOk | EncodePayloadTooLarge | EncodeOutputOverflow

record EncodeResult =
  encode_status :: EncodeStatus
  encode_size :: nat

definition kMaxFrameBeforeCobs :: nat where
  "kMaxFrameBeforeCobs = kFrameHeaderSize + kMaxPayloadSize + kFrameCrcSize"

definition max_encoded_frame_size :: "nat \<Rightarrow> nat" where
  "max_encoded_frame_size payload_size =
     cobs_encoded_max_size (kFrameHeaderSize + payload_size + kFrameCrcSize) + 1"

text \<open>The loop that copies the payload behind the header.\<close>

definition copy_payload :: "u8 list \<Rightarrow> nat \<Rightarrow> u8 list \<Rightarrow> u8 list" where
  "copy_payload payload payload_size blob =
     foldl (\<lambda>blob i. blob[kFrameHeaderSize + i := payload ! i]) blob [0..<payload_size]"

definition encode_frame ::
  "MessageType \<Rightarrow> u8 list \<Rightarrow> nat \<Rightarrow> u8 list \<Rightarrow> nat \<Rightarrow> EncodeResult \<times> u8 list" where
  "encode_frame type payload payload_size out out_capacity =
     (if payload_size > kMaxPayloadSize then
        (\<lparr>encode_status = EncodePayloadTooLarge, encode_size = 0\<rparr>, out)
      else if out_capacity = 0 then
        (\<lparr>encode_status = EncodeOutputOverflow, encode_size = 0\<rparr>, out)
      else
        let blob = replicate kMaxFrameBeforeCobs 0;
            blob = blob[0 := type];
            blob = blob[1 := of_nat payload_size];
            blob = copy_payload payload payload_size blob;
            crc_offset = kFrameHeaderSize + payload_size;
            crc = crc16 blob crc_offset;
            blob = blob[crc_offset := crc_hi crc];
            blob = blob[crc_offset + 1 := crc_lo crc];
            blob_size = crc_offset + kFrameCrcSize;
            (cobs, out) = cobs_encode blob blob_size out (out_capacity - 1)
        in if cobs_status cobs \<noteq> CobsOk then
             (\<lparr>encode_status = EncodeOutputOverflow, encode_size = 0\<rparr>, out)
           else (\<lparr>encode_status = EncodeOk, encode_size = cobs_size cobs + 1\<rparr>,
                 out[cobs_size cobs := 0]))"

subsection \<open>What a frame is\<close>

definition frame_crc :: "MessageType \<Rightarrow> u8 list \<Rightarrow> u16" where
  "frame_crc type payload =
     (let m = type # of_nat (length payload) # payload in crc16 m (length m))"

definition frame_blob :: "MessageType \<Rightarrow> u8 list \<Rightarrow> u8 list" where
  "frame_blob type payload =
     type # of_nat (length payload) # payload @
       [crc_hi (frame_crc type payload), crc_lo (frame_crc type payload)]"

definition wire_frame :: "MessageType \<Rightarrow> u8 list \<Rightarrow> u8 list" where
  "wire_frame type payload = cobs_ref [] (frame_blob type payload) @ [0]"

lemma length_frame_blob [simp]: "length (frame_blob ty pl) = length pl + 4"
  by (simp add: frame_blob_def)

lemma frame_blob_residue: "crc16 (frame_blob ty pl) (length pl + 4) = 0"
  using foldl_crc_residue [of kCrc16Init "ty # of_nat (length pl) # pl"]
  by (simp add: frame_blob_def frame_crc_def crc16_def Let_def)

lemma length_wire_frame: "length (wire_frame ty pl) \<le> max_encoded_frame_size (length pl)"
  using cobs_ref_max [of "frame_blob ty pl"]
  by (simp add: wire_frame_def max_encoded_frame_size_def kFrameHeaderSize_def kFrameCrcSize_def
      numeral_eq_Suc)

subsection \<open>The local array holds the blob\<close>

lemma copy_payload_eq:
  "n \<le> length payload \<Longrightarrow> length rest \<ge> n \<Longrightarrow>
   copy_payload payload n (h0 # h1 # rest) = h0 # h1 # take n payload @ drop n rest"
proof (induction n)
  case 0
  then show ?case by (simp add: copy_payload_def)
next
  case (Suc n)
  have "drop n rest = rest ! n # drop (Suc n) rest"
    using Suc.prems by (intro Cons_nth_drop_Suc [symmetric]) simp
  then have "(h0 # h1 # take n payload @ drop n rest)[2 + n := payload ! n] =
      h0 # h1 # (take n payload @ [payload ! n]) @ drop (Suc n) rest"
    using Suc.prems by (simp add: list_update_append)
  then show ?case
    using Suc by (simp add: copy_payload_def take_Suc_conv_app_nth kFrameHeaderSize_def)
qed

lemma crc16_append [simp]: "k \<le> length xs \<Longrightarrow> crc16 (xs @ ys) k = crc16 xs k"
  by (simp add: crc16_def)

lemma update_pair: "length xs = k \<Longrightarrow> (xs @ a # b # ys)[k := u, Suc k := v] = xs @ u # v # ys"
  by (auto simp: list_update_append)

text \<open>The array after the stores of \<open>encode_frame\<close>: the blob, then untouched zeros.\<close>

lemma encode_blob:
  fixes ty :: u8
  assumes "n \<le> 255" "n \<le> length payload"
  defines "blob1 \<equiv> copy_payload payload n ((replicate kMaxFrameBeforeCobs 0)[0 := ty, 1 := of_nat n])"
  shows "blob1[2 + n := crc_hi (crc16 blob1 (2 + n)), Suc (2 + n) := crc_lo (crc16 blob1 (2 + n))] =
     frame_blob ty (take n payload) @ replicate (255 - n) 0"
proof -
  let ?m = "ty # of_nat n # take n payload"
  have "replicate kMaxFrameBeforeCobs (0 :: u8) = 0 # 0 # replicate 257 0"
    by (simp add: kMaxFrameBeforeCobs_def kFrameHeaderSize_def kMaxPayloadSize_def kFrameCrcSize_def
        flip: replicate_Suc)
  then have "blob1 = ?m @ replicate (257 - n) 0"
    unfolding blob1_def using assms(1,2) by (simp add: copy_payload_eq)
  also have "replicate (257 - n) (0 :: u8) = 0 # 0 # replicate (255 - n) 0"
    using assms(1) by (simp add: Suc_diff_le numeral_eq_Suc flip: replicate_Suc)
  finally have b: "blob1 = ?m @ 0 # 0 # replicate (255 - n) 0" .
  have len: "length ?m = 2 + n" using assms(2) by simp
  have crc: "crc16 blob1 (2 + n) = frame_crc ty (take n payload)"
    unfolding b using len assms(2) crc16_append [of "2 + n" ?m] by (simp add: frame_crc_def Let_def)
  show ?thesis
    unfolding crc unfolding b using update_pair [OF len] assms(2) by (simp add: frame_blob_def)
qed

text \<open>\<open>encode_frame\<close> as a whole, on every branch.\<close>

lemma encode_frame_eq:
  fixes ty :: u8
  assumes "n \<le> length payload" "cap \<le> length out" "n \<le> 255" "0 < cap"
  defines "blob \<equiv> frame_blob ty (take n payload)"
  shows "encode_frame ty payload n out cap =
     (let (cobs, out') = cobs_encode (blob @ replicate (255 - n) 0) (length blob) out (cap - 1) in
      if cobs_status cobs \<noteq> CobsOk then
        (\<lparr>encode_status = EncodeOutputOverflow, encode_size = 0\<rparr>, out')
      else (\<lparr>encode_status = EncodeOk, encode_size = cobs_size cobs + 1\<rparr>,
            out'[cobs_size cobs := 0]))"
proof -
  have "length blob = 2 + n + 2" using assms(1) by (simp add: blob_def)
  then show ?thesis
    using assms(3,4) encode_blob [OF assms(3,1), of ty]
    by (simp add: encode_frame_def Let_def kFrameHeaderSize_def kFrameCrcSize_def
        kMaxPayloadSize_def blob_def numeral_eq_Suc)
qed

lemma encode_frame_ok:
  fixes ty :: u8
  assumes "n \<le> length payload" "cap \<le> length out" "n \<le> 255"
    and "length (wire_frame ty (take n payload)) \<le> cap"
  defines "fr \<equiv> wire_frame ty (take n payload)"
  shows "encode_frame ty payload n out cap =
     (\<lparr>encode_status = EncodeOk, encode_size = length fr\<rparr>, fr @ drop (length fr) out)"
proof -
  let ?blob = "frame_blob ty (take n payload)"
  let ?e = "cobs_ref [] ?blob"
  have len: "length ?e < cap" using assms(4) by (simp add: wire_frame_def)
  have "cobs_encode (?blob @ replicate (255 - n) 0) (length ?blob) out (cap - 1) =
      (cobs_ok (length ?e), ?e @ drop (length ?e) out)"
    using cobs_encode_ok [of "length ?blob" "?blob @ replicate (255 - n) 0" "cap - 1" out] len assms(2)
    by simp
  moreover have "drop (length ?e) out = out ! length ?e # drop (Suc (length ?e)) out"
    using len assms(2) by (intro Cons_nth_drop_Suc [symmetric]) simp
  ultimately show ?thesis
    using encode_frame_eq [OF assms(1-3), of ty] len
    by (simp add: fr_def wire_frame_def list_update_append)
qed

lemma encode_frame_overflow:
  assumes "n \<le> length payload" "cap \<le> length out" "n \<le> 255"
    and "cap < length (wire_frame ty (take n payload))"
  shows "fst (encode_frame ty payload n out cap) =
     \<lparr>encode_status = EncodeOutputOverflow, encode_size = 0\<rparr>"
proof (cases "cap = 0")
  case True
  then show ?thesis using assms(3) by (simp add: encode_frame_def kMaxPayloadSize_def)
next
  case False
  let ?blob = "frame_blob ty (take n payload)"
  have "fst (cobs_encode (?blob @ replicate (255 - n) 0) (length ?blob) out (cap - 1)) = cobs_overflow"
    using assms(2,4) False by (intro cobs_encode_overflow) (auto simp: wire_frame_def)
  then show ?thesis
    using encode_frame_eq [OF assms(1-3), of ty] False by (auto simp: Let_def case_prod_beta)
qed

text \<open>The idiom of every sender: a stack buffer of \<open>max_encoded_frame_size\<close> bytes, \<open>encode_frame\<close>
  into it, and the first \<open>result.size\<close> bytes on their way out when the status is \<open>kOk\<close>.\<close>

definition encoded_frame :: "MessageType \<Rightarrow> u8 list \<Rightarrow> nat \<Rightarrow> u8 list option" where
  "encoded_frame type payload cap =
     (let (result, frame) = encode_frame type payload (length payload) (replicate cap 0) cap in
      if encode_status result = EncodeOk then Some (take (encode_size result) frame) else None)"

lemma encoded_frame_wire:
  "length payload \<le> 255 \<Longrightarrow> max_encoded_frame_size (length payload) \<le> cap \<Longrightarrow>
   encoded_frame ty payload cap = Some (wire_frame ty payload)"
  using encode_frame_ok [of "length payload" payload cap "replicate cap 0" ty]
    length_wire_frame [of ty payload]
  by (simp add: encoded_frame_def)

subsection \<open>Properties\<close>

text \<open>The encoder's contract on every branch. A payload over 255 bytes is refused; otherwise the
  call succeeds exactly when the frame fits the capacity, leaves the COBS encoding of
  \<open>type | length | payload | crc\<close> followed by the delimiter at the front of the buffer and the
  rest of the buffer as it was; a capacity of \<open>max_encoded_frame_size\<close> is always enough, and the
  only \<open>0x00\<close> in the frame is its last byte.\<close>

theorem encode_frame_correct:
  assumes "n \<le> length payload" and "cap \<le> length out"
  shows "let fr = wire_frame ty (take n payload); (res, out') = encode_frame ty payload n out cap in
     if n > kMaxPayloadSize then res = \<lparr>encode_status = EncodePayloadTooLarge, encode_size = 0\<rparr>
     else length fr \<le> max_encoded_frame_size n \<and> 0 \<notin> set (butlast fr) \<and> last fr = 0 \<and>
       (if length fr \<le> cap
        then res = \<lparr>encode_status = EncodeOk, encode_size = length fr\<rparr> \<and>
          out' = fr @ drop (length fr) out
        else res = \<lparr>encode_status = EncodeOutputOverflow, encode_size = 0\<rparr>)"
proof (cases "n > kMaxPayloadSize")
  case True
  then show ?thesis by (simp add: encode_frame_def Let_def)
next
  case False
  then have n: "n \<le> 255" by (simp add: kMaxPayloadSize_def)
  have "length (wire_frame ty (take n payload)) \<le> max_encoded_frame_size n"
    using length_wire_frame [of ty "take n payload"] assms(1) by simp
  moreover have "0 \<notin> set (butlast (wire_frame ty (take n payload)))"
    using cobs_ref_no_zero [of "[]"] by (simp add: wire_frame_def)
  ultimately show ?thesis
    using False encode_frame_ok [OF assms n, of ty] encode_frame_overflow [OF assms n, of ty]
    by (auto simp: Let_def case_prod_beta wire_frame_def)
qed

theorem encode_frame_correct_witness:
  "let fr = wire_frame kHeartbeat (take 1 [0]);
       (res, out') = encode_frame kHeartbeat [0] 1 (replicate 9 7) 9 in
     if (1 :: nat) > kMaxPayloadSize
     then res = \<lparr>encode_status = EncodePayloadTooLarge, encode_size = 0\<rparr>
     else length fr \<le> max_encoded_frame_size 1 \<and> 0 \<notin> set (butlast fr) \<and> last fr = 0 \<and>
       (if length fr \<le> 9
        then res = \<lparr>encode_status = EncodeOk, encode_size = length fr\<rparr> \<and>
          out' = fr @ drop (length fr) (replicate 9 7)
        else res = \<lparr>encode_status = EncodeOutputOverflow, encode_size = 0\<rparr>)"
  by (rule encode_frame_correct) simp_all

end
