(* ===== verification/Frame_Parser.thy ===== *)
theory Frame_Parser
  imports Frame_Encoder
begin

section \<open>Frame parser (proto/frame_parser.hpp)\<close>

text \<open>
  The table-driven byte machine with its two fixed arrays, \<open>MaxPayload\<close> being the template
  argument. A \<open>ParsedFrame\<close> carries the payload bytes themselves: every consumer of the code reads
  them before the next byte is pushed, which is when the pointer would go stale.

  The abstract machine \<open>astep\<close> keeps only the bytes of the frame being collected;
  \<open>push_byte\<close> is shown to simulate it, and the stream properties are proved on it.
\<close>

subsection \<open>State\<close>

datatype ParseError = kNone | kCobsError | kBadLength | kBadCrc | kFrameTooLong

record ParsedFrame =
  pf_type :: MessageType
  pf_payload :: "u8 list"
  pf_payload_size :: nat

datatype State = kHunting | kInFrame | kSkipToDelimiter

datatype Action = kIgnore | kStart | kAppend | kComplete

fun kTable :: "State \<Rightarrow> bool \<Rightarrow> State \<times> Action" where
  "kTable kHunting False = (kInFrame, kStart)"
| "kTable kHunting True = (kHunting, kIgnore)"
| "kTable kInFrame False = (kInFrame, kAppend)"
| "kTable kInFrame True = (kHunting, kComplete)"
| "kTable kSkipToDelimiter False = (kSkipToDelimiter, kIgnore)"
| "kTable kSkipToDelimiter True = (kHunting, kIgnore)"

definition kMaxBlob :: "nat \<Rightarrow> nat" where
  "kMaxBlob MaxPayload = kFrameHeaderSize + MaxPayload + kFrameCrcSize"

definition kBufferSize :: "nat \<Rightarrow> nat" where
  "kBufferSize MaxPayload = cobs_encoded_max_size (kMaxBlob MaxPayload)"

record frame_parser =
  fp_state :: State
  fp_buffered :: nat
  fp_buffer :: "u8 list"
  fp_blob :: "u8 list"
  fp_last_error :: ParseError
  fp_frames_ok :: nat
  fp_frames_dropped :: nat

definition new_frame_parser :: "nat \<Rightarrow> frame_parser" where
  "new_frame_parser MaxPayload =
     \<lparr>fp_state = kHunting, fp_buffered = 0, fp_buffer = replicate (kBufferSize MaxPayload) 0,
      fp_blob = replicate (kMaxBlob MaxPayload) 0, fp_last_error = kNone,
      fp_frames_ok = 0, fp_frames_dropped = 0\<rparr>"

subsection \<open>Operations\<close>

definition fail :: "ParseError \<Rightarrow> frame_parser \<Rightarrow> frame_parser" where
  "fail error p = p\<lparr>fp_last_error := error, fp_frames_dropped := fp_frames_dropped p + 1\<rparr>"

definition finish_frame :: "nat \<Rightarrow> frame_parser \<Rightarrow> ParsedFrame option \<times> frame_parser" where
  "finish_frame MaxPayload p =
     (let (decoded, blob) = cobs_decode (fp_buffer p) (fp_buffered p) (fp_blob p) (kMaxBlob MaxPayload);
          p = p\<lparr>fp_blob := blob\<rparr>
      in if cobs_status decoded \<noteq> CobsOk then (None, fail kCobsError p)
         else if cobs_size decoded < kFrameHeaderSize + kFrameCrcSize then (None, fail kBadLength p)
         else
           let declared = unat (blob ! 1) in
           if cobs_size decoded \<noteq> kFrameHeaderSize + declared + kFrameCrcSize
           then (None, fail kBadLength p)
           else if crc16 blob (cobs_size decoded) \<noteq> 0 then (None, fail kBadCrc p)
           else (Some \<lparr>pf_type = blob ! 0,
                       pf_payload = take declared (drop kFrameHeaderSize blob),
                       pf_payload_size = declared\<rparr>,
                 p\<lparr>fp_frames_ok := fp_frames_ok p + 1\<rparr>))"

definition push_byte :: "nat \<Rightarrow> u8 \<Rightarrow> frame_parser \<Rightarrow> ParsedFrame option \<times> frame_parser" where
  "push_byte MaxPayload byte p =
     (let p = p\<lparr>fp_last_error := kNone\<rparr>;
          (nxt, action) = kTable (fp_state p) (byte = 0x00)
      in case action of
           kIgnore \<Rightarrow> (None, p\<lparr>fp_state := nxt\<rparr>)
         | kStart \<Rightarrow>
             (None, p\<lparr>fp_buffer := (fp_buffer p)[0 := byte], fp_buffered := 1, fp_state := nxt\<rparr>)
         | kAppend \<Rightarrow>
             if fp_buffered p = kBufferSize MaxPayload
             then (None, (fail kFrameTooLong p)\<lparr>fp_buffered := 0, fp_state := kSkipToDelimiter\<rparr>)
             else (None, p\<lparr>fp_buffer := (fp_buffer p)[fp_buffered p := byte],
                           fp_buffered := fp_buffered p + 1, fp_state := nxt\<rparr>)
         | kComplete \<Rightarrow>
             (let (completed, p) = finish_frame MaxPayload p in
              (completed, p\<lparr>fp_buffered := 0, fp_state := nxt\<rparr>)))"

text \<open>\<open>push_bytes\<close> hands every completed frame to \<open>sink\<close>, a callable that updates the state \<open>'s\<close> of
  whoever captured it; \<open>Inl\<close> is the sink leaving by an exception.\<close>

fun push_bytes ::
  "nat \<Rightarrow> (ParsedFrame \<Rightarrow> 's \<Rightarrow> 'e + 's) \<Rightarrow> u8 list \<Rightarrow> frame_parser \<Rightarrow> 's
     \<Rightarrow> 'e + frame_parser \<times> 's" where
  "push_bytes MaxPayload sink [] p s = Inr (p, s)"
| "push_bytes MaxPayload sink (b # bs) p s =
     (case push_byte MaxPayload b p of
        (None, p) \<Rightarrow> push_bytes MaxPayload sink bs p s
      | (Some frame, p) \<Rightarrow>
          (case sink frame s of
             Inl e \<Rightarrow> Inl e
           | Inr s \<Rightarrow> push_bytes MaxPayload sink bs p s))"

subsection \<open>Invariant\<close>

definition parser_ok :: "nat \<Rightarrow> frame_parser \<Rightarrow> bool" where
  "parser_ok mp p \<longleftrightarrow>
     length (fp_buffer p) = kBufferSize mp \<and> length (fp_blob p) = kMaxBlob mp \<and>
     fp_buffered p \<le> kBufferSize mp \<and> 0 \<notin> set (take (fp_buffered p) (fp_buffer p)) \<and>
     (fp_state p = kInFrame \<longleftrightarrow> fp_buffered p \<noteq> 0)"

lemma kBufferSize_pos [simp]: "0 < kBufferSize mp"
  by (simp add: kBufferSize_def cobs_encoded_max_size_def)

lemma new_parser_ok: "parser_ok mp (new_frame_parser mp)"
  by (simp add: parser_ok_def new_frame_parser_def)

lemma finish_frame_frame:
  assumes "finish_frame mp p = (f, p')"
  shows "fp_buffer p' = fp_buffer p" "length (fp_blob p') = length (fp_blob p)"
    "fp_state p' = fp_state p" "fp_buffered p' = fp_buffered p"
  using assms cobs_decode_length [of "fp_buffer p" "fp_buffered p" "fp_blob p" "kMaxBlob mp"]
  by (auto simp: finish_frame_def fail_def Let_def case_prod_beta split: if_splits)

text \<open>One equation per state and kind of byte.\<close>

lemma push_byte_hunting:
  "fp_state p = kHunting \<Longrightarrow> b \<noteq> 0 \<Longrightarrow> push_byte mp b p =
     (None, p\<lparr>fp_last_error := kNone, fp_buffer := (fp_buffer p)[0 := b], fp_buffered := 1,
              fp_state := kInFrame\<rparr>)"
  by (simp add: push_byte_def)

lemma push_byte_hunting_0:
  "fp_state p = kHunting \<Longrightarrow> push_byte mp 0 p = (None, p\<lparr>fp_last_error := kNone, fp_state := kHunting\<rparr>)"
  by (simp add: push_byte_def)

lemma push_byte_append:
  "fp_state p = kInFrame \<Longrightarrow> b \<noteq> 0 \<Longrightarrow> fp_buffered p \<noteq> kBufferSize mp \<Longrightarrow> push_byte mp b p =
     (None, p\<lparr>fp_last_error := kNone, fp_buffer := (fp_buffer p)[fp_buffered p := b],
              fp_buffered := fp_buffered p + 1, fp_state := kInFrame\<rparr>)"
  by (simp add: push_byte_def)

lemma push_byte_too_long:
  "fp_state p = kInFrame \<Longrightarrow> b \<noteq> 0 \<Longrightarrow> fp_buffered p = kBufferSize mp \<Longrightarrow> push_byte mp b p =
     (None, p\<lparr>fp_last_error := kFrameTooLong, fp_frames_dropped := fp_frames_dropped p + 1,
              fp_buffered := 0, fp_state := kSkipToDelimiter\<rparr>)"
  by (simp add: push_byte_def fail_def)

lemma push_byte_complete:
  "fp_state p = kInFrame \<Longrightarrow> finish_frame mp (p\<lparr>fp_last_error := kNone\<rparr>) = (f, p') \<Longrightarrow>
   push_byte mp 0 p = (f, p'\<lparr>fp_buffered := 0, fp_state := kHunting\<rparr>)"
  by (simp add: push_byte_def)

lemma push_byte_skip:
  "fp_state p = kSkipToDelimiter \<Longrightarrow> push_byte mp b p =
     (None, p\<lparr>fp_last_error := kNone, fp_state := (if b = 0 then kHunting else kSkipToDelimiter)\<rparr>)"
  by (simp add: push_byte_def)

lemmas push_byte_steps = push_byte_hunting push_byte_hunting_0 push_byte_append push_byte_too_long
  push_byte_skip

lemma take_Suc_update: "k < length xs \<Longrightarrow> take (Suc k) (xs[k := b]) = take k xs @ [b]"
  by (simp add: take_Suc_conv_app_nth)

lemma push_byte_complete_ok:
  assumes "parser_ok mp p" "fp_state p = kInFrame"
  shows "parser_ok mp (snd (push_byte mp 0 p))"
proof -
  obtain f p' where f: "finish_frame mp (p\<lparr>fp_last_error := kNone\<rparr>) = (f, p')" by fastforce
  show ?thesis
    using assms finish_frame_frame [OF f] by (simp add: push_byte_complete [OF assms(2) f] parser_ok_def)
qed

lemma push_byte_ok:
  assumes "parser_ok mp p"
  shows "parser_ok mp (snd (push_byte mp b p))"
proof (cases "fp_state p")
  case kHunting
  show ?thesis
  proof (cases "b = 0")
    case True
    with assms kHunting show ?thesis by (simp add: push_byte_steps parser_ok_def)
  next
    case False
    have "take (Suc 0) ((fp_buffer p)[0 := b]) = [b]"
      using assms by (subst take_Suc_update) (auto simp: parser_ok_def)
    with False assms kHunting show ?thesis by (simp add: push_byte_steps parser_ok_def Suc_le_eq)
  qed
next
  case kInFrame
  show ?thesis
  proof (cases "b = 0")
    case True
    with assms kInFrame show ?thesis by (simp add: push_byte_complete_ok)
  next
    case False
    then show ?thesis
      using assms kInFrame
      by (cases "fp_buffered p = kBufferSize mp")
        (auto simp: push_byte_steps parser_ok_def take_Suc_update)
  qed
next
  case kSkipToDelimiter
  with assms show ?thesis by (simp add: push_byte_steps parser_ok_def)
qed

subsection \<open>The abstract machine\<close>

datatype astate = Hunting | InFrame "u8 list" | Skipping

text \<open>What a buffered byte string is worth when the delimiter arrives.\<close>

definition accept_frame :: "nat \<Rightarrow> u8 list \<Rightarrow> ParseError + ParsedFrame" where
  "accept_frame mp xs =
     (case cobs_dec_ref xs of
        None \<Rightarrow> Inl kCobsError
      | Some blob \<Rightarrow>
          if length blob > mp + 4 then Inl kCobsError
          else if length blob < 4 then Inl kBadLength
          else if length blob \<noteq> unat (blob ! 1) + 4 then Inl kBadLength
          else if crc16 blob (length blob) \<noteq> 0 then Inl kBadCrc
          else Inr \<lparr>pf_type = blob ! 0, pf_payload = take (unat (blob ! 1)) (drop 2 blob),
                    pf_payload_size = unat (blob ! 1)\<rparr>)"

lemma accept_frame_bad:
  "cobs_dec_ref xs = Some blob \<Longrightarrow>
   crc16 blob (length blob) \<noteq> 0 \<or> length blob \<noteq> unat (blob ! 1) + 4 \<Longrightarrow>
   \<exists>e. accept_frame mp xs = Inl e"
  by (auto simp: accept_frame_def)

fun astep :: "nat \<Rightarrow> u8 \<Rightarrow> astate \<Rightarrow> (ParseError + ParsedFrame) option \<times> astate" where
  "astep mp b Hunting = (None, if b = 0 then Hunting else InFrame [b])"
| "astep mp b (InFrame xs) =
     (if b = 0 then (Some (accept_frame mp xs), Hunting)
      else if length xs = kBufferSize mp then (Some (Inl kFrameTooLong), Skipping)
      else (None, InFrame (xs @ [b])))"
| "astep mp b Skipping = (None, if b = 0 then Hunting else Skipping)"

definition abs_state :: "frame_parser \<Rightarrow> astate" where
  "abs_state p =
     (case fp_state p of
        kHunting \<Rightarrow> Hunting
      | kInFrame \<Rightarrow> InFrame (take (fp_buffered p) (fp_buffer p))
      | kSkipToDelimiter \<Rightarrow> Skipping)"

text \<open>How an abstract outcome shows in what \<open>push_byte\<close> returns and in the counters.\<close>

definition outcome :: "(ParseError + ParsedFrame) option \<Rightarrow> frame_parser \<Rightarrow> ParsedFrame option \<Rightarrow>
    frame_parser \<Rightarrow> bool" where
  "outcome r p f p' =
     (case r of
        None \<Rightarrow> f = None \<and> fp_last_error p' = kNone \<and>
          fp_frames_ok p' = fp_frames_ok p \<and> fp_frames_dropped p' = fp_frames_dropped p
      | Some (Inl e) \<Rightarrow> f = None \<and> fp_last_error p' = e \<and>
          fp_frames_ok p' = fp_frames_ok p \<and> fp_frames_dropped p' = fp_frames_dropped p + 1
      | Some (Inr fr) \<Rightarrow> f = Some fr \<and> fp_last_error p' = kNone \<and>
          fp_frames_ok p' = fp_frames_ok p + 1 \<and> fp_frames_dropped p' = fp_frames_dropped p)"

lemma finish_frame_refines:
  assumes ok: "parser_ok mp p" and e: "fp_last_error p = kNone"
  shows "outcome (Some (accept_frame mp (take (fp_buffered p) (fp_buffer p)))) p
     (fst (finish_frame mp p)) (snd (finish_frame mp p))"
proof -
  let ?xs = "take (fp_buffered p) (fp_buffer p)"
  have mb: "kMaxBlob mp = mp + 4"
    by (simp add: kMaxBlob_def kFrameHeaderSize_def kFrameCrcSize_def)
  have n: "fp_buffered p \<le> length (fp_buffer p)" "kMaxBlob mp \<le> length (fp_blob p)"
    using ok by (auto simp: parser_ok_def)
  let ?d = "cobs_decode (fp_buffer p) (fp_buffered p) (fp_blob p) (kMaxBlob mp)"
  show ?thesis
  proof (cases "\<exists>blob. cobs_dec_ref ?xs = Some blob \<and> length blob \<le> mp + 4")
    case True
    then obtain blob where blob: "cobs_dec_ref ?xs = Some blob" "length blob \<le> mp + 4" by blast
    then have d: "?d = (cobs_ok (length blob), blob @ drop (length blob) (fp_blob p))"
      using cobs_decode_ok [OF n blob(1)] by (simp add: mb)
    show ?thesis
    proof (cases "length blob < 4")
      case True
      with blob d e show ?thesis
        by (simp add: finish_frame_def accept_frame_def outcome_def fail_def
            kFrameHeaderSize_def kFrameCrcSize_def)
    next
      case False
      then have "(blob @ ys) ! 0 = blob ! 0" "(blob @ ys) ! 1 = blob ! 1" for ys
        by (auto simp: nth_append)
      moreover have "unat (blob ! 1) + 4 = length blob \<Longrightarrow>
          take (unat (blob ! 1)) (drop 2 (blob @ ys)) = take (unat (blob ! 1)) (drop 2 blob)" for ys
        by simp
      ultimately show ?thesis
        using False blob d e
        by (auto simp: finish_frame_def accept_frame_def outcome_def fail_def Let_def
            kFrameHeaderSize_def kFrameCrcSize_def)
    qed
  next
    case False
    then have "cobs_status (fst ?d) \<noteq> CobsOk"
      using cobs_decode_ok_iff [OF n] by (simp add: mb)
    moreover have "accept_frame mp ?xs = Inl kCobsError"
      using False by (auto simp: accept_frame_def split: option.splits)
    ultimately show ?thesis
      by (simp add: finish_frame_def outcome_def fail_def Let_def case_prod_beta)
  qed
qed

lemma push_byte_refines:
  assumes "parser_ok mp p"
  shows "abs_state (snd (push_byte mp b p)) = snd (astep mp b (abs_state p)) \<and>
     outcome (fst (astep mp b (abs_state p))) p (fst (push_byte mp b p)) (snd (push_byte mp b p))"
proof (cases "fp_state p")
  case kHunting
  moreover have "take (Suc 0) ((fp_buffer p)[0 := b]) = [b]"
    using assms by (subst take_Suc_update) (auto simp: parser_ok_def)
  ultimately show ?thesis
    by (cases "b = 0") (simp_all add: push_byte_steps abs_state_def outcome_def)
next
  case kInFrame
  show ?thesis
  proof (cases "b = 0")
    case True
    let ?p = "p\<lparr>fp_last_error := kNone\<rparr>"
    obtain f p' where f: "finish_frame mp ?p = (f, p')" by fastforce
    have "parser_ok mp ?p" using assms by (simp add: parser_ok_def)
    from finish_frame_refines [OF this] True kInFrame show ?thesis
      by (simp add: push_byte_complete [OF kInFrame f] abs_state_def f outcome_def
          split: sum.splits)
  next
    case False
    then show ?thesis
      using assms kInFrame
      by (cases "fp_buffered p = kBufferSize mp")
        (auto simp: push_byte_steps parser_ok_def take_Suc_update abs_state_def outcome_def)
  qed
next
  case kSkipToDelimiter
  then show ?thesis by (simp add: push_byte_steps abs_state_def outcome_def)
qed

subsection \<open>Streams\<close>

fun arun :: "nat \<Rightarrow> u8 list \<Rightarrow> astate \<Rightarrow> (ParseError + ParsedFrame) list \<times> astate" where
  "arun mp [] a = ([], a)"
| "arun mp (b # bs) a =
     (let (r, a') = astep mp b a; (rs, a'') = arun mp bs a' in
      ((case r of None \<Rightarrow> rs | Some x \<Rightarrow> x # rs), a''))"

lemma arun_append: "arun mp (xs @ ys) a =
    (let (rs, a') = arun mp xs a; (rs', a'') = arun mp ys a' in (rs @ rs', a''))"
  by (induction xs arbitrary: a) (auto simp: Let_def case_prod_beta split: option.splits)

text \<open>A delimiter puts the machine back to hunting from wherever it is.\<close>

lemma astep_delimiter [simp]: "snd (astep mp 0 a) = Hunting"
  by (cases a) auto

lemma arun_body:
  "0 \<notin> set ys \<Longrightarrow> length xs + length ys \<le> kBufferSize mp \<Longrightarrow> xs \<noteq> [] \<Longrightarrow>
   arun mp ys (InFrame xs) = ([], InFrame (xs @ ys))"
  by (induction ys arbitrary: xs) auto

lemma arun_skip: "0 \<notin> set ys \<Longrightarrow> arun mp ys Skipping = ([], Skipping)"
  by (induction ys) auto

lemma arun_body_long:
  "0 \<notin> set ys \<Longrightarrow> length xs \<le> kBufferSize mp \<Longrightarrow> kBufferSize mp < length xs + length ys \<Longrightarrow>
   arun mp ys (InFrame xs) = ([Inl kFrameTooLong], Skipping)"
proof (induction ys arbitrary: xs)
  case (Cons y ys)
  then show ?case
    using arun_skip [of ys mp] Cons.IH [of "xs @ [y]"] by (cases "length xs = kBufferSize mp") auto
qed simp

lemma arun_delimited:
  assumes "0 \<notin> set xs" "xs \<noteq> []"
  shows "arun mp (xs @ [0]) Hunting =
     ([if length xs \<le> kBufferSize mp then accept_frame mp xs else Inl kFrameTooLong], Hunting)"
proof (cases xs)
  case (Cons x ys)
  show ?thesis
  proof (cases "length xs \<le> kBufferSize mp")
    case True
    then have "arun mp ys (InFrame [x]) = ([], InFrame (x # ys))"
      using assms Cons arun_body [of ys "[x]" mp] by simp
    with Cons assms True show ?thesis by (simp add: arun_append Let_def)
  next
    case False
    then have "arun mp ys (InFrame [x]) = ([Inl kFrameTooLong], Skipping)"
      using assms Cons Suc_leI [OF kBufferSize_pos, of mp] arun_body_long [of ys "[x]" mp] by simp
    with Cons assms False show ?thesis by (simp add: arun_append Let_def)
  qed
qed (use assms in simp)

text \<open>The last block of an encoding is never a full one, so appending more COBS data to it puts
  exactly one zero between the two payloads.\<close>

lemma cobs_ref_join:
  "0 \<notin> set blk \<Longrightarrow> rest \<noteq> [] \<Longrightarrow> length blk \<le> 253 \<Longrightarrow>
   cobs_dec_ref (cobs_ref blk bs @ rest) =
     map_option (\<lambda>out. blk @ bs @ [0] @ out) (cobs_dec_ref rest)"
proof (induction blk bs rule: cobs_ref.induct)
  case (1 blk)
  then show ?case
    using cobs_dec_ref_block [of blk rest] by (simp del: of_nat_Suc cobs_dec_ref.simps)
next
  case (2 blk b bs)
  show ?case
  proof (cases "b = 0 \<or> length blk \<noteq> 253")
    case True
    then show ?thesis
      using 2 cobs_dec_ref_block [of blk "cobs_ref [] bs @ rest"]
      by (auto simp: option.map_comp comp_def simp del: of_nat_Suc cobs_dec_ref.simps)
  next
    case False
    then have "cobs_ref blk (b # bs) = of_nat (length (blk @ [b]) + 1) # (blk @ [b]) @ cobs_ref [] bs"
      by simp
    then show ?thesis
      using 2 False cobs_dec_ref_block [of "blk @ [b]" "cobs_ref [] bs @ rest"]
      by (simp add: option.map_comp comp_def del: of_nat_Suc cobs_dec_ref.simps cobs_ref.simps)
  qed
qed

definition frame_of :: "MessageType \<Rightarrow> u8 list \<Rightarrow> ParsedFrame" where
  "frame_of ty pl = \<lparr>pf_type = ty, pf_payload = pl, pf_payload_size = length pl\<rparr>"

lemma accept_wire_frame:
  assumes "length pl \<le> mp" "length pl \<le> 255"
  shows "accept_frame mp (cobs_ref [] (frame_blob ty pl)) = Inr (frame_of ty pl)"
proof -
  have 1: "unat (frame_blob ty pl ! 1) = length pl"
    using assms(2) by (simp add: frame_blob_def unat_of_nat)
  then show ?thesis
    using assms cobs_ref_roundtrip [of "[]" "frame_blob ty pl"] frame_blob_residue [of ty pl]
    by (simp add: accept_frame_def frame_of_def) (simp add: frame_blob_def)
qed

lemma arun_wire_frame:
  assumes "length pl \<le> mp" "length pl \<le> 255"
  shows "arun mp (wire_frame ty pl) Hunting = ([Inr (frame_of ty pl)], Hunting)"
proof -
  let ?e = "cobs_ref [] (frame_blob ty pl)"
  have "length ?e \<le> kBufferSize mp"
    using cobs_ref_max [of "frame_blob ty pl"] assms(1)
    by (auto simp: kBufferSize_def kMaxBlob_def kFrameHeaderSize_def kFrameCrcSize_def
        cobs_encoded_max_size_def intro!: add_mono div_le_mono elim!: order_trans)
  then show ?thesis
    using arun_delimited [of ?e mp] cobs_ref_no_zero [of "[]"] cobs_ref_nonempty [of "[]"] assms
    by (simp add: wire_frame_def accept_wire_frame)
qed

lemma arun_wire_frames:
  assumes "\<forall>(ty, pl) \<in> set ms. length pl \<le> mp \<and> length pl \<le> 255"
  shows "arun mp (concat (map (\<lambda>(ty, pl). wire_frame ty pl) ms)) Hunting =
     (map (\<lambda>(ty, pl). Inr (frame_of ty pl)) ms, Hunting)"
  using assms
proof (induction ms)
  case (Cons m ms)
  obtain ty pl where m: "m = (ty, pl)" by (cases m)
  show ?case using Cons m by (simp add: arun_append arun_wire_frame)
qed simp

text \<open>The code's \<open>push_bytes\<close> folds its sink over the frames the abstract run accepts.\<close>

definition accepted :: "(ParseError + ParsedFrame) list \<Rightarrow> ParsedFrame list" where
  "accepted rs = List.map_filter (\<lambda>r. case r of Inl _ \<Rightarrow> None | Inr f \<Rightarrow> Some f) rs"

lemma accepted_simps [simp]:
  "accepted [] = []" "accepted (Inl e # rs) = accepted rs" "accepted (Inr f # rs) = f # accepted rs"
  "accepted (map (\<lambda>x. Inr (g x)) xs) = map g xs"
  by (simp_all add: accepted_def map_filter_simps) (induction xs; simp add: map_filter_simps)

lemma accepted_append [simp]: "accepted (rs @ ss) = accepted rs @ accepted ss"
  by (simp add: accepted_def map_filter_def)

lemma push_bytes_refines:
  assumes "parser_ok mp p"
  shows "case push_bytes mp sink bs p s of
       Inl e \<Rightarrow> fold_res sink (accepted (fst (arun mp bs (abs_state p)))) s = Inl e
     | Inr (p', s') \<Rightarrow> fold_res sink (accepted (fst (arun mp bs (abs_state p)))) s = Inr s' \<and>
         abs_state p' = snd (arun mp bs (abs_state p)) \<and> parser_ok mp p' \<and>
         fp_frames_ok p' = fp_frames_ok p + length (accepted (fst (arun mp bs (abs_state p)))) \<and>
         fp_frames_ok p' + fp_frames_dropped p' =
           fp_frames_ok p + fp_frames_dropped p + length (fst (arun mp bs (abs_state p)))"
  using assms
proof (induction bs arbitrary: p s)
  case (Cons b bs)
  obtain f p1 where f: "push_byte mp b p = (f, p1)" by fastforce
  obtain r a where r: "astep mp b (abs_state p) = (r, a)" by fastforce
  have p1: "parser_ok mp p1" using push_byte_ok [OF Cons.prems, of b] f by simp
  have sim: "abs_state p1 = a" "outcome r p f p1"
    using push_byte_refines [OF Cons.prems, of b] f r by auto
  show ?case
  proof (cases f)
    case None
    then show ?thesis
      using Cons.IH [OF p1, of s] f r sim
      by (auto simp: outcome_def Let_def case_prod_beta split: option.splits sum.splits)
  next
    case (Some fr)
    then have "r = Some (Inr fr)" "fp_frames_ok p1 = fp_frames_ok p + 1"
        "fp_frames_dropped p1 = fp_frames_dropped p"
      using sim(2) by (auto simp: outcome_def split: option.splits sum.splits)
    note r' = this
    show ?thesis
    proof (cases "sink fr s")
      case (Inr s1)
      then show ?thesis
        using Cons.IH [OF p1, of s1] f r sim(1) Some r'
        by (auto simp: Let_def case_prod_beta split: sum.splits)
    qed (use f r Some r' in \<open>simp add: Let_def case_prod_beta\<close>)
  qed
qed simp

text \<open>Collecting the frames: the sink that appends to a list.\<close>

definition collect :: "ParsedFrame \<Rightarrow> ParsedFrame list \<Rightarrow> unit + ParsedFrame list" where
  "collect f fs = Inr (fs @ [f])"

lemma fold_collect: "fold_res collect fs acc = Inr (acc @ fs)"
  by (induction fs arbitrary: acc) (auto simp: collect_def)

lemma length_accepted: "length (accepted rs) \<le> length rs"
  by (induction rs) (auto simp: accepted_def map_filter_simps split: sum.splits)

lemma push_bytes_collect:
  assumes "parser_ok mp p" "arun mp bs (abs_state p) = (rs, a)"
  shows "\<exists>p'. push_bytes mp collect bs p acc = Inr (p', acc @ accepted rs) \<and>
     abs_state p' = a \<and> parser_ok mp p' \<and>
     fp_frames_ok p' = fp_frames_ok p + length (accepted rs) \<and>
     fp_frames_dropped p' = fp_frames_dropped p + (length rs - length (accepted rs))"
  using push_bytes_refines [OF assms(1), of collect bs acc] assms(2) length_accepted [of rs]
  by (auto simp: fold_collect split: sum.splits)

lemma abs_state_hunting: "abs_state p = Hunting \<longleftrightarrow> fp_state p = kHunting"
  by (auto simp: abs_state_def split: State.splits)

subsection \<open>Properties\<close>

text \<open>C1: the link is lossless and order-preserving. Encode any sequence of messages with
  \<open>encode_frame\<close>, each payload at most \<open>MaxPayload\<close> bytes, and push the concatenated bytes
  into a parser that is between frames: the sink receives exactly those messages, in order,
  nothing is dropped, and the parser is between frames again.\<close>

theorem stream_roundtrip:
  assumes "parser_ok mp p" and "fp_state p = kHunting" and "mp \<le> 255"
    and "\<forall>(ty, pl) \<in> set ms. length pl \<le> mp"
  shows "\<exists>sent p'.
     map (\<lambda>(ty, pl). encoded_frame ty pl (max_encoded_frame_size (length pl))) ms = map Some sent \<and>
     push_bytes mp collect (concat sent) p [] = Inr (p', map (\<lambda>(ty, pl). frame_of ty pl) ms) \<and>
     fp_state p' = kHunting \<and> fp_frames_ok p' = fp_frames_ok p + length ms \<and>
     fp_frames_dropped p' = fp_frames_dropped p"
proof -
  let ?sent = "map (\<lambda>(ty, pl). wire_frame ty pl) ms"
  have small: "\<forall>(ty, pl) \<in> set ms. length pl \<le> mp \<and> length pl \<le> 255"
    using assms(3,4) by fastforce
  then have "map (\<lambda>(ty, pl). encoded_frame ty pl (max_encoded_frame_size (length pl))) ms =
      map Some ?sent"
    by (auto simp: encoded_frame_wire)
  moreover have "arun mp (concat ?sent) (abs_state p) = (map (\<lambda>m. Inr (frame_of (fst m) (snd m))) ms, Hunting)"
    using arun_wire_frames [OF small] assms(2)
    by (simp add: abs_state_hunting [symmetric] case_prod_beta)
  note push_bytes_collect [OF assms(1) this, of "[]"]
  ultimately show ?thesis
    by (intro exI [of _ ?sent]) (auto simp: abs_state_hunting case_prod_beta)
qed

theorem stream_roundtrip_witness:
  "\<exists>sent p'.
     map (\<lambda>(ty, pl). encoded_frame ty pl (max_encoded_frame_size (length pl)))
       [(kHeartbeat, [1, 0]), (kSample, [])] = map Some sent \<and>
     push_bytes 255 collect (concat sent) (new_frame_parser 255) [] =
       Inr (p', map (\<lambda>(ty, pl). frame_of ty pl) [(kHeartbeat, [1, 0]), (kSample, [])]) \<and>
     fp_state p' = kHunting \<and>
     fp_frames_ok p' = fp_frames_ok (new_frame_parser 255) + length [(kHeartbeat, [1, 0 :: u8]), (kSample, [])] \<and>
     fp_frames_dropped p' = fp_frames_dropped (new_frame_parser 255)"
  by (rule stream_roundtrip [OF new_parser_ok]) (simp_all add: new_frame_parser_def)

text \<open>C8: resynchronisation. Whatever state the parser is in and whatever bytes arrive, after the
  next delimiter the following intact frame is delivered: corruption inside one frame never costs
  the next one.\<close>

theorem resynchronise:
  assumes "parser_ok mp p" and "length pl \<le> mp" and "mp \<le> 255"
  shows "\<exists>p' fs. push_bytes mp collect (garbage @ [0] @ wire_frame ty pl) p [] =
       Inr (p', fs @ [frame_of ty pl]) \<and> fp_state p' = kHunting"
proof -
  obtain rs a where g: "arun mp (garbage @ [0]) (abs_state p) = (rs, a)" by fastforce
  have "a = Hunting"
    using g by (auto simp: arun_append Let_def case_prod_beta)
  then have "arun mp ((garbage @ [0]) @ wire_frame ty pl) (abs_state p) =
      (rs @ [Inr (frame_of ty pl)], Hunting)"
    using arun_wire_frame [of pl mp ty] assms(2,3)
    by (simp only: arun_append [of mp "garbage @ [0]"] g) simp
  from push_bytes_collect [OF assms(1) this, of "[]"] show ?thesis
    by (auto simp: abs_state_hunting)
qed

theorem resynchronise_witness:
  "\<exists>p' fs. push_bytes 255 collect ([7, 9, 9] @ [0] @ wire_frame kHeartbeat [1, 2]) (new_frame_parser 255) [] =
       Inr (p', fs @ [frame_of kHeartbeat [1, 2]]) \<and> fp_state p' = kHunting"
  by (rule resynchronise) (simp_all add: new_parser_ok)

text \<open>C19: the parser's buffers are safe and the table machine implements its specification. From a
  well-formed state one \<open>push_byte\<close> leads to a well-formed state (indices inside the arrays,
  only non-zero bytes buffered, bytes buffered exactly while inside a frame), takes the abstract
  step, and returns the frame, sets the error and moves the counters as that step says.\<close>

theorem push_byte_simulates:
  assumes "parser_ok mp p"
  shows "parser_ok mp (snd (push_byte mp b p)) \<and>
     abs_state (snd (push_byte mp b p)) = snd (astep mp b (abs_state p)) \<and>
     outcome (fst (astep mp b (abs_state p))) p (fst (push_byte mp b p)) (snd (push_byte mp b p))"
  using push_byte_ok [OF assms] push_byte_refines [OF assms] by blast

theorem push_byte_simulates_witness:
  "parser_ok 8 (snd (push_byte 8 3 (new_frame_parser 8))) \<and>
     abs_state (snd (push_byte 8 3 (new_frame_parser 8))) = snd (astep 8 3 (abs_state (new_frame_parser 8))) \<and>
     outcome (fst (astep 8 3 (abs_state (new_frame_parser 8)))) (new_frame_parser 8)
       (fst (push_byte 8 3 (new_frame_parser 8))) (snd (push_byte 8 3 (new_frame_parser 8)))"
  by (rule push_byte_simulates) (rule new_parser_ok)

text \<open>Nothing but a checked frame is delivered. If a byte completes a frame, the byte is the
  delimiter, the buffered bytes are COBS data of a blob with residue 0 whose length field is the
  payload's size, and what is delivered is the blob's type and payload, at most \<open>MaxPayload\<close>
  bytes.\<close>

theorem delivered_frames_checked:
  assumes "parser_ok mp p" and "push_byte mp b p = (Some f, p')"
  shows "b = 0 \<and> (\<exists>blob. cobs_dec_ref (take (fp_buffered p) (fp_buffer p)) = Some blob \<and>
     crc16 blob (length blob) = 0 \<and> length blob = pf_payload_size f + 4 \<and>
     blob ! 0 = pf_type f \<and> unat (blob ! 1) = pf_payload_size f \<and>
     pf_payload f = take (pf_payload_size f) (drop 2 blob) \<and> pf_payload_size f \<le> mp)"
proof -
  obtain r a where r: "astep mp b (abs_state p) = (r, a)" by fastforce
  then have acc: "r = Some (Inr f)"
    using push_byte_refines [OF assms(1), of b] assms(2)
    by (auto simp: outcome_def split: option.splits sum.splits)
  then obtain xs where "abs_state p = InFrame xs" "b = 0" "accept_frame mp xs = Inr f"
    using r by (cases "abs_state p") (auto split: if_splits)
  then show ?thesis
    by (auto simp: abs_state_def accept_frame_def split: State.splits option.splits if_splits)
qed

theorem delivered_frames_checked_witness:
  "(0 :: u8) = 0 \<and>
   (\<exists>blob. cobs_dec_ref (take 5 [2, 5, 3, 226, 250]) = Some blob \<and>
     crc16 blob (length blob) = 0 \<and> length blob = pf_payload_size (frame_of 5 []) + 4 \<and>
     blob ! 0 = pf_type (frame_of 5 []) \<and> unat (blob ! 1) = pf_payload_size (frame_of 5 []) \<and>
     pf_payload (frame_of 5 []) = take (pf_payload_size (frame_of 5 [])) (drop 2 blob) \<and>
     pf_payload_size (frame_of 5 []) \<le> 0)"
proof -
  define p where "p = (new_frame_parser 0)\<lparr>fp_state := kInFrame, fp_buffered := 5,
    fp_buffer := [2, 5, 3, 226, 250]\<rparr>"
  have ok: "parser_ok 0 p"
    by (simp add: p_def parser_ok_def new_frame_parser_def kBufferSize_def kMaxBlob_def
        kFrameHeaderSize_def kFrameCrcSize_def cobs_encoded_max_size_def)
  have "fst (push_byte 0 0 p) = Some (frame_of 5 [])"
    unfolding p_def by code_simp
  then obtain p' where "push_byte 0 0 p = (Some (frame_of 5 []), p')"
    by (metis prod.collapse)
  from delivered_frames_checked [OF ok this] show ?thesis
    by (simp add: p_def)
qed

text \<open>C31: burst errors do not get through. If the bytes buffered at a delimiter are COBS data of a
  blob that differs from a genuine frame's blob only inside a window of at most 16 bits, the frame
  is dropped and counted.\<close>

theorem corrupted_frame_dropped:
  assumes "parser_ok mp p" and "fp_state p = kInFrame"
    and "cobs_dec_ref (take (fp_buffered p) (fp_buffer p)) = Some blob"
    and "message_bits (frame_blob ty pl) = pre @ x @ suf" and "message_bits blob = pre @ y @ suf"
    and "length x = length y" and "length x \<le> 16" and "x \<noteq> y"
  shows "fst (push_byte mp 0 p) = None \<and>
     fp_frames_dropped (snd (push_byte mp 0 p)) = fp_frames_dropped p + 1"
proof -
  have "crc16 (frame_blob ty pl) (length (frame_blob ty pl)) \<noteq> crc16 blob (length blob)"
    unfolding crc16_def using feed_burst [OF assms(6-8), of kCrc16Init pre suf]
    by (simp add: crc16_message_bits assms(4,5))
  then have "crc16 blob (length blob) \<noteq> 0"
    using frame_blob_residue [of ty pl] by simp
  then have "\<exists>e. accept_frame mp (take (fp_buffered p) (fp_buffer p)) = Inl e"
    using accept_frame_bad [OF assms(3)] by blast
  then show ?thesis
    using push_byte_refines [OF assms(1), of 0] assms(2)
    by (auto simp: abs_state_def outcome_def)
qed

theorem corrupted_frame_dropped_witness:
  "let p = (new_frame_parser 0)\<lparr>fp_state := kInFrame, fp_buffered := 5,
      fp_buffer := [2, 4, 3, 226, 250]\<rparr> in
   fst (push_byte 0 0 p) = None \<and>
     fp_frames_dropped (snd (push_byte 0 0 p)) = fp_frames_dropped p + 1"
proof -
  define p where "p = (new_frame_parser 0)\<lparr>fp_state := kInFrame, fp_buffered := 5,
    fp_buffer := [2, 4, 3, 226, 250]\<rparr>"
  have ok: "parser_ok 0 p" "fp_state p = kInFrame"
    by (simp_all add: p_def parser_ok_def new_frame_parser_def kBufferSize_def kMaxBlob_def
        kFrameHeaderSize_def kFrameCrcSize_def cobs_encoded_max_size_def)
  have dec: "cobs_dec_ref (take (fp_buffered p) (fp_buffer p)) = Some [4, 0, 226, 250]"
    unfolding p_def by code_simp
  have blob: "frame_blob 5 [] = [5, 0, 226, 250]" by code_simp
  have 1: "message_bits (frame_blob 5 []) =
      take 7 (byte_bits 5) @ [True] @ message_bits [0, 226, 250]"
    unfolding blob by code_simp
  have 2: "message_bits [4, 0, 226, 250] =
      take 7 (byte_bits 5) @ [False] @ message_bits [0, 226, 250]"
    by code_simp
  show ?thesis
    using corrupted_frame_dropped [OF ok dec 1 2] by (simp add: p_def Let_def)
qed

text \<open>C34: losing a delimiter costs two frames. If the \<open>0x00\<close> between two intact frames is lost, the
  parser takes their bytes for one frame, which never passes the length check: neither frame is
  delivered.\<close>

theorem lost_delimiter_drops_both:
  assumes "parser_ok mp p" and "fp_state p = kHunting" and "length pl1 \<le> 255"
  shows "\<exists>p'. push_bytes mp collect (butlast (wire_frame ty1 pl1) @ wire_frame ty2 pl2) p [] =
       Inr (p', []) \<and> fp_state p' = kHunting \<and>
     fp_frames_ok p' = fp_frames_ok p \<and> fp_frames_dropped p' = fp_frames_dropped p + 1"
proof -
  let ?b1 = "frame_blob ty1 pl1" and ?b2 = "frame_blob ty2 pl2"
  let ?xs = "cobs_ref [] ?b1 @ cobs_ref [] ?b2"
  have dec: "cobs_dec_ref ?xs = Some (?b1 @ [0] @ ?b2)"
    using cobs_ref_join [of "[]" "cobs_ref [] ?b2" ?b1] cobs_ref_roundtrip [of "[]" ?b2]
      cobs_ref_nonempty [of "[]" ?b2] by simp
  have "unat ((?b1 @ [0] @ ?b2) ! 1) = length pl1"
    using assms(3) by (simp add: frame_blob_def unat_of_nat)
  then obtain e where "accept_frame mp ?xs = Inl e"
    using accept_frame_bad [OF dec] by auto
  moreover have "0 \<notin> set ?xs" "?xs \<noteq> []"
    using cobs_ref_no_zero [of "[]"] cobs_ref_nonempty [of "[]"] by auto
  ultimately obtain e' where "arun mp (?xs @ [0]) (abs_state p) = ([Inl e'], Hunting)"
    using arun_delimited [of ?xs mp] assms(2) by (simp add: abs_state_hunting [symmetric] split: if_splits)
  from push_bytes_collect [OF assms(1) this, of "[]"] show ?thesis
    by (auto simp: wire_frame_def abs_state_hunting)
qed

theorem lost_delimiter_drops_both_witness:
  "\<exists>p'. push_bytes 255 collect (butlast (wire_frame kHeartbeat [1]) @ wire_frame kSample [2])
        (new_frame_parser 255) [] = Inr (p', []) \<and> fp_state p' = kHunting \<and>
     fp_frames_ok p' = fp_frames_ok (new_frame_parser 255) \<and>
     fp_frames_dropped p' = fp_frames_dropped (new_frame_parser 255) + 1"
  by (rule lost_delimiter_drops_both [OF new_parser_ok]) (simp_all add: new_frame_parser_def)

end
