(* ===== verification/Ingest.thy ===== *)
theory Ingest
  imports Store Frame_Parser
begin

section \<open>Device connections (server/ingest.hpp, ingest.cpp)\<close>

text \<open>
  One ingest per device: the frame parser, the session once HELLO has arrived, and the handlers,
  which reach the device's own connection (by its descriptor) and the store in the \<open>hub\<close>.
\<close>

record ingest =
  ing_session_id :: u16
  ing_parser :: frame_parser
  ing_session :: "device_session option"

definition new_ingest :: "u16 \<Rightarrow> ingest" where
  "new_ingest session_id =
     \<lparr>ing_session_id = session_id, ing_parser = new_frame_parser kMaxPayloadSize, ing_session = None\<rparr>"

definition has_session :: "ingest \<Rightarrow> bool" where
  "has_session g \<longleftrightarrow> ing_session g \<noteq> None"

definition on_conn ::
  "fd \<Rightarrow> (connection \<Rightarrow> 'k \<Rightarrow> server_error + connection \<times> 'k) \<Rightarrow> ('k, 'cb, 'tcb, 'z) hub_scheme
     \<Rightarrow> server_error + ('k, 'cb, 'tcb, 'z) hub_scheme" where
  "on_conn fd f w =
     (case hub_conns w fd of
        None \<Rightarrow> Inl Dangling_Pointer
      | Some c \<Rightarrow> and_then (f c (el_kernel w)) (\<lambda>(c, k).
          Inr (w\<lparr>hub_conns := (hub_conns w)(fd \<mapsto> c), el_kernel := k\<rparr>)))"

definition send_frame ::
  "'k os \<Rightarrow> fd \<Rightarrow> MessageType \<Rightarrow> u8 list \<Rightarrow> ('k, 'cb, 'tcb, 'z) hub_scheme
     \<Rightarrow> server_error + ('k, 'cb, 'tcb, 'z) hub_scheme" where
  "send_frame os fd type payload w =
     (case encoded_frame type payload (max_encoded_frame_size kMaxPayloadSize) of
        None \<Rightarrow> Inr w
      | Some out \<Rightarrow> on_conn fd (enqueue_write os out) w)"

definition ing_handle_heartbeat ::
  "'k os \<Rightarrow> HeartbeatPayload \<Rightarrow> ingest \<times> ('k, 'cb, 'tcb, 'z) hub_scheme
     \<Rightarrow> server_error + ingest \<times> ('k, 'cb, 'tcb, 'z) hub_scheme" where
  "ing_handle_heartbeat os payload = (\<lambda>(g, w).
     case ing_session g of
       None \<Rightarrow> Inr (g, w)
     | Some s \<Rightarrow>
         (case el_now os w of (now, w) \<Rightarrow>
            Inr (g\<lparr>ing_session := Some (note_uptime (heartbeat_uptime_ms payload) (note_activity now s))\<rparr>, w)))"

definition ing_handle_sample ::
  "'k os \<Rightarrow> SamplePayload \<Rightarrow> ingest \<times> ('k, 'cb, 'tcb, 'z) hub_scheme
     \<Rightarrow> server_error + ingest \<times> ('k, 'cb, 'tcb, 'z) hub_scheme" where
  "ing_handle_sample os payload = (\<lambda>(g, w).
     case ing_session g of
       None \<Rightarrow> Inr (g, w)
     | Some s \<Rightarrow>
         (case el_now os w of (now, w) \<Rightarrow>
          let s = note_uptime (sample_timestamp_ms payload) (note_activity now s) in
          and_then (store_record os (ds_session_id s) (sample_metric_id payload)
              (sample_value_milli payload) (sample_timestamp_ms payload) now w)
            (\<lambda>w. Inr (g\<lparr>ing_session := Some s\<rparr>, w))))"

definition ing_handle_hello ::
  "'k os \<Rightarrow> fd \<Rightarrow> HelloPayload \<Rightarrow> ingest \<times> ('k, 'cb, 'tcb, 'z) hub_scheme
     \<Rightarrow> server_error + ingest \<times> ('k, 'cb, 'tcb, 'z) hub_scheme" where
  "ing_handle_hello os fd payload = (\<lambda>(g, w).
     case el_now os w of (now, w) \<Rightarrow>
     case ds_handle_hello payload (new_device_session (ing_session_id g) now) of (config, s) \<Rightarrow>
       and_then (send_frame os fd kConfig (config_bytes config) w)
         (\<lambda>w. Inr (g\<lparr>ing_session := Some s\<rparr>, w)))"

definition send_slow_down ::
  "'k os \<Rightarrow> fd \<Rightarrow> u8 \<Rightarrow> ingest \<times> ('k, 'cb, 'tcb, 'z) hub_scheme
     \<Rightarrow> server_error + ingest \<times> ('k, 'cb, 'tcb, 'z) hub_scheme" where
  "send_slow_down os fd new_rate_hz = (\<lambda>(g, w).
     case ing_session g of
       None \<Rightarrow> Inr (g, w)
     | Some s \<Rightarrow>
         (case slow_down new_rate_hz s of (payload, s) \<Rightarrow>
            and_then (send_frame os fd kSlowDown (slow_down_bytes payload) w)
              (\<lambda>w. Inr (g\<lparr>ing_session := Some s\<rparr>, w))))"

definition ing_dispatch ::
  "'k os \<Rightarrow> fd \<Rightarrow> ParsedFrame \<Rightarrow> ingest \<times> ('k, 'cb, 'tcb, 'z) hub_scheme
     \<Rightarrow> server_error + ingest \<times> ('k, 'cb, 'tcb, 'z) hub_scheme" where
  "ing_dispatch os fd frame x =
     (if pf_type frame = kHello then
        if pf_payload_size frame = sizeof_HelloPayload
        then ing_handle_hello os fd (hello_of_bytes (pf_payload frame)) x else Inr x
      else if pf_type frame = kHeartbeat then
        if pf_payload_size frame = sizeof_HeartbeatPayload
        then ing_handle_heartbeat os (heartbeat_of_bytes (pf_payload frame)) x else Inr x
      else if pf_type frame = kSample then
        if pf_payload_size frame = sizeof_SamplePayload
        then ing_handle_sample os (sample_of_bytes (pf_payload frame)) x else Inr x
      else Inr x)"

definition ing_on_readable ::
  "'k os \<Rightarrow> fd \<Rightarrow> ingest \<times> ('k, 'cb, 'tcb, 'z) hub_scheme
     \<Rightarrow> server_error + ingest \<times> ('k, 'cb, 'tcb, 'z) hub_scheme" where
  "ing_on_readable os fd = (\<lambda>(g, w).
     case hub_conns w fd of
       None \<Rightarrow> Inl Dangling_Pointer
     | Some c \<Rightarrow>
         let bytes = cn_read_buffer c in
         if bytes = [] then Inr (g, w)
         else
           and_then (push_bytes kMaxPayloadSize (ing_dispatch os fd) bytes (ing_parser g) (g, w)) (\<lambda>(p, g, w).
           and_then (on_conn fd (\<lambda>c k. and_then (consume (length bytes) c) (\<lambda>c. Inr (c, k))) w) (\<lambda>w.
             Inr (g\<lparr>ing_parser := p\<rparr>, w))))"

subsection \<open>Frames arriving\<close>

lemma push_bytes_frames:
  assumes "parser_ok mp p" "fp_state p = kHunting" "mp \<le> 255" "\<forall>(ty, pl) \<in> set ms. length pl \<le> mp"
  shows "\<exists>p'. parser_ok mp p' \<and> fp_state p' = kHunting \<and>
     push_bytes mp sink (concat (map (\<lambda>(ty, pl). wire_frame ty pl) ms)) p s =
       and_then (fold_res sink (map (\<lambda>(ty, pl). frame_of ty pl) ms) s) (\<lambda>s. Inr (p', s))"
proof -
  let ?bs = "concat (map (\<lambda>(ty, pl). wire_frame ty pl) ms)"
  have run: "arun mp ?bs (abs_state p) = (map (\<lambda>(ty, pl). Inr (frame_of ty pl)) ms, Hunting)"
    using arun_wire_frames [of ms mp] assms(2-4) by (force simp: abs_state_hunting [symmetric])
  have acc: "accepted (map (\<lambda>(ty, pl). Inr (frame_of ty pl)) ms) = map (\<lambda>(ty, pl). frame_of ty pl) ms"
    by (induction ms) auto
  show ?thesis
  proof (cases "push_bytes mp sink ?bs p s")
    case (Inl e)
    then show ?thesis
      using push_bytes_refines [OF assms(1), of sink ?bs s] run acc assms(1,2) by auto
  next
    case (Inr x)
    then obtain p' s' where x: "x = (p', s')" by (cases x)
    then show ?thesis
      using push_bytes_refines [OF assms(1), of sink ?bs s] run acc Inr
      by (auto simp: abs_state_hunting)
  qed
qed

lemma on_conn_keeps:
  assumes "on_conn fd f w = Inr w'" "\<And>c k c' k'. f c k = Inr (c', k') \<Longrightarrow> conn_same c c'"
  shows "keeps w w'"
  using assms by (auto simp: on_conn_def and_then_Inr keeps_def rel_option_reflI split: option.splits)

lemma enqueue_write_same: "enqueue_write os data c k = Inr (c', k') \<Longrightarrow> conn_same c c'"
  by (auto simp: enqueue_write_Inr conn_same_def)

lemma send_frame_keeps: "send_frame os fd ty pl w = Inr w' \<Longrightarrow> keeps w w'"
  by (auto simp: send_frame_def split: option.splits elim!: on_conn_keeps intro: enqueue_write_same)

lemma el_now_keeps: "el_now os w = (now, w') \<Longrightarrow> keeps w w'"
  by (auto simp: el_now_def split: prod.splits)

lemma handle_hello_keeps: "ing_handle_hello os fd h (g, w) = Inr (g', w') \<Longrightarrow> keeps w w'"
  by (auto simp: ing_handle_hello_def and_then_Inr split: prod.splits
      dest!: el_now_keeps send_frame_keeps intro: keeps_trans)

lemma handle_sample_keeps: "ing_handle_sample os s (g, w) = Inr (g', w') \<Longrightarrow> keeps w w'"
  by (auto simp: ing_handle_sample_def and_then_Inr Let_def split: prod.splits option.splits
      dest!: el_now_keeps store_record_keeps intro: keeps_trans)

lemma handle_heartbeat_keeps: "ing_handle_heartbeat os b (g, w) = Inr (g', w') \<Longrightarrow> keeps w w'"
  by (auto simp: ing_handle_heartbeat_def split: prod.splits option.splits dest!: el_now_keeps)

lemma send_slow_down_keeps: "send_slow_down os fd r (g, w) = Inr (g', w') \<Longrightarrow> keeps w w'"
  by (auto simp: send_slow_down_def and_then_Inr split: prod.splits option.splits dest!: send_frame_keeps)

lemma dispatch_keeps: "ing_dispatch os fd fr (g, w) = Inr (g', w') \<Longrightarrow> keeps w w'"
  by (auto simp: ing_dispatch_def split: if_splits
      dest: handle_hello_keeps handle_sample_keeps handle_heartbeat_keeps)

lemma dispatch_all_keeps:
  assumes "fold_res (ing_dispatch os fd) frs (g, w) = Inr (g', w')"
  shows "keeps w w'"
proof -
  have "keeps w (snd (g', w'))"
    by (rule fold_res_invariant [OF assms]) (auto intro: keeps_trans [OF _ dispatch_keeps])
  then show ?thesis by simp
qed

lemma encoded_config:
  "encoded_frame ty pl (max_encoded_frame_size kMaxPayloadSize) = Some (wire_frame ty pl)"
  if "length pl \<le> 255"
proof -
  have "max_encoded_frame_size (length pl) \<le> max_encoded_frame_size kMaxPayloadSize"
    using that by (auto simp: max_encoded_frame_size_def cobs_encoded_max_size_def kMaxPayloadSize_def
        intro!: add_mono div_le_mono)
  then show ?thesis using that by (intro encoded_frame_wire)
qed

lemma dispatch_simps:
  "ing_dispatch os fd (frame_of kHello (hello_bytes h)) x = ing_handle_hello os fd h x"
  "ing_dispatch os fd (frame_of kHeartbeat (heartbeat_bytes b)) x = ing_handle_heartbeat os b x"
  "in_i32 (sample_value_milli s) \<Longrightarrow>
     ing_dispatch os fd (frame_of kSample (sample_bytes s)) x = ing_handle_sample os s x"
  by (simp_all add: ing_dispatch_def frame_of_def hello_wire.length_enc heartbeat_wire.length_enc
      sample_wire.length_enc hello_wire.dec_enc heartbeat_wire.dec_enc sample_wire.dec_enc message_type_defs)

text \<open>Emptying the receive buffer of one connection.\<close>

definition drained :: "fd \<Rightarrow> ('k, 'cb, 'tcb, 'z) hub_scheme \<Rightarrow> ('k, 'cb, 'tcb, 'z) hub_scheme" where
  "drained fd w = w\<lparr>hub_conns := (hub_conns w)(fd :=
     map_option (\<lambda>c. c\<lparr>cn_read_buffer := []\<rparr>) (hub_conns w fd))\<rparr>"

lemma on_conn_consume:
  assumes "hub_conns w fd = Some c" "length (cn_read_buffer c) = n"
  shows "on_conn fd (\<lambda>c k. and_then (consume n c) (\<lambda>c. Inr (c, k))) w = Inr (drained fd w)"
  using assms by (simp add: on_conn_def consume_def drained_def)

lemma on_readable_frames:
  assumes "parser_ok 255 (ing_parser g)" "fp_state (ing_parser g) = kHunting"
    and "hub_conns w fd = Some c" "cn_read_buffer c = concat (map (\<lambda>(ty, pl). wire_frame ty pl) ms)"
    and "\<forall>(ty, pl) \<in> set ms. length pl \<le> 255" "ms \<noteq> []"
  shows "\<exists>p'. parser_ok 255 p' \<and> fp_state p' = kHunting \<and>
     ing_on_readable os fd (g, w) =
       and_then (fold_res (ing_dispatch os fd) (map (\<lambda>(ty, pl). frame_of ty pl) ms) (g, w))
         (\<lambda>(g, w). Inr (g\<lparr>ing_parser := p'\<rparr>, drained fd w))"
proof -
  let ?bs = "cn_read_buffer c" and ?frs = "map (\<lambda>(ty, pl). frame_of ty pl) ms"
  obtain p' where p': "parser_ok 255 p'" "fp_state p' = kHunting"
    "push_bytes 255 (ing_dispatch os fd) ?bs (ing_parser g) (g, w) =
       and_then (fold_res (ing_dispatch os fd) ?frs (g, w)) (\<lambda>s. Inr (p', s))"
    using push_bytes_frames [OF assms(1,2) _ assms(5), of "ing_dispatch os fd" "(g, w)"] assms(4) by auto
  have ne: "?bs \<noteq> []"
    using assms(4,6) by (cases ms) (auto simp: wire_frame_def)
  have "and_then (on_conn fd (\<lambda>c k. and_then (consume (length ?bs) c) (\<lambda>c. Inr (c, k))) w') (\<lambda>w. Inr (g'\<lparr>ing_parser := p'\<rparr>, w)) =
      Inr (g'\<lparr>ing_parser := p'\<rparr>, drained fd w')"
    if run: "fold_res (ing_dispatch os fd) ?frs (g, w) = Inr (g', w')" for g' w'
  proof -
    obtain c' where "hub_conns w' fd = Some c'" "conn_same c c'"
      using keeps_conn [OF dispatch_all_keeps [OF run] assms(3)] by blast
    then show ?thesis using on_conn_consume [of w' fd c' "length ?bs"] by (simp add: conn_same_def)
  qed
  then have "ing_on_readable os fd (g, w) =
       and_then (fold_res (ing_dispatch os fd) ?frs (g, w)) (\<lambda>(g, w). Inr (g\<lparr>ing_parser := p'\<rparr>, drained fd w))"
    using assms(3) ne p'(3)
    by (cases "fold_res (ing_dispatch os fd) ?frs (g, w)")
      (auto simp: ing_on_readable_def kMaxPayloadSize_def Let_def)
  then show ?thesis using p'(1,2) by blast
qed

lemma send_frame_ok:
  assumes "mod_succeeds os" "hub_conns w fd = Some c" "length pl \<le> 255"
  shows "\<exists>w'. send_frame os fd ty pl w = Inr w' \<and> outbuf w' fd = outbuf w fd @ wire_frame ty pl \<and>
     hub_store w' = hub_store w \<and> hub_subs w' = hub_subs w"
proof -
  let ?c = "c\<lparr>cn_write_buffer := cn_write_buffer c @ wire_frame ty pl, cn_write_interest := True\<rparr>"
  obtain k' where "os_epoll_ctl os EPOLL_CTL_MOD (cn_fd ?c) (epoll_interest ?c) (el_kernel w) = (Inr (), k')"
    using assms(1) unfolding mod_succeeds_def by blast
  then have "enqueue_write os (wire_frame ty pl) c (el_kernel w) = Inr (?c, k')"
    by (simp add: enqueue_write_Inr update_epoll_interest_def el_modify_def el_epoll_ctl_Inr)
  then show ?thesis
    using assms(2) encoded_config [OF assms(3)] by (simp add: send_frame_def on_conn_def outbuf_def)
qed

text \<open>A HELLO frame in the receive buffer.\<close>

lemma hello_frame_answered:
  assumes "parser_ok 255 (ing_parser g)" and "fp_state (ing_parser g) = kHunting"
    and "hub_conns w fd = Some c" and "cn_read_buffer c = wire_frame kHello (hello_bytes h)"
    and "mod_succeeds os" and "os_now os (el_kernel w) = (now, k)"
  shows "\<exists>g' w'. ing_on_readable os fd (g, w) = Inr (g', w') \<and>
     (let (config, s) = ds_handle_hello h (new_device_session (ing_session_id g) now) in
        ing_session g' = Some s \<and> ds_session_id s = ing_session_id g \<and>
        outbuf w' fd = outbuf w fd @ wire_frame kConfig (config_bytes config)) \<and>
     (\<exists>c'. hub_conns w' fd = Some c' \<and> cn_read_buffer c' = []) \<and> hub_store w' = hub_store w \<and>
     parser_ok 255 (ing_parser g') \<and> fp_state (ing_parser g') = kHunting"
proof -
  obtain config s where cs: "ds_handle_hello h (new_device_session (ing_session_id g) now) = (config, s)"
    by fastforce
  have id: "ds_session_id s = ing_session_id g"
    using cs by (auto simp: ds_handle_hello_def new_device_session_def Let_def)
  have "length (hello_bytes h) \<le> 255"
    by (simp add: hello_wire.length_enc sizeof_defs)
  then obtain p' where p': "parser_ok 255 p'" "fp_state p' = kHunting"
    "ing_on_readable os fd (g, w) =
       and_then (fold_res (ing_dispatch os fd) [frame_of kHello (hello_bytes h)] (g, w))
         (\<lambda>(g, w). Inr (g\<lparr>ing_parser := p'\<rparr>, drained fd w))"
    using on_readable_frames [OF assms(1-3), of "[(kHello, hello_bytes h)]" os] assms(4) by auto
  let ?w = "w\<lparr>el_kernel := k\<rparr>"
  have "length (config_bytes config) \<le> 255"
    by (simp add: config_wire.length_enc sizeof_defs)
  then obtain w1 where w1: "send_frame os fd kConfig (config_bytes config) ?w = Inr w1"
    "outbuf w1 fd = outbuf ?w fd @ wire_frame kConfig (config_bytes config)" "hub_store w1 = hub_store ?w"
    using send_frame_ok [OF assms(5), of ?w fd c _ kConfig] assms(3) by auto
  have "keeps ?w w1" using send_frame_keeps [OF w1(1)] .
  then obtain c1 where c1: "hub_conns w1 fd = Some c1"
    using assms(3) keeps_conn [of ?w w1 fd c] by auto
  have "ing_on_readable os fd (g, w) = Inr (g\<lparr>ing_session := Some s, ing_parser := p'\<rparr>, drained fd w1)"
    using p'(3) w1(1) cs assms(6)
    by (simp add: dispatch_simps ing_handle_hello_def el_now_def)
  then show ?thesis
    using id cs w1(2,3) c1 p'(1,2) by (simp add: drained_def outbuf_def)
qed

subsection \<open>Properties\<close>

text \<open>A device's HELLO is answered. When the bytes of a HELLO frame are in the receive buffer of a
  device whose parser is between frames, \<open>on_readable\<close> opens a session under the id the server
  assigned, queues exactly the CONFIG frame that the session policy decided, consumes the bytes and
  leaves the parser between frames.\<close>

theorem hello_answered:
  assumes "parser_ok 255 (ing_parser g)" and "fp_state (ing_parser g) = kHunting"
    and "hub_conns w fd = Some c" and "cn_read_buffer c = wire_frame kHello (hello_bytes h)"
    and "mod_succeeds os" and "os_now os (el_kernel w) = (now, k)"
  shows "\<exists>g' w'. ing_on_readable os fd (g, w) = Inr (g', w') \<and>
     (let (config, s) = ds_handle_hello h (new_device_session (ing_session_id g) now) in
        ing_session g' = Some s \<and> ds_session_id s = ing_session_id g \<and>
        outbuf w' fd = outbuf w fd @ wire_frame kConfig (config_bytes config)) \<and>
     (\<exists>c'. hub_conns w' fd = Some c' \<and> cn_read_buffer c' = []) \<and> hub_store w' = hub_store w \<and>
     parser_ok 255 (ing_parser g') \<and> fp_state (ing_parser g') = kHunting"
  by (rule hello_frame_answered [OF assms])

theorem hello_answered_witness:
  "let h = \<lparr>hello_device_id = 9, hello_fw_version = 1, hello_metric_count = 2, hello_offered_rate_hz = 20\<rparr>;
       w = one_subscriber_hub\<lparr>hub_conns := [4 \<mapsto>
             (new_connection 4)\<lparr>cn_read_buffer := wire_frame kHello (hello_bytes h)\<rparr>]\<rparr> in
   \<exists>g' w'. ing_on_readable quiet_os 4 (new_ingest 3, w) = Inr (g', w') \<and>
     outbuf w' 4 = wire_frame kConfig (config_bytes
       \<lparr>config_session_id = 3, config_sample_rate_hz = 10, config_metric_mask = 3\<rparr>)"
proof -
  let ?h = "\<lparr>hello_device_id = 9, hello_fw_version = 1, hello_metric_count = 2, hello_offered_rate_hz = 20\<rparr>"
  let ?c = "(new_connection 4)\<lparr>cn_read_buffer := wire_frame kHello (hello_bytes ?h)\<rparr>"
  let ?w = "one_subscriber_hub\<lparr>hub_conns := [4 \<mapsto> ?c]\<rparr>"
  have p: "parser_ok 255 (ing_parser (new_ingest 3))" "fp_state (ing_parser (new_ingest 3)) = kHunting"
    using new_parser_ok [of kMaxPayloadSize]
    by (simp_all add: new_ingest_def kMaxPayloadSize_def new_frame_parser_def)
  have "metric_mask_bits 2 = 3"
    by code_simp
  then have "ds_handle_hello ?h (new_device_session 3 0) =
     (\<lparr>config_session_id = 3, config_sample_rate_hz = 10, config_metric_mask = 3\<rparr>,
      \<lparr>ds_session_id = 3, ds_connected = True, ds_current_rate_hz = 10, ds_last_activity = 0, ds_last_uptime_ms = 0\<rparr>)"
    by (simp add: ds_handle_hello_def new_device_session_def kMaxSampleRateHz_def)
  then show ?thesis
    using hello_answered [OF p, of ?w 4 ?c ?h quiet_os 0 0] quiet_mod_succeeds
    by (auto simp: one_subscriber_hub_def quiet_os_def new_ingest_def outbuf_def new_connection_def Let_def)
qed

end
