(* ===== verification/Server_Main.thy ===== *)
theory Server_Main
  imports Ingest
begin

section \<open>The server program (server/main.cpp)\<close>

text \<open>
  The wiring: listeners, accept loops, the per-connection event callback and the housekeeping timer,
  on one state that extends the hub. \<open>DeviceMap\<close> and \<open>SubscriberMap\<close> own the connection, ingest and
  subscriber objects; an entry here means the objects are alive, and erasing it destroys them. The
  order of the lists stands for the iteration order of the \<open>unordered_map\<close>s. \<open>accept4\<close> returns a
  descriptor that is not open, so \<open>emplace\<close> always inserts.
\<close>

subsection \<open>State\<close>

definition kHousekeepingInterval :: int where "kHousekeepingInterval = 1000"

definition kDeviceTimeout :: int where "kDeviceTimeout = 6000"

datatype io_cb = Cb_Ingest_Listener | Cb_Subscribe_Listener | Cb_Conn fd

datatype timer_cb = Tcb_Housekeeping

record 'k server = "('k, io_cb, timer_cb) hub" +
  srv_devices :: "(fd \<times> ingest) list"
  srv_subscribers :: "fd list"
  srv_next_session_id :: u16
  srv_ingest_fd :: fd
  srv_subscribe_fd :: fd

subsection \<open>Listeners and connections\<close>

definition make_listener :: "'k os \<Rightarrow> u16 \<Rightarrow> 'k \<Rightarrow> fd option \<times> 'k" where
  "make_listener os port k =
     (case os_socket os True k of
        (Inl e, k) \<Rightarrow> (None, k)
      | (Inr fd, k) \<Rightarrow>
          (case os_reuseaddr os fd k of
             (Inl e, k) \<Rightarrow> (None, os_close os fd k)
           | (Inr _, k) \<Rightarrow>
               (case os_bind os fd port k of
                  (Inl e, k) \<Rightarrow> (None, os_close os fd k)
                | (Inr _, k) \<Rightarrow>
                    (case os_listen os fd 16 k of
                       (Inl e, k) \<Rightarrow> (None, os_close os fd k)
                     | (Inr _, k) \<Rightarrow> (Some fd, k)))))"

text \<open>\<open>connection\<close>'s constructor and destructor.\<close>

definition open_connection :: "'k os \<Rightarrow> fd \<Rightarrow> 'k server \<Rightarrow> server_error + 'k server" where
  "open_connection os fd w =
     and_then (el_add os fd EPOLLIN (Cb_Conn fd) w)
       (\<lambda>w. Inr (w\<lparr>hub_conns := (hub_conns w)(fd \<mapsto> new_connection fd)\<rparr>))"

definition destroy_connection :: "'k os \<Rightarrow> fd \<Rightarrow> 'k server \<Rightarrow> server_error + 'k server" where
  "destroy_connection os fd w =
     and_then (el_remove os fd w)
       (\<lambda>w. Inr (w\<lparr>el_kernel := os_close os fd (el_kernel w), hub_conns := (hub_conns w)(fd := None)\<rparr>))"

definition set_on_readable :: "fd \<Rightarrow> readable_hook \<Rightarrow> 'k server \<Rightarrow> 'k server" where
  "set_on_readable fd hook w =
     w\<lparr>hub_conns := (hub_conns w)(fd := map_option (\<lambda>c. c\<lparr>cn_on_readable := hook\<rparr>) (hub_conns w fd))\<rparr>"

subsection \<open>Accepting\<close>

text \<open>The bodies of the accept loops, for a descriptor \<open>accept4\<close> returned.\<close>

definition accept_device :: "'k os \<Rightarrow> fd \<Rightarrow> 'k server \<Rightarrow> server_error + 'k server" where
  "accept_device os fd w =
     and_then (open_connection os fd w) (\<lambda>w.
       let ing = new_ingest (srv_next_session_id w);
           w = w\<lparr>srv_next_session_id := srv_next_session_id w + 1\<rparr>;
           w = set_on_readable fd Ingest_Hook w
       in Inr (w\<lparr>srv_devices := srv_devices w @ [(fd, ing)]\<rparr>))"

definition accept_subscriber :: "'k os \<Rightarrow> fd \<Rightarrow> 'k server \<Rightarrow> server_error + 'k server" where
  "accept_subscriber os fd w =
     and_then (open_connection os fd w) (\<lambda>w.
       let w = w\<lparr>hub_subs := (hub_subs w)(fd \<mapsto> new_subscriber)\<rparr>;
           w = set_on_readable fd Subscriber_Hook w
       in and_then (add_subscriber os fd w)
            (\<lambda>w. Inr (w\<lparr>srv_subscribers := srv_subscribers w @ [fd]\<rparr>)))"

partial_function (option) accept_loop ::
  "'k os \<Rightarrow> fd \<Rightarrow> (fd \<Rightarrow> 'k server \<Rightarrow> server_error + 'k server) \<Rightarrow> 'k server
     \<Rightarrow> (server_error + 'k server) option" where
  "accept_loop os listener_fd body w =
     (case os_accept4 os listener_fd (el_kernel w) of
        (Inl e, k) \<Rightarrow> Some (Inr (w\<lparr>el_kernel := k\<rparr>))
      | (Inr fd, k) \<Rightarrow>
          run_then (Some (body fd (w\<lparr>el_kernel := k\<rparr>))) (\<lambda>w. accept_loop os listener_fd body w))"

definition accept_devices :: "'k os \<Rightarrow> fd \<Rightarrow> 'k server \<Rightarrow> (server_error + 'k server) option" where
  "accept_devices os listener_fd w = accept_loop os listener_fd (accept_device os) w"

definition accept_subscribers :: "'k os \<Rightarrow> fd \<Rightarrow> 'k server \<Rightarrow> (server_error + 'k server) option" where
  "accept_subscribers os listener_fd w = accept_loop os listener_fd (accept_subscriber os) w"

subsection \<open>Events on a connection\<close>

definition device_readable :: "'k os \<Rightarrow> fd \<Rightarrow> 'k server \<Rightarrow> server_error + 'k server" where
  "device_readable os fd w =
     (case map_of (srv_devices w) fd of
        None \<Rightarrow> Inl Dangling_Pointer
      | Some g \<Rightarrow>
          and_then (ing_on_readable os fd (g, w))
            (\<lambda>(g, w). Inr (w\<lparr>srv_devices := AList.update fd g (srv_devices w)\<rparr>)))"

definition subscriber_readable :: "'k os \<Rightarrow> fd \<Rightarrow> 'k server \<Rightarrow> server_error + 'k server" where
  "subscriber_readable os fd w =
     (case (hub_subs w fd, hub_conns w fd) of
        (Some s, Some c) \<Rightarrow>
          and_then (sub_on_readable os
              \<lparr>se_sub = s, se_conn = c, se_store = hub_store w, se_kernel = el_kernel w\<rparr>)
            (\<lambda>e. Inr (w\<lparr>hub_subs := (hub_subs w)(fd \<mapsto> se_sub e),
                        hub_conns := (hub_conns w)(fd \<mapsto> se_conn e),
                        hub_store := se_store e, el_kernel := se_kernel e\<rparr>))
      | _ \<Rightarrow> Inl Dangling_Pointer)"

definition run_hook :: "'k os \<Rightarrow> fd \<Rightarrow> 'k server \<Rightarrow> server_error + 'k server" where
  "run_hook os fd w =
     (case hub_conns w fd of
        None \<Rightarrow> Inl Dangling_Pointer
      | Some c \<Rightarrow>
          (case cn_on_readable c of
             No_Hook \<Rightarrow> Inr w
           | Ingest_Hook \<Rightarrow> device_readable os fd w
           | Subscriber_Hook \<Rightarrow> subscriber_readable os fd w))"

definition conn_try_read :: "'k os \<Rightarrow> fd \<Rightarrow> 'k server \<Rightarrow> (server_error + 'k server) option" where
  "conn_try_read os fd w =
     (case hub_conns w fd of
        None \<Rightarrow> Some (Inl Dangling_Pointer)
      | Some c \<Rightarrow>
          map_option (\<lambda>(ok, c, k). Inr (w\<lparr>hub_conns := (hub_conns w)(fd \<mapsto> c), el_kernel := k\<rparr>))
            (try_read os c (el_kernel w)))"

definition conn_try_write :: "'k os \<Rightarrow> fd \<Rightarrow> 'k server \<Rightarrow> (server_error + 'k server) option" where
  "conn_try_write os fd w =
     (case hub_conns w fd of
        None \<Rightarrow> Some (Inl Dangling_Pointer)
      | Some c \<Rightarrow>
          run_then (try_write os c (el_kernel w)) (\<lambda>(ok, c, k).
            Some (Inr (w\<lparr>hub_conns := (hub_conns w)(fd \<mapsto> c), el_kernel := k\<rparr>))))"

definition conn_events :: "'k os \<Rightarrow> fd \<Rightarrow> u32 \<Rightarrow> 'k server \<Rightarrow> (server_error + 'k server) option" where
  "conn_events os fd events w =
     run_then
       (if events AND EPOLLIN \<noteq> 0
        then run_then (conn_try_read os fd w) (\<lambda>w. Some (run_hook os fd w))
        else Some (Inr w))
       (\<lambda>w. if events AND EPOLLOUT \<noteq> 0 then conn_try_write os fd w else Some (Inr w))"

subsection \<open>Housekeeping\<close>

text \<open>One iteration of the sweep over the subscribers; the flag is \<open>any_subscriber_congested\<close>.\<close>

definition sweep_subscriber ::
  "'k os \<Rightarrow> fd \<Rightarrow> bool \<times> 'k server \<Rightarrow> server_error + bool \<times> 'k server" where
  "sweep_subscriber os fd = (\<lambda>(congested, w).
     case hub_conns w fd of
       None \<Rightarrow> Inl Dangling_Pointer
     | Some c \<Rightarrow>
         if cn_closed c then
           let w = remove_subscriber fd w;
               w = w\<lparr>srv_subscribers := filter (\<lambda>q. q \<noteq> fd) (srv_subscribers w),
                     hub_subs := (hub_subs w)(fd := None)\<rparr>
           in and_then (destroy_connection os fd w) (\<lambda>w. Inr (congested, w))
         else Inr (congested \<or> write_congested c, w))"

definition slower_rate :: "u8 \<Rightarrow> u8" where
  "slower_rate current = max 1 (current div 2)"

text \<open>One iteration of the sweep over the devices.\<close>

definition sweep_device ::
  "'k os \<Rightarrow> time_point \<Rightarrow> bool \<Rightarrow> fd \<Rightarrow> 'k server \<Rightarrow> server_error + 'k server" where
  "sweep_device os now congested fd w =
     (case (map_of (srv_devices w) fd, hub_conns w fd) of
        (Some g, Some c) \<Rightarrow>
          let disconnected = cn_closed c;
              timed = (case ing_session g of None \<Rightarrow> False | Some s \<Rightarrow> timed_out s now kDeviceTimeout)
          in if disconnected \<or> timed then
               and_then
                 (case ing_session g of
                    None \<Rightarrow> Inr w
                  | Some s \<Rightarrow> latch_offline os (ds_session_id s) (ds_last_uptime_ms s) now w)
                 (\<lambda>w. destroy_connection os fd
                        (w\<lparr>srv_devices := AList.delete fd (srv_devices w)\<rparr>))
             else
               (case ing_session g of
                  Some s \<Rightarrow>
                    if congested then
                      and_then (send_slow_down os fd (slower_rate (ds_current_rate_hz s)) (g, w))
                        (\<lambda>(g, w). Inr (w\<lparr>srv_devices := AList.update fd g (srv_devices w)\<rparr>))
                    else Inr w
                | None \<Rightarrow> Inr w)
      | _ \<Rightarrow> Inl Dangling_Pointer)"

definition housekeeping :: "'k os \<Rightarrow> 'k server \<Rightarrow> server_error + 'k server" where
  "housekeeping os w =
     (case el_now os w of (now, w) \<Rightarrow>
      and_then (fold_res (sweep_subscriber os) (srv_subscribers w) (False, w)) (\<lambda>(congested, w).
      and_then (fold_res (sweep_device os now congested) (map fst (srv_devices w)) w) (\<lambda>w.
        Inr (add_timer os kHousekeepingInterval Tcb_Housekeeping w))))"

subsection \<open>The loop\<close>

definition server_io :: "'k os \<Rightarrow> io_cb \<Rightarrow> u32 \<Rightarrow> 'k server \<Rightarrow> (server_error + 'k server) option" where
  "server_io os cb events w =
     (case cb of
        Cb_Ingest_Listener \<Rightarrow> accept_devices os (srv_ingest_fd w) w
      | Cb_Subscribe_Listener \<Rightarrow> accept_subscribers os (srv_subscribe_fd w) w
      | Cb_Conn fd \<Rightarrow> conn_events os fd events w)"

definition server_timer :: "'k os \<Rightarrow> timer_cb \<Rightarrow> 'k server \<Rightarrow> (server_error + 'k server) option" where
  "server_timer os cb w = (case cb of Tcb_Housekeeping \<Rightarrow> Some (housekeeping os w))"

record server_options =
  so_ingest_port :: u16
  so_subscribe_port :: u16

fun server_args :: "string list \<Rightarrow> server_options \<Rightarrow> server_options option" where
  "server_args [] opt = Some opt"
| "server_args [arg] opt = Some opt"
| "server_args (arg # val # rest) opt =
     (if arg = ''--ingest'' then
        (case atoi val of None \<Rightarrow> None | Some p \<Rightarrow> server_args rest (opt\<lparr>so_ingest_port := word_of_int p\<rparr>))
      else if arg = ''--subscribe'' then
        (case atoi val of None \<Rightarrow> None | Some p \<Rightarrow> server_args rest (opt\<lparr>so_subscribe_port := word_of_int p\<rparr>))
      else server_args (val # rest) opt)"

definition default_server_options :: server_options where
  "default_server_options = \<lparr>so_ingest_port = 6000, so_subscribe_port = 6001\<rparr>"

definition initial_server :: "fd \<Rightarrow> fd \<Rightarrow> 'k \<Rightarrow> 'k server" where
  "initial_server ingest_fd subscribe_fd k =
     \<lparr>el_kernel = k, el_running = False, el_callbacks = Map.empty, el_timers = [],
      hub_conns = Map.empty, hub_subs = Map.empty, hub_store = empty_store,
      srv_devices = [], srv_subscribers = [], srv_next_session_id = 1,
      srv_ingest_fd = ingest_fd, srv_subscribe_fd = subscribe_fd\<rparr>"

definition register_listeners :: "'k os \<Rightarrow> 'k server \<Rightarrow> server_error + 'k server" where
  "register_listeners os w =
     and_then (el_add os (srv_ingest_fd w) EPOLLIN Cb_Ingest_Listener w) (\<lambda>w.
     and_then (el_add os (srv_subscribe_fd w) EPOLLIN Cb_Subscribe_Listener w) (\<lambda>w.
       Inr (add_timer os kHousekeepingInterval Tcb_Housekeeping w)))"

text \<open>\<open>main\<close> after the arguments: \<open>Inr 1\<close> is the early return when a listener could not be opened. When
  the loop ends, its destructor closes the epoll descriptor.\<close>

definition server_main :: "'k os \<Rightarrow> server_options \<Rightarrow> 'k \<Rightarrow> (server_error + int \<times> 'k) option" where
  "server_main os opt k =
     (case make_listener os (so_ingest_port opt) k of (i, k) \<Rightarrow>
      case make_listener os (so_subscribe_port opt) k of (s, k) \<Rightarrow>
        (case (i, s) of
           (Some ingest_fd, Some subscribe_fd) \<Rightarrow>
             run_then (Some (el_create os k)) (\<lambda>(epoll_fd, k).
             run_then (Some (register_listeners os (initial_server ingest_fd subscribe_fd k))) (\<lambda>w.
             run_then (el_run os (server_io os) (server_timer os) w) (\<lambda>w.
               Some (Inr (0, os_close os epoll_fd (el_kernel w))))))
         | _ \<Rightarrow> Some (Inr (1, k))))"

end
