(* ===== verification/Server_Safety.thy ===== *)
theory Server_Safety
  imports Server_Main
begin

section \<open>Memory safety of the server\<close>

text \<open>
  The server's objects hold raw pointers and references to each other: the store to the subscribers,
  an ingest and a subscriber to their connection, the event loop to the connections' callbacks. The
  invariant \<open>srv_ok\<close> ties these together; every step of the server keeps it, and from a state that
  satisfies it no step follows a pointer to a destroyed object or erases past the end of a buffer.
\<close>

definition mem_safe :: "server_error + 'a \<Rightarrow> bool" where
  "mem_safe r \<longleftrightarrow> r \<noteq> Inl Dangling_Pointer \<and> r \<noteq> Inl Erase_Past_End"

lemma mem_safe_simps [simp]:
  "mem_safe (Inr x)" "mem_safe (Inl (System_Error e s))" "mem_safe (Inl Signed_Overflow)"
  by (simp_all add: mem_safe_def)

lemma mem_safe_then: "mem_safe r \<Longrightarrow> (\<And>x. r = Inr x \<Longrightarrow> mem_safe (f x)) \<Longrightarrow> mem_safe (and_then r f)"
  by (cases r) (auto simp: mem_safe_def)

lemma mem_safe_fold:
  assumes "\<And>x s. x \<in> set xs \<Longrightarrow> P s \<Longrightarrow> mem_safe (f x s)"
    and "\<And>x s s'. x \<in> set xs \<Longrightarrow> P s \<Longrightarrow> f x s = Inr s' \<Longrightarrow> P s'"
  shows "P s \<Longrightarrow> mem_safe (fold_res f xs s)"
  using assms
proof (induction xs arbitrary: s)
  case (Cons x xs)
  have "mem_safe (fold_res f xs s')" if "f x s = Inr s'" for s'
  proof (rule Cons.IH)
    show "P s'" using Cons.prems(3) [OF _ Cons.prems(1) that] by simp
    show "mem_safe (f y t)" if "y \<in> set xs" "P t" for y t
      using Cons.prems(2) that by simp
    show "P t'" if "y \<in> set xs" "P t" "f y t = Inr t'" for y t t'
      using Cons.prems(3) [of y t t'] that by simp
  qed
  then show ?case using Cons.prems(2) [of x s] Cons.prems(1) by (auto intro: mem_safe_then)
qed simp

subsection \<open>Connections and subscribers\<close>

lemma el_epoll_ctl_safe: "mem_safe (el_epoll_ctl os op what fd ev k)"
  by (auto simp: el_epoll_ctl_def split: prod.split sum.split)

lemma enqueue_write_safe: "mem_safe (enqueue_write os data c k)"
  by (auto simp: enqueue_write_def update_epoll_interest_def el_modify_def el_epoll_ctl_safe Let_def
      intro: mem_safe_then)

lemma send_line_safe: "mem_safe (send_line os l c k)"
  by (simp add: send_line_def enqueue_write_safe)

lemma publish_safe:
  "mem_safe (publish os m sid v ts x)" "mem_safe (publish_excursion_alert os sid v ts x)"
  "mem_safe (publish_offline_alert os sid ts x)"
  by (auto simp: publish_def publish_excursion_alert_def publish_offline_alert_def send_line_safe
      split: prod.split intro!: mem_safe_then)

lemma replay_safe: "mem_safe (replay_alerts os a x)"
  by (auto simp: replay_alerts_def publish_safe split: prod.split intro!: mem_safe_then)

lemma with_sub_safe:
  "hub_subs w p \<noteq> None \<Longrightarrow> hub_conns w p \<noteq> None \<Longrightarrow> (\<And>x. mem_safe (f x)) \<Longrightarrow> mem_safe (with_sub p f w)"
  by (auto simp: with_sub_def intro!: mem_safe_then)

lemma fan_out_safe:
  assumes "subs_ok w" "sends_only f" "\<And>x. mem_safe (f x)"
  shows "mem_safe (fan_out f w)"
proof -
  let ?P = "\<lambda>w'. keeps w w'"
  have "hub_subs w' p \<noteq> None \<and> hub_conns w' p \<noteq> None"
    if "p \<in> set (st_subscribers (hub_store w))" "keeps w w'" for p w'
  proof -
    have "st_subscribers (hub_store w') = st_subscribers (hub_store w)" using that(2) by (simp add: keeps_def)
    then show ?thesis using keeps_subs_ok [OF that(2) assms(1)] that(1) by (simp add: subs_ok_def)
  qed
  then show ?thesis
    unfolding fan_out_def
    by (intro mem_safe_fold [of _ ?P]) (auto intro: with_sub_safe assms(3) keeps_trans with_sub_keeps [OF assms(2)])
qed

subsection \<open>The store\<close>

lemma record_sample_safe: "mem_safe (record_sample sid mid v ts st)"
  by (auto simp: record_sample_def update_average_def ema_step_def Let_def intro!: mem_safe_then)

lemma store_record_safe:
  assumes "subs_ok w"
  shows "mem_safe (store_record os sid mid v ts now w)"
proof -
  have 1: "mem_safe (fan_out (publish os (metric_name mid) sid v ts) (w\<lparr>hub_store := st\<rparr>))"
    if "record_sample sid mid v ts (hub_store w) = Inr (a, st)" for a st
    using assms record_sample_frame [OF that]
    by (intro fan_out_safe publish_sends_only publish_safe) (simp add: subs_ok_def)
  have 2: "mem_safe (fan_out (publish_excursion_alert os sid a ts) (w1\<lparr>hub_store := set_alerts sid al (hub_store w1)\<rparr>))"
    if "record_sample sid mid v ts (hub_store w) = Inr (b, st)"
      "fan_out (publish os (metric_name mid) sid v ts) (w\<lparr>hub_store := st\<rparr>) = Inr w1" for a b st w1 al
  proof -
    have "keeps w w1"
      using fan_out_store_keeps [OF publish_sends_only(1) that(2)] record_sample_frame [OF that(1)] by simp
    then have "subs_ok w1" using assms by (rule keeps_subs_ok)
    then show ?thesis
      by (intro fan_out_safe publish_sends_only publish_safe) (simp add: subs_ok_def)
  qed
  show ?thesis
    unfolding store_record_cases
    by (intro mem_safe_then record_sample_safe) (auto intro!: mem_safe_then 1 2)
qed

lemma latch_offline_safe:
  assumes "subs_ok w"
  shows "mem_safe (latch_offline os sid ts now w)"
  using assms
  by (auto simp: latch_offline_def notify_offline_def Let_def subs_ok_def
      intro!: fan_out_safe publish_sends_only publish_safe)

subsection \<open>Devices\<close>

lemma on_conn_safe: "hub_conns w fd \<noteq> None \<Longrightarrow> (\<And>c k. mem_safe (f c k)) \<Longrightarrow> mem_safe (on_conn fd f w)"
  by (auto simp: on_conn_def intro!: mem_safe_then)

lemma send_frame_safe: "hub_conns w fd \<noteq> None \<Longrightarrow> mem_safe (send_frame os fd ty pl w)"
  by (auto simp: send_frame_def split: option.split intro!: on_conn_safe enqueue_write_safe)

lemma el_now_conns: "el_now os w = (now, w') \<Longrightarrow> hub_conns w' = hub_conns w \<and> (subs_ok w' \<longleftrightarrow> subs_ok w)"
  by (auto simp: el_now_def subs_ok_def split: prod.splits)

lemma dispatch_safe:
  assumes "hub_conns w fd \<noteq> None" "subs_ok w"
  shows "mem_safe (ing_dispatch os fd fr (g, w))"
  using assms
  by (auto simp: ing_dispatch_def ing_handle_hello_def ing_handle_heartbeat_def ing_handle_sample_def Let_def
      split: prod.split option.split dest!: el_now_conns
      intro!: mem_safe_then send_frame_safe store_record_safe)

lemma send_slow_down_safe: "hub_conns w fd \<noteq> None \<Longrightarrow> mem_safe (send_slow_down os fd r (g, w))"
  by (auto simp: send_slow_down_def split: prod.split option.split intro!: mem_safe_then send_frame_safe)

definition conn_live :: "fd \<Rightarrow> ('k, 'cb, 'tcb, 'z) hub_scheme \<Rightarrow> bool" where
  "conn_live fd w \<longleftrightarrow> hub_conns w fd \<noteq> None \<and> subs_ok w"

lemma keeps_conn_live: "keeps w w' \<Longrightarrow> conn_live fd w \<Longrightarrow> conn_live fd w'"
  unfolding conn_live_def using keeps_conn keeps_subs_ok by fastforce

lemma dispatch_live_safe: "conn_live fd w \<Longrightarrow> mem_safe (ing_dispatch os fd fr (g, w))"
  by (simp add: conn_live_def dispatch_safe)

lemma dispatch_all_safe:
  "conn_live fd w \<Longrightarrow> mem_safe (fold_res (ing_dispatch os fd) frs (g, w))"
  by (rule mem_safe_fold [of _ "\<lambda>x. conn_live fd (snd x)"])
    (auto intro: dispatch_live_safe keeps_conn_live [OF dispatch_keeps])

text \<open>The parser part of \<open>on_readable\<close>: some frames are dispatched, in order, and the parser's invariant is
  kept.\<close>

lemma push_bytes_frs:
  assumes "parser_ok mp p"
  shows "\<exists>frs. (\<forall>e. push_bytes mp sink bs p s = Inl e \<longrightarrow> fold_res sink frs s = Inl e) \<and>
     (\<forall>p' s'. push_bytes mp sink bs p s = Inr (p', s') \<longrightarrow> fold_res sink frs s = Inr s' \<and> parser_ok mp p')"
  using push_bytes_refines [OF assms, of sink bs s]
  by (intro exI [of _ "accepted (fst (arun mp bs (abs_state p)))"]) (auto split: sum.splits)

lemma ing_on_readable_ok:
  assumes "conn_live fd w" "parser_ok 255 (ing_parser g)"
  shows "mem_safe (ing_on_readable os fd (g, w))"
    and "ing_on_readable os fd (g, w) = Inr (g', w') \<Longrightarrow>
      \<exists>w1. keeps w w1 \<and> parser_ok 255 (ing_parser g') \<and> (w' = w1 \<or> w' = drained fd w1)"
proof -
  obtain c where c: "hub_conns w fd = Some c" using assms(1) by (auto simp: conn_live_def)
  let ?run = "push_bytes 255 (ing_dispatch os fd) (cn_read_buffer c) (ing_parser g) (g, w)"
  obtain frs where frs: "\<And>e. ?run = Inl e \<Longrightarrow> fold_res (ing_dispatch os fd) frs (g, w) = Inl e"
    "\<And>p' s'. ?run = Inr (p', s') \<Longrightarrow> fold_res (ing_dispatch os fd) frs (g, w) = Inr s' \<and> parser_ok 255 p'"
    using push_bytes_frs [OF assms(2), where sink = "ing_dispatch os fd" and bs = "cn_read_buffer c" and s = "(g, w)"] by blast
  have run_safe: "mem_safe ?run"
    using frs(1) dispatch_all_safe [OF assms(1), of os frs g] by (auto simp: mem_safe_def)
  have after: "on_conn fd (\<lambda>c k. and_then (consume (length (cn_read_buffer c0)) c) (\<lambda>c. Inr (c, k))) w1 = Inr (drained fd w1) \<and>
      keeps w w1 \<and> parser_ok 255 p1" if "?run = Inr (p1, g1, w1)" "c0 = c" for p1 g1 w1 c0
  proof -
    have k: "keeps w w1" using frs(2) [OF that(1)] dispatch_all_keeps by blast
    obtain c1 where "hub_conns w1 fd = Some c1" "conn_same c c1" using keeps_conn [OF k c] by blast
    then have "on_conn fd (\<lambda>c k. and_then (consume (length (cn_read_buffer c0)) c) (\<lambda>c. Inr (c, k))) w1 = Inr (drained fd w1)"
      using that(2) by (intro on_conn_consume [of w1 fd c1]) (auto simp: conn_same_def)
    then show ?thesis using k frs(2) [OF that(1)] by simp
  qed
  show "mem_safe (ing_on_readable os fd (g, w))"
    using c run_safe after
    by (auto simp: ing_on_readable_def kMaxPayloadSize_def Let_def intro!: mem_safe_then)
  show "\<exists>w1. keeps w w1 \<and> parser_ok 255 (ing_parser g') \<and> (w' = w1 \<or> w' = drained fd w1)"
    if "ing_on_readable os fd (g, w) = Inr (g', w')"
    using that c after assms(2)
    by (auto simp: ing_on_readable_def kMaxPayloadSize_def Let_def and_then_Inr split: if_splits)
      (metis keeps_refl)+
qed

subsection \<open>Subscribers' commands\<close>

lemma reply_safe: "mem_safe (reply os l e)"
  by (auto simp: reply_def send_line_safe intro!: mem_safe_then split: prod.split)

lemma handle_line_safe: "mem_safe (handle_line os l e)"
  by (auto simp: handle_line_def handle_command_def reply_safe Let_def split: prod.split option.split)

definition env_same :: "'k sub_env \<Rightarrow> 'k sub_env \<Rightarrow> bool" where
  "env_same e e' \<longleftrightarrow> cn_on_readable (se_conn e') = cn_on_readable (se_conn e) \<and>
     st_subscribers (se_store e') = st_subscribers (se_store e)"

lemma reply_same: "reply os l e = Inr e' \<Longrightarrow> env_same e e'"
  by (auto simp: reply_def and_then_Inr env_same_def dest!: send_line_same simp: conn_same_def)

lemma ack_frame: "ack sid now st = (r, st') \<Longrightarrow> st_subscribers st' = st_subscribers st"
  by (auto simp: ack_def Let_def split: option.splits prod.splits if_splits)

lemma handle_line_same: "handle_line os l e = Inr e' \<Longrightarrow> env_same e e'"
  by (auto simp: handle_line_def handle_command_def Let_def env_same_def
      dest!: reply_same ack_frame split: if_splits option.splits prod.splits)

lemma sub_on_readable_lines:
  assumes "split_lines [] (cn_read_buffer (se_conn e)) = (ls, r)"
  shows "sub_on_readable os e = and_then (fold_res (handle_line os) ls e) (\<lambda>e. Inr (sub_set_pending r e))"
  using sub_reader.feed_lines [of e "[]" ls r os] assms by (simp add: sub_pending_def sub_feed_def)

lemma sub_on_readable_ok:
  "mem_safe (sub_on_readable os e)" "sub_on_readable os e = Inr e' \<Longrightarrow> env_same e e'"
proof -
  obtain ls r where ls: "split_lines [] (cn_read_buffer (se_conn e)) = (ls, r)" by fastforce
  have "mem_safe (fold_res (handle_line os) ls e)"
    by (rule mem_safe_fold [of _ "\<lambda>_. True"]) (auto simp: handle_line_safe)
  then show "mem_safe (sub_on_readable os e)"
    unfolding sub_on_readable_lines [OF ls] by (rule mem_safe_then) simp
  assume "sub_on_readable os e = Inr e'"
  then obtain e1 where e1: "fold_res (handle_line os) ls e = Inr e1" "e' = sub_set_pending r e1"
    unfolding sub_on_readable_lines [OF ls] by (auto simp: and_then_Inr)
  have "env_same e e1"
    by (rule fold_res_invariant [OF e1(1)]) (auto simp: env_same_def dest!: handle_line_same)
  then show "env_same e e'" using e1(2) by (simp add: env_same_def sub_set_pending_def)
qed

subsection \<open>The invariant\<close>

text \<open>\<open>D\<close> are the descriptors of the devices. Exactly the devices and subscribers have a connection, with
  the right hook and a registered callback; exactly the subscribers have a subscriber object, and
  exactly those are in the store's fan-out list.\<close>

definition links :: "fd set \<Rightarrow> 'k server \<Rightarrow> bool" where
  "links D w \<longleftrightarrow>
     distinct (srv_subscribers w) \<and> D \<inter> set (srv_subscribers w) = {} \<and>
     (\<forall>fd. hub_conns w fd \<noteq> None \<longleftrightarrow> fd \<in> D \<union> set (srv_subscribers w)) \<and>
     (\<forall>fd. hub_subs w fd \<noteq> None \<longleftrightarrow> fd \<in> set (srv_subscribers w)) \<and>
     distinct (st_subscribers (hub_store w)) \<and> set (st_subscribers (hub_store w)) = set (srv_subscribers w) \<and>
     (\<forall>fd c. hub_conns w fd = Some c \<longrightarrow>
        cn_on_readable c = (if fd \<in> set (srv_subscribers w) then Subscriber_Hook else Ingest_Hook)) \<and>
     (\<forall>fd. hub_conns w fd \<noteq> None \<longrightarrow> el_callbacks w fd = Some (Cb_Conn fd)) \<and>
     (\<forall>fd f. el_callbacks w fd = Some (Cb_Conn f) \<longrightarrow> f = fd \<and> hub_conns w fd \<noteq> None)"

definition srv_ok :: "'k server \<Rightarrow> bool" where
  "srv_ok w \<longleftrightarrow> distinct (map fst (srv_devices w)) \<and>
     (\<forall>g \<in> snd ` set (srv_devices w). parser_ok 255 (ing_parser g)) \<and>
     links (fst ` set (srv_devices w)) w"

lemma srv_ok_subs: "srv_ok w \<Longrightarrow> subs_ok w"
  by (simp add: srv_ok_def links_def subs_ok_def)

lemma srv_ok_distinct: "srv_ok w \<Longrightarrow> distinct (srv_subscribers w)"
  unfolding srv_ok_def links_def by blast

lemma srv_ok_live: "srv_ok w \<Longrightarrow> hub_conns w fd \<noteq> None \<Longrightarrow> conn_live fd w"
  by (simp add: conn_live_def srv_ok_subs)

lemma hub_more_fields:
  "hub.more w' = hub.more w \<Longrightarrow> srv_devices w' = srv_devices w \<and> srv_subscribers w' = srv_subscribers w \<and>
     srv_next_session_id w' = srv_next_session_id w \<and> srv_ingest_fd w' = srv_ingest_fd w \<and>
     srv_subscribe_fd w' = srv_subscribe_fd w" for w w' :: "'k server"
  by (cases w; cases w') simp

lemma keeps_srv_ok:
  assumes "keeps w w'" "srv_ok w"
  shows "srv_ok w'"
proof -
  have f: "srv_devices w' = srv_devices w" "srv_subscribers w' = srv_subscribers w"
    using hub_more_fields assms(1) unfolding keeps_def by blast+
  have r: "rel_option conn_same (hub_conns w fd) (hub_conns w' fd)" for fd
    using assms(1) unfolding keeps_def by blast
  have e: "el_callbacks w' = el_callbacks w" "st_subscribers (hub_store w') = st_subscribers (hub_store w)"
    and s: "hub_subs w' fd = None \<longleftrightarrow> hub_subs w fd = None" for fd
    using assms(1) unfolding keeps_def by blast+
  have c: "hub_conns w' fd = None \<longleftrightarrow> hub_conns w fd = None" for fd
    using r [of fd] by (cases "hub_conns w fd"; cases "hub_conns w' fd") auto
  have hooks: "\<forall>fd c. hub_conns w fd = Some c \<longrightarrow>
      cn_on_readable c = (if fd \<in> set (srv_subscribers w) then Subscriber_Hook else Ingest_Hook)"
    using assms(2) unfolding srv_ok_def links_def by blast
  have "\<forall>fd c. hub_conns w' fd = Some c \<longrightarrow>
      cn_on_readable c = (if fd \<in> set (srv_subscribers w) then Subscriber_Hook else Ingest_Hook)"
  proof (intro allI impI)
    fix fd c' assume "hub_conns w' fd = Some c'"
    then obtain c where "hub_conns w fd = Some c" "conn_same c c'"
      using r [of fd] by (auto simp: option_rel_Some2)
    then show "cn_on_readable c' = (if fd \<in> set (srv_subscribers w) then Subscriber_Hook else Ingest_Hook)"
      using hooks [rule_format, of fd c] by (simp add: conn_same_def)
  qed
  then show ?thesis
    using assms(2) unfolding srv_ok_def links_def f e c s by (elim conjE) (intro conjI, assumption+)
qed

text \<open>Replacing a connection by one with the same hook; changing the kernel.\<close>

lemma srv_ok_conn:
  "srv_ok w \<Longrightarrow> hub_conns w fd = Some c \<Longrightarrow> cn_on_readable c' = cn_on_readable c \<Longrightarrow>
   srv_ok (w\<lparr>hub_conns := (hub_conns w)(fd \<mapsto> c')\<rparr>)"
  by (auto simp: srv_ok_def links_def)

lemma srv_ok_kernel [simp]: "srv_ok (w\<lparr>el_kernel := k\<rparr>) = srv_ok w"
  by (simp add: srv_ok_def links_def)

lemma srv_ok_timers [simp]: "srv_ok (w\<lparr>el_timers := ts\<rparr>) = srv_ok w"
  by (simp add: srv_ok_def links_def)

lemma srv_ok_drained:
  assumes "srv_ok w"
  shows "srv_ok (drained fd w)"
proof (cases "hub_conns w fd")
  case (Some c)
  then show ?thesis
    using srv_ok_conn [OF assms Some, of "c\<lparr>cn_read_buffer := []\<rparr>"]
    by (simp add: drained_def)
qed (use assms in \<open>simp add: drained_def fun_upd_idem\<close>)

text \<open>Replacing a device's ingest.\<close>

lemma set_alist_update: "set (AList.update k v al) \<subseteq> insert (k, v) (set al)"
  by (induction al) auto

lemma links_devices [simp]: "links D (w\<lparr>srv_devices := ds\<rparr>) = links D w"
  by (simp add: links_def)

lemma srv_ok_device:
  assumes "srv_ok w" "fd \<in> fst ` set (srv_devices w)" "parser_ok 255 (ing_parser g)"
  shows "srv_ok (w\<lparr>srv_devices := AList.update fd g (srv_devices w)\<rparr>)"
proof -
  have keys: "fst ` set (AList.update fd g (srv_devices w)) = fst ` set (srv_devices w)"
    using assms(2) by (simp only: dom_update) auto
  have "distinct (map fst (AList.update fd g (srv_devices w)))"
    using assms(1) by (simp add: srv_ok_def distinct_update)
  moreover have "\<forall>h \<in> snd ` set (AList.update fd g (srv_devices w)). parser_ok 255 (ing_parser h)"
    using assms(1,3) set_alist_update [of fd g "srv_devices w"] unfolding srv_ok_def by auto
  ultimately show ?thesis using assms(1) by (simp add: srv_ok_def keys)
qed

subsection \<open>Accepting keeps the invariant\<close>

lemma open_connection_ok:
  "mem_safe (open_connection os fd w)"
  "open_connection os fd w = Inr w' \<Longrightarrow>
     \<exists>k. w' = w\<lparr>el_kernel := k, el_callbacks := (el_callbacks w)(fd \<mapsto> Cb_Conn fd),
            hub_conns := (hub_conns w)(fd \<mapsto> new_connection fd)\<rparr>"
  using el_epoll_ctl_safe [of os EPOLL_CTL_ADD "''epoll_ctl ADD''" fd EPOLLIN "el_kernel w"]
  by (auto simp: open_connection_def el_add_def and_then_Inr mem_safe_def split: sum.splits)

lemma srv_fresh:
  assumes "srv_ok w" "el_callbacks w fd = None"
  shows "fd \<notin> fst ` set (srv_devices w) \<and> fd \<notin> set (srv_subscribers w)"
proof -
  have "hub_conns w fd = None" using assms unfolding srv_ok_def links_def by (metis option.distinct(1))
  then show ?thesis using assms(1) unfolding srv_ok_def links_def by (metis UnCI)
qed

lemma accept_device_ok:
  assumes "srv_ok w" "el_callbacks w fd = None"
  shows "mem_safe (accept_device os fd w)"
    and "accept_device os fd w = Inr w' \<Longrightarrow> srv_ok w'"
proof -
  show "mem_safe (accept_device os fd w)"
    by (auto simp: accept_device_def open_connection_ok Let_def intro!: mem_safe_then)
  assume "accept_device os fd w = Inr w'"
  then obtain k where "w' = w\<lparr>el_kernel := k, el_callbacks := (el_callbacks w)(fd \<mapsto> Cb_Conn fd),
       srv_next_session_id := srv_next_session_id w + 1,
       hub_conns := (hub_conns w)(fd \<mapsto> (new_connection fd)\<lparr>cn_on_readable := Ingest_Hook\<rparr>),
       srv_devices := srv_devices w @ [(fd, new_ingest (srv_next_session_id w))]\<rparr>"
    by (auto simp: accept_device_def and_then_Inr set_on_readable_def Let_def dest!: open_connection_ok(2))
  moreover have "fd \<notin> fst ` set (srv_devices w)" "fd \<notin> set (srv_subscribers w)"
    using srv_fresh [OF assms] by auto
  moreover have "parser_ok 255 (ing_parser (new_ingest n))" for n
    using new_parser_ok [of 255] by (simp add: new_ingest_def kMaxPayloadSize_def)
  ultimately show "srv_ok w'" using assms by (auto simp: srv_ok_def links_def)
qed

lemma keeps_subscribers:
  "keeps w w' \<Longrightarrow> keeps (w\<lparr>srv_subscribers := x\<rparr>) (w'\<lparr>srv_subscribers := x\<rparr>)" for w w' :: "'k server"
  by (cases w; cases w') (simp add: keeps_def)

lemma accept_subscriber_ok:
  assumes "srv_ok w" "el_callbacks w fd = None"
  shows "mem_safe (accept_subscriber os fd w)"
    and "accept_subscriber os fd w = Inr w' \<Longrightarrow> srv_ok w'"
proof -
  note fresh = srv_fresh [OF assms]
  let ?w = "\<lambda>k. w\<lparr>el_kernel := k, el_callbacks := (el_callbacks w)(fd \<mapsto> Cb_Conn fd),
       hub_conns := (hub_conns w)(fd \<mapsto> (new_connection fd)\<lparr>cn_on_readable := Subscriber_Hook\<rparr>),
       hub_subs := (hub_subs w)(fd \<mapsto> new_subscriber),
       hub_store := (hub_store w)\<lparr>st_subscribers := st_subscribers (hub_store w) @ [fd]\<rparr>\<rparr>"
  let ?loop = "\<lambda>k. fold_res (\<lambda>a. with_sub fd (replay_alerts os a)) (st_alerts (hub_store w)) (?w k)"
  have run: "\<exists>k. accept_subscriber os fd w =
      and_then (?loop k) (\<lambda>w. Inr (w\<lparr>srv_subscribers := srv_subscribers w @ [fd]\<rparr>)) \<or>
      (\<exists>e s. accept_subscriber os fd w = Inl (System_Error e s))"
  proof (cases "open_connection os fd w")
    case (Inl e)
    then have "accept_subscriber os fd w = Inl e" by (simp add: accept_subscriber_def)
    moreover have "\<exists>n s. e = System_Error n s"
      using Inl by (auto simp: open_connection_def el_add_def el_epoll_ctl_def split: sum.splits prod.splits)
    ultimately show ?thesis by blast
  next
    case (Inr w1)
    then obtain k where "w1 = w\<lparr>el_kernel := k, el_callbacks := (el_callbacks w)(fd \<mapsto> Cb_Conn fd),
            hub_conns := (hub_conns w)(fd \<mapsto> new_connection fd)\<rparr>"
      using open_connection_ok(2) by blast
    then show ?thesis
      using Inr by (intro exI [of _ k] disjI1)
        (cases w, simp add: accept_subscriber_def add_subscriber_def set_on_readable_def Let_def)
  qed
  have loop_keeps: "keeps (?w k) w2" if "?loop k = Inr w2" for k w2
    by (rule fold_res_invariant [OF that keeps_refl])
      (blast intro: keeps_trans with_sub_keeps [OF replay_sends_only])
  have alive: "hub_subs w1 fd \<noteq> None \<and> hub_conns w1 fd \<noteq> None" if "keeps (?w k) w1" for k w1
    using keeps_conn [OF that, of fd] that unfolding keeps_def by auto
  have "mem_safe (?loop k)" for k
  proof (rule mem_safe_fold [of _ "keeps (?w k)"])
    show "mem_safe (with_sub fd (replay_alerts os a) w1)" if "keeps (?w k) w1" for a w1
      using alive [OF that] by (intro with_sub_safe replay_safe) auto
  qed (blast intro: keeps_refl keeps_trans with_sub_keeps [OF replay_sends_only])+
  then show "mem_safe (accept_subscriber os fd w)"
    using run by (auto intro!: mem_safe_then)
  have base: "srv_ok ((?w k)\<lparr>srv_subscribers := srv_subscribers w @ [fd]\<rparr>)" for k
    using assms fresh by (auto simp: srv_ok_def links_def)
  assume acc: "accept_subscriber os fd w = Inr w'"
  then obtain k where k: "accept_subscriber os fd w =
      and_then (?loop k) (\<lambda>w. Inr (w\<lparr>srv_subscribers := srv_subscribers w @ [fd]\<rparr>))"
    using run by fastforce
  obtain w2 where w2: "?loop k = Inr w2" "w' = w2\<lparr>srv_subscribers := srv_subscribers w2 @ [fd]\<rparr>"
    using trans [OF k [symmetric] acc] unfolding and_then_Inr by blast
  have "srv_subscribers w2 = srv_subscribers w"
    using loop_keeps [OF w2(1)] hub_more_fields [of w2 "?w k"] by (simp add: keeps_def)
  then show "srv_ok w'"
    using keeps_srv_ok [OF keeps_subscribers [OF loop_keeps [OF w2(1)]] base] w2(2) by simp
qed

subsection \<open>Events keep the invariant\<close>

lemma try_read_hook:
  assumes "try_read os c k = Some r"
  shows "cn_on_readable (fst (snd r)) = cn_on_readable c"
proof (rule try_read.raw_induct [of "\<lambda>os c k r. cn_on_readable (fst (snd r)) = cn_on_readable c", OF _ assms])
  fix f :: "'a os \<Rightarrow> connection \<Rightarrow> 'a \<Rightarrow> (bool \<times> connection \<times> 'a) option" and os c k y
  assume IH: "\<And>os c k y. f os c k = Some y \<Longrightarrow> cn_on_readable (fst (snd y)) = cn_on_readable c"
    and run: "(case os_recv os (cn_fd c) kRecvChunk k of
        (Inl e, k) \<Rightarrow> if e = EAGAIN \<or> e = EWOULDBLOCK then Some (True, c, k)
          else if e = EINTR then f os c k else Some (False, c\<lparr>cn_closed := True\<rparr>, k)
      | (Inr bytes, k) \<Rightarrow> if bytes \<noteq> [] then f os (c\<lparr>cn_read_buffer := cn_read_buffer c @ bytes\<rparr>) k
          else Some (False, c\<lparr>cn_closed := True\<rparr>, k)) = Some y"
  show "cn_on_readable (fst (snd y)) = cn_on_readable c"
    using run by (auto split: prod.splits sum.splits if_splits dest!: IH)
qed

lemma write_loop_hook:
  assumes "write_loop os c k = Some r"
  shows "cn_on_readable (fst (snd r)) = cn_on_readable c"
proof (rule write_loop.raw_induct [of "\<lambda>os c k r. cn_on_readable (fst (snd r)) = cn_on_readable c", OF _ assms])
  fix f :: "'a os \<Rightarrow> connection \<Rightarrow> 'a \<Rightarrow> (bool \<times> connection \<times> 'a) option" and os c k y
  assume IH: "\<And>os c k y. f os c k = Some y \<Longrightarrow> cn_on_readable (fst (snd y)) = cn_on_readable c"
    and run: "(if cn_write_buffer c = [] then Some (True, c, k)
      else case os_send os (cn_fd c) (cn_write_buffer c) k of (r, k) \<Rightarrow>
        (case r of
           Inl e \<Rightarrow> let e = send_errno os r k in
             if e = EAGAIN \<or> e = EWOULDBLOCK then Some (True, c, k)
             else if e = EINTR then f os c k else Some (False, c\<lparr>cn_closed := True\<rparr>, k)
         | Inr 0 \<Rightarrow> let e = send_errno os r k in
             if e = EAGAIN \<or> e = EWOULDBLOCK then Some (True, c, k)
             else if e = EINTR then f os c k else Some (False, c\<lparr>cn_closed := True\<rparr>, k)
         | Inr (Suc n) \<Rightarrow> f os (c\<lparr>cn_write_buffer := drop (Suc n) (cn_write_buffer c)\<rparr>) k)) = Some y"
  show "cn_on_readable (fst (snd y)) = cn_on_readable c"
    using run by (auto simp: Let_def split: prod.splits sum.splits if_splits nat.splits dest!: IH)
qed

lemma try_write_hook:
  "try_write os c k = Some (Inr (ok, c', k')) \<Longrightarrow> cn_on_readable c' = cn_on_readable c"
  by (auto simp: try_write_def Let_def and_then_Inr Option.bind_eq_Some_conv split: if_splits
      dest!: write_loop_hook)

lemma try_write_safe: "try_write os c k = Some r \<Longrightarrow> mem_safe r"
  by (auto simp: try_write_def Let_def update_epoll_interest_def el_modify_def el_epoll_ctl_safe
      Option.bind_eq_Some_conv split: if_splits intro!: mem_safe_then)

text \<open>A step that may not return: whenever it does, it is memory safe and keeps the invariant.\<close>

definition step_ok :: "(server_error + 'k server) option \<Rightarrow> bool" where
  "step_ok m \<longleftrightarrow> (\<forall>r. m = Some r \<longrightarrow> mem_safe r \<and> (\<forall>w'. r = Inr w' \<longrightarrow> srv_ok w'))"

lemma step_ok_Some: "mem_safe r \<Longrightarrow> (\<And>w'. r = Inr w' \<Longrightarrow> srv_ok w') \<Longrightarrow> step_ok (Some r)"
  by (simp add: step_ok_def)

lemma step_ok_then:
  "step_ok m \<Longrightarrow> (\<And>w. m = Some (Inr w) \<Longrightarrow> srv_ok w \<Longrightarrow> step_ok (f w)) \<Longrightarrow> step_ok (run_then m f)"
  by (cases m; cases "the m") (auto simp: step_ok_def mem_safe_def)

lemma conn_try_read_ok:
  assumes "srv_ok w" "hub_conns w fd \<noteq> None"
  shows "step_ok (conn_try_read os fd w)"
proof -
  obtain c where c: "hub_conns w fd = Some c" using assms(2) by blast
  have "srv_ok (w\<lparr>hub_conns := (hub_conns w)(fd \<mapsto> c')\<rparr>)"
    if "try_read os c (el_kernel w) = Some (ok, c', k')" for ok c' k'
    using try_read_hook [OF that] srv_ok_conn [OF assms(1) c] by simp
  then show ?thesis using c by (auto simp: conn_try_read_def step_ok_def)
qed

lemma conn_try_write_ok:
  assumes "srv_ok w" "hub_conns w fd \<noteq> None"
  shows "step_ok (conn_try_write os fd w)"
proof -
  obtain c where c: "hub_conns w fd = Some c" using assms(2) by blast
  show ?thesis
  proof (cases "try_write os c (el_kernel w)")
    case None
    then show ?thesis using c by (simp add: conn_try_write_def step_ok_def)
  next
    case (Some r)
    show ?thesis
    proof (cases r)
      case (Inl e)
      then show ?thesis using c Some try_write_safe [OF Some] by (simp add: conn_try_write_def step_ok_def mem_safe_def)
    next
      case (Inr x)
      obtain ok c' k' where x: "x = (ok, c', k')" by (cases x)
      then have "cn_on_readable c' = cn_on_readable c"
        using try_write_hook [of os c "el_kernel w" ok c' k'] Some Inr by simp
      then show ?thesis
        using c Some Inr x srv_ok_conn [OF assms(1) c] by (simp add: conn_try_write_def step_ok_def)
    qed
  qed
qed

lemma srv_ok_parser: "srv_ok w \<Longrightarrow> map_of (srv_devices w) fd = Some g \<Longrightarrow> parser_ok 255 (ing_parser g)"
  using map_of_SomeD [of "srv_devices w" fd g] unfolding srv_ok_def by fastforce

lemma srv_ok_has_conn:
  assumes "srv_ok w" "fd \<in> fst ` set (srv_devices w) \<or> fd \<in> set (srv_subscribers w)"
  shows "\<exists>c. hub_conns w fd = Some c"
proof -
  have "hub_conns w fd \<noteq> None" using assms unfolding srv_ok_def links_def by blast
  then show ?thesis by blast
qed

lemma device_readable_ok:
  assumes "srv_ok w" "fd \<in> fst ` set (srv_devices w)"
  shows "step_ok (Some (device_readable os fd w))"
proof -
  obtain g where g: "map_of (srv_devices w) fd = Some g"
    using assms(2) by (metis map_of_eq_None_iff option.exhaust)
  have live: "conn_live fd w" using srv_ok_live [OF assms(1)] srv_ok_has_conn [OF assms(1)] assms(2) by blast
  have p: "parser_ok 255 (ing_parser g)" by (rule srv_ok_parser [OF assms(1) g])
  note run = ing_on_readable_ok [OF live p, of os]
  show ?thesis
  proof (rule step_ok_Some)
    show "mem_safe (device_readable os fd w)"
      using g run(1) by (auto simp: device_readable_def intro!: mem_safe_then)
    fix w' assume "device_readable os fd w = Inr w'"
    then obtain g1 w1 where w1: "ing_on_readable os fd (g, w) = Inr (g1, w1)"
      "w' = w1\<lparr>srv_devices := AList.update fd g1 (srv_devices w1)\<rparr>"
      using g by (auto simp: device_readable_def and_then_Inr)
    obtain w2 where w2: "keeps w w2" "parser_ok 255 (ing_parser g1)" "w1 = w2 \<or> w1 = drained fd w2"
      using run(2) [OF w1(1)] by blast
    have "srv_devices w2 = srv_devices w" using w2(1) hub_more_fields [of w2 w] by (simp add: keeps_def)
    then have "srv_devices w1 = srv_devices w" using w2(3) by (auto simp: drained_def)
    moreover have "srv_ok w1"
      using w2(3) keeps_srv_ok [OF w2(1) assms(1)] srv_ok_drained by auto
    ultimately show "srv_ok w'"
      using srv_ok_device [of w1 fd g1] assms(2) w1(2) w2(2) by simp
  qed
qed

lemma links_subscriber:
  "links D w \<Longrightarrow> hub_conns w fd = Some c \<Longrightarrow> cn_on_readable c' = cn_on_readable c \<Longrightarrow>
   hub_subs w fd = Some s \<Longrightarrow> st_subscribers st = st_subscribers (hub_store w) \<Longrightarrow>
   links D (w\<lparr>hub_subs := (hub_subs w)(fd \<mapsto> s'), hub_conns := (hub_conns w)(fd \<mapsto> c'), hub_store := st, el_kernel := k\<rparr>)"
  by (auto simp: links_def)

lemma subscriber_readable_ok:
  assumes "srv_ok w" "fd \<in> set (srv_subscribers w)"
  shows "step_ok (Some (subscriber_readable os fd w))"
proof -
  have "hub_conns w fd \<noteq> None" "hub_subs w fd \<noteq> None"
    using assms unfolding srv_ok_def links_def by blast+
  then obtain s c where sc: "hub_subs w fd = Some s" "hub_conns w fd = Some c" by blast
  let ?e = "\<lparr>se_sub = s, se_conn = c, se_store = hub_store w, se_kernel = el_kernel w\<rparr>"
  show ?thesis
  proof (rule step_ok_Some)
    show "mem_safe (subscriber_readable os fd w)"
      using sc sub_on_readable_ok(1) [of os ?e] by (auto simp: subscriber_readable_def intro!: mem_safe_then)
    fix w' assume "subscriber_readable os fd w = Inr w'"
    then obtain e where e: "sub_on_readable os ?e = Inr e"
      "w' = w\<lparr>hub_subs := (hub_subs w)(fd \<mapsto> se_sub e), hub_conns := (hub_conns w)(fd \<mapsto> se_conn e),
         hub_store := se_store e, el_kernel := se_kernel e\<rparr>"
      using sc by (auto simp: subscriber_readable_def and_then_Inr)
    have "env_same ?e e" using sub_on_readable_ok(2) [OF e(1)] .
    then show "srv_ok w'"
      using assms(1) links_subscriber [OF _ sc(2) _ sc(1)] e(2) by (simp add: srv_ok_def env_same_def)
  qed
qed

lemma run_hook_ok:
  assumes "srv_ok w" "hub_conns w fd \<noteq> None"
  shows "step_ok (Some (run_hook os fd w))"
proof -
  obtain c where c: "hub_conns w fd = Some c" using assms(2) by blast
  have hook: "cn_on_readable c = (if fd \<in> set (srv_subscribers w) then Subscriber_Hook else Ingest_Hook)"
    using assms(1) c unfolding srv_ok_def links_def by blast
  show ?thesis
  proof (cases "fd \<in> set (srv_subscribers w)")
    case True
    then show ?thesis using subscriber_readable_ok [OF assms(1) True] c hook by (simp add: run_hook_def)
  next
    case False
    then have "fd \<in> fst ` set (srv_devices w)" using assms unfolding srv_ok_def links_def by blast
    then show ?thesis using device_readable_ok [OF assms(1)] False c hook by (simp add: run_hook_def)
  qed
qed

lemma run_hook_conn:
  assumes "srv_ok w" "hub_conns w fd \<noteq> None" "run_hook os fd w = Inr w'"
  shows "hub_conns w' fd \<noteq> None"
proof -
  obtain c where c: "hub_conns w fd = Some c" using assms(2) by blast
  show ?thesis
  proof (cases "cn_on_readable c")
    case No_Hook
    then show ?thesis using assms(3) c by (simp add: run_hook_def)
  next
    case Ingest_Hook
    then have "device_readable os fd w = Inr w'" using assms(3) c by (simp add: run_hook_def)
    then obtain g g1 w1 where g: "map_of (srv_devices w) fd = Some g" "ing_on_readable os fd (g, w) = Inr (g1, w1)"
      "hub_conns w' = hub_conns w1"
      by (auto simp: device_readable_def and_then_Inr split: option.splits)
    have "parser_ok 255 (ing_parser g)" by (rule srv_ok_parser [OF assms(1) g(1)])
    from ing_on_readable_ok(2) [OF srv_ok_live [OF assms(1,2)] this g(2)]
    obtain w2 where w2: "keeps w w2" "w1 = w2 \<or> w1 = drained fd w2" by blast
    have "hub_conns w2 fd \<noteq> None" using keeps_conn [OF w2(1)] assms(2) by fastforce
    then show ?thesis using w2(2) g(3) by (auto simp: drained_def)
  next
    case Subscriber_Hook
    then have "subscriber_readable os fd w = Inr w'" using assms(3) c by (simp add: run_hook_def)
    then show ?thesis
      using c by (auto simp: subscriber_readable_def and_then_Inr split: option.splits)
  qed
qed

lemma conn_events_ok:
  assumes "srv_ok w" "hub_conns w fd \<noteq> None"
  shows "step_ok (conn_events os fd events w)"
proof -
  let ?m = "if events AND EPOLLIN \<noteq> 0
    then run_then (conn_try_read os fd w) (\<lambda>w. Some (run_hook os fd w)) else Some (Inr w)"
  have read: "hub_conns w1 fd \<noteq> None" if "conn_try_read os fd w = Some (Inr w1)" for w1
    using that by (auto simp: conn_try_read_def split: option.splits)
  have "step_ok (run_then (conn_try_read os fd w) (\<lambda>w. Some (run_hook os fd w)))"
    by (rule step_ok_then [OF conn_try_read_ok [OF assms]]) (rule run_hook_ok, assumption, rule read)
  then have m: "step_ok ?m"
    using step_ok_Some [of "Inr w"] assms(1) by simp
  have live: "hub_conns w2 fd \<noteq> None" if ran: "?m = Some (Inr w2)" for w2
  proof (cases "events AND EPOLLIN \<noteq> 0")
    case True
    then obtain w1 where w1: "conn_try_read os fd w = Some (Inr w1)" "run_hook os fd w1 = Inr w2"
      using ran by (auto simp: run_then_Inr)
    have "srv_ok w1" using conn_try_read_ok [OF assms, of os] w1(1) by (simp add: step_ok_def)
    then show ?thesis using run_hook_conn read w1 by blast
  qed (use ran assms(2) in simp)
  show ?thesis
    unfolding conn_events_def
  proof (rule step_ok_then [OF m])
    fix w2 assume "?m = Some (Inr w2)" "srv_ok w2"
    then have "step_ok (conn_try_write os fd w2)" by (intro conn_try_write_ok live)
    then show "step_ok (if events AND EPOLLOUT \<noteq> 0 then conn_try_write os fd w2 else Some (Inr w2))"
      using \<open>srv_ok w2\<close> step_ok_Some [of "Inr w2"] by simp
  qed
qed

subsection \<open>Housekeeping keeps the invariant\<close>

text \<open>A sweep over a list of descriptors, each still alive when its turn comes.\<close>

lemma mem_safe_sweep:
  assumes "\<And>x xs s. P (x # xs) s \<Longrightarrow> mem_safe (f x s) \<and> (\<forall>s'. f x s = Inr s' \<longrightarrow> P xs s')"
  shows "P xs s \<Longrightarrow> mem_safe (fold_res f xs s) \<and> (\<forall>s'. fold_res f xs s = Inr s' \<longrightarrow> P [] s')"
proof (induction xs arbitrary: s)
  case (Cons x xs)
  note step = assms [OF Cons.prems]
  then show ?case using Cons.IH by (auto simp: and_then_Inr intro!: mem_safe_then)
qed simp

lemma destroy_connection_ok:
  "mem_safe (destroy_connection os fd w)"
  "destroy_connection os fd w = Inr w' \<Longrightarrow>
     \<exists>k. w' = w\<lparr>el_callbacks := (el_callbacks w)(fd := None), el_kernel := k, hub_conns := (hub_conns w)(fd := None)\<rparr>"
  using el_epoll_ctl_safe [of os EPOLL_CTL_DEL "''epoll_ctl DEL''" fd 0 "el_kernel w"]
  by (auto simp: destroy_connection_def el_remove_def and_then_Inr mem_safe_def split: sum.splits)

text \<open>Taking one descriptor out of the invariant: everything that mentions it goes.\<close>

lemma links_remove:
  assumes "links D w" "fd \<in> D \<union> set (srv_subscribers w)"
    and "srv_subscribers w' = filter (\<lambda>q. q \<noteq> fd) (srv_subscribers w)"
    and "hub_subs w' = (hub_subs w)(fd := None)" "hub_conns w' = (hub_conns w)(fd := None)"
    and "el_callbacks w' = (el_callbacks w)(fd := None)"
    and "st_subscribers (hub_store w') = filter (\<lambda>q. q \<noteq> fd) (st_subscribers (hub_store w))"
  shows "links (D - {fd}) w'"
  using assms(1) unfolding links_def assms(3-7)
  by (elim conjE, intro conjI; (simp split: if_splits; fail | fastforce))

lemma destroy_subscriber_ok:
  assumes "srv_ok w" "fd \<in> set (srv_subscribers w)"
  shows "srv_ok ((remove_subscriber fd w)\<lparr>srv_subscribers := filter (\<lambda>q. q \<noteq> fd) (srv_subscribers w),
     hub_subs := (hub_subs w)(fd := None),
     el_callbacks := (el_callbacks w)(fd := None), el_kernel := k, hub_conns := (hub_conns w)(fd := None)\<rparr>)"
    (is "srv_ok ?w")
proof -
  have "links (fst ` set (srv_devices w) - {fd}) ?w"
    using assms by (intro links_remove [of _ w]) (auto simp: srv_ok_def remove_subscriber_def)
  moreover have "fst ` set (srv_devices w) - {fd} = fst ` set (srv_devices w)"
    using assms unfolding srv_ok_def links_def by blast
  ultimately show ?thesis using assms(1) by (simp add: srv_ok_def remove_subscriber_def)
qed

lemma filter_absent: "x \<notin> set xs \<Longrightarrow> filter (\<lambda>q. q \<noteq> x) xs = xs"
  by (induction xs) auto

lemma destroy_device_ok:
  assumes "srv_ok w" "fd \<in> fst ` set (srv_devices w)"
  shows "srv_ok (w\<lparr>srv_devices := AList.delete fd (srv_devices w),
     el_callbacks := (el_callbacks w)(fd := None), el_kernel := k, hub_conns := (hub_conns w)(fd := None)\<rparr>)"
    (is "srv_ok ?w")
proof -
  have keys: "fst ` set (AList.delete fd (srv_devices w)) = fst ` set (srv_devices w) - {fd}"
    using arg_cong [OF delete_keys [of fd "srv_devices w"], of set] by simp
  have not_sub: "fd \<notin> set (srv_subscribers w)" "hub_subs w fd = None" "fd \<notin> set (st_subscribers (hub_store w))"
    using assms unfolding srv_ok_def links_def by blast+
  have "links (fst ` set (srv_devices w) - {fd}) ?w"
    using assms not_sub by (intro links_remove [of _ w]) (auto simp: srv_ok_def filter_absent fun_upd_idem)
  moreover have "distinct (map fst (AList.delete fd (srv_devices w)))"
    using assms(1) by (simp add: srv_ok_def distinct_delete)
  moreover have "set (AList.delete fd (srv_devices w)) \<subseteq> set (srv_devices w)"
    by (auto simp: AList.delete_eq)
  ultimately show ?thesis
    using assms(1) unfolding srv_ok_def by (auto simp: keys)
qed

lemma sweep_subscriber_ok:
  assumes "srv_ok w" "distinct (fd # fds)" "set (fd # fds) \<subseteq> set (srv_subscribers w)"
  shows "mem_safe (sweep_subscriber os fd (b, w)) \<and>
     (\<forall>b' w'. sweep_subscriber os fd (b, w) = Inr (b', w') \<longrightarrow>
        srv_ok w' \<and> distinct fds \<and> set fds \<subseteq> set (srv_subscribers w'))"
proof -
  obtain c where c: "hub_conns w fd = Some c"
    using srv_ok_has_conn [OF assms(1)] assms(3) by auto
  show ?thesis
  proof (cases "cn_closed c")
    case False
    then show ?thesis using assms c by (auto simp: sweep_subscriber_def)
  next
    case True
    let ?w = "(remove_subscriber fd w)\<lparr>srv_subscribers := filter (\<lambda>q. q \<noteq> fd) (srv_subscribers w),
        hub_subs := (hub_subs w)(fd := None)\<rparr>"
    have run: "sweep_subscriber os fd (b, w) = and_then (destroy_connection os fd ?w) (\<lambda>w. Inr (b, w))"
      using True c by (simp add: sweep_subscriber_def remove_subscriber_def Let_def)
    have gone: "srv_ok w' \<and> srv_subscribers w' = filter (\<lambda>q. q \<noteq> fd) (srv_subscribers w)"
      if gone: "destroy_connection os fd ?w = Inr w'" for w'
    proof -
      obtain k where "w' = ?w\<lparr>el_callbacks := (el_callbacks w)(fd := None), el_kernel := k,
          hub_conns := (hub_conns w)(fd := None)\<rparr>"
        using destroy_connection_ok(2) [OF gone] by (auto simp: remove_subscriber_def)
      then show ?thesis using destroy_subscriber_ok [OF assms(1), of fd k] assms(3) by simp
    qed
    have "mem_safe (sweep_subscriber os fd (b, w))"
      unfolding run by (rule mem_safe_then [OF destroy_connection_ok(1)]) simp
    moreover have "srv_ok w' \<and> distinct fds \<and> set fds \<subseteq> set (srv_subscribers w')"
      if "sweep_subscriber os fd (b, w) = Inr (b', w')" for b' w'
    proof -
      have "destroy_connection os fd ?w = Inr w'" using that unfolding run and_then_Inr by blast
      from gone [OF this] show ?thesis using assms(2,3) by auto
    qed
    ultimately show ?thesis by blast
  qed
qed

text \<open>A device that is dropped: its session's alert is latched, then it and its connection go.\<close>

lemma sweep_gone_ok:
  fixes os :: "'k os" and ses now w
  assumes "srv_ok w" "fd \<in> fst ` set (srv_devices w)" "fd \<notin> set fds" "set fds \<subseteq> fst ` set (srv_devices w)"
  defines "latch \<equiv> (case ses of None \<Rightarrow> Inr w
      | Some s \<Rightarrow> latch_offline os (ds_session_id s) (ds_last_uptime_ms s) now w)"
  defines "run \<equiv> and_then latch (\<lambda>w. destroy_connection os fd
        (w\<lparr>srv_devices := AList.delete fd (srv_devices w)\<rparr>))"
  shows "mem_safe run \<and> (\<forall>w'. run = Inr w' \<longrightarrow> srv_ok w' \<and> set fds \<subseteq> fst ` set (srv_devices w'))"
proof -
  have safe: "mem_safe latch"
    using latch_offline_safe [OF srv_ok_subs [OF assms(1)]] by (simp add: latch_def split: option.split)
  have "srv_ok w' \<and> set fds \<subseteq> fst ` set (srv_devices w')"
    if latched: "latch = Inr w1"
      and gone: "destroy_connection os fd (w1\<lparr>srv_devices := AList.delete fd (srv_devices w1)\<rparr>) = Inr w'" for w1 w'
  proof -
    have k1: "keeps w w1" using latched latch_offline_keeps by (auto simp: latch_def split: option.splits)
    have ok1: "srv_ok w1" using keeps_srv_ok [OF k1 assms(1)] .
    have d1: "srv_devices w1 = srv_devices w" using k1 hub_more_fields [of w1 w] by (simp add: keeps_def)
    obtain k where "w' = w1\<lparr>srv_devices := AList.delete fd (srv_devices w1),
        el_callbacks := (el_callbacks w1)(fd := None), el_kernel := k, hub_conns := (hub_conns w1)(fd := None)\<rparr>"
      using destroy_connection_ok(2) [OF gone] by auto
    moreover have "set fds \<subseteq> fst ` set (AList.delete fd (srv_devices w))"
      using assms(3,4) arg_cong [OF delete_keys [of fd "srv_devices w"], of set] by auto
    ultimately show ?thesis using destroy_device_ok [OF ok1, of fd k] assms(2) d1 by simp
  qed
  then show ?thesis
    using safe unfolding run_def by (auto simp: and_then_Inr intro!: mem_safe_then destroy_connection_ok(1))
qed

text \<open>A device that is told to slow down.\<close>

lemma sweep_slow_ok:
  fixes os :: "'k os" and r w
  assumes "srv_ok w" "fd \<in> fst ` set (srv_devices w)" "set fds \<subseteq> fst ` set (srv_devices w)"
    "hub_conns w fd = Some c" "parser_ok 255 (ing_parser g)" "ing_session g = Some s"
  defines "run \<equiv> and_then (send_slow_down os fd r (g, w))
        (\<lambda>(g, w). Inr (w\<lparr>srv_devices := AList.update fd g (srv_devices w)\<rparr>))"
  shows "mem_safe run \<and> (\<forall>w'. run = Inr w' \<longrightarrow> srv_ok w' \<and> set fds \<subseteq> fst ` set (srv_devices w'))"
proof -
  have "srv_ok (w1\<lparr>srv_devices := AList.update fd g1 (srv_devices w1)\<rparr>) \<and>
      set fds \<subseteq> fst ` set (AList.update fd g1 (srv_devices w1))"
    if "send_slow_down os fd r (g, w) = Inr (g1, w1)" for g1 w1
  proof -
    have k: "keeps w w1" using send_slow_down_keeps [OF that] .
    have d: "srv_devices w1 = srv_devices w" using k hub_more_fields [of w1 w] by (simp add: keeps_def)
    have "parser_ok 255 (ing_parser g1)"
      using that assms(5,6) by (auto simp: send_slow_down_def and_then_Inr split: prod.splits)
    then show ?thesis
      using srv_ok_device [OF keeps_srv_ok [OF k assms(1)], of fd g1] assms(2,3) d
      by (auto simp: dom_update)
  qed
  then show ?thesis
    using send_slow_down_safe [of w fd] assms(4) unfolding run_def
    by (auto simp: and_then_Inr intro!: mem_safe_then)
qed

lemma sweep_device_ok:
  assumes "srv_ok w" "distinct (fd # fds)" "set (fd # fds) \<subseteq> fst ` set (srv_devices w)"
  shows "mem_safe (sweep_device os now congested fd w) \<and>
     (\<forall>w'. sweep_device os now congested fd w = Inr w' \<longrightarrow>
        srv_ok w' \<and> distinct fds \<and> set fds \<subseteq> fst ` set (srv_devices w'))"
proof -
  have fd: "fd \<in> fst ` set (srv_devices w)" "fd \<notin> set fds" "set fds \<subseteq> fst ` set (srv_devices w)"
    using assms(2,3) by simp_all
  obtain g where g: "map_of (srv_devices w) fd = Some g"
    using fd(1) by (metis map_of_eq_None_iff option.exhaust)
  obtain c where c: "hub_conns w fd = Some c" using srv_ok_has_conn [OF assms(1)] fd(1) by blast
  have p: "parser_ok 255 (ing_parser g)" by (rule srv_ok_parser [OF assms(1) g])
  consider (gone) "cn_closed c \<or> (case ing_session g of None \<Rightarrow> False | Some s \<Rightarrow> timed_out s now kDeviceTimeout)"
    | (slow) s where "\<not> cn_closed c" "ing_session g = Some s" "\<not> timed_out s now kDeviceTimeout" "congested"
    | (stays) "\<not> cn_closed c" "\<not> (case ing_session g of None \<Rightarrow> False | Some s \<Rightarrow> timed_out s now kDeviceTimeout)"
        "ing_session g = None \<or> \<not> congested"
    by (cases "ing_session g"; cases "cn_closed c"; cases congested) auto
  then show ?thesis
  proof cases
    case gone
    then show ?thesis
      using sweep_gone_ok [OF assms(1) fd, where os = os and ses = "ing_session g" and now = now] assms(2) g c
      by (simp add: sweep_device_def Let_def)
  next
    case slow
    then show ?thesis
      using sweep_slow_ok [OF assms(1) fd(1,3) c p slow(2)] assms(2) g c
      by (simp add: sweep_device_def Let_def)
  next
    case stays
    then have "sweep_device os now congested fd w = Inr w"
      using g c by (auto simp: sweep_device_def Let_def split: option.splits)
    then show ?thesis using assms by auto
  qed
qed

lemma sweep_subscribers_ok:
  assumes "srv_ok w"
  shows "mem_safe (fold_res (sweep_subscriber os) (srv_subscribers w) (b, w)) \<and>
      (\<forall>b' w'. fold_res (sweep_subscriber os) (srv_subscribers w) (b, w) = Inr (b', w') \<longrightarrow> srv_ok w')"
proof -
  let ?P = "\<lambda>fds (b :: bool, w). srv_ok w \<and> distinct fds \<and> set fds \<subseteq> set (srv_subscribers w)"
  have "mem_safe (fold_res (sweep_subscriber os) (srv_subscribers w) (b, w)) \<and>
      (\<forall>s'. fold_res (sweep_subscriber os) (srv_subscribers w) (b, w) = Inr s' \<longrightarrow> ?P [] s')"
  proof (rule mem_safe_sweep [of ?P])
    show "mem_safe (sweep_subscriber os fd s) \<and> (\<forall>s'. sweep_subscriber os fd s = Inr s' \<longrightarrow> ?P fds s')"
      if "?P (fd # fds) s" for fd fds s
      using that sweep_subscriber_ok [of "snd s" fd fds os "fst s"] by (cases s) auto
    show "?P (srv_subscribers w) (b, w)"
      using assms srv_ok_distinct [OF assms] by simp
  qed
  then show ?thesis by fastforce
qed

lemma sweep_devices_ok:
  assumes "srv_ok w"
  shows "mem_safe (fold_res (sweep_device os now b) (map fst (srv_devices w)) w) \<and>
      (\<forall>w'. fold_res (sweep_device os now b) (map fst (srv_devices w)) w = Inr w' \<longrightarrow> srv_ok w')"
proof -
  let ?Q = "\<lambda>fds w. srv_ok w \<and> distinct fds \<and> set fds \<subseteq> fst ` set (srv_devices w)"
  have "mem_safe (fold_res (sweep_device os now b) (map fst (srv_devices w)) w) \<and>
      (\<forall>s'. fold_res (sweep_device os now b) (map fst (srv_devices w)) w = Inr s' \<longrightarrow> ?Q [] s')"
  proof (rule mem_safe_sweep [of ?Q])
    show "mem_safe (sweep_device os now b fd s) \<and> (\<forall>s'. sweep_device os now b fd s = Inr s' \<longrightarrow> ?Q fds s')"
      if "?Q (fd # fds) s" for fd fds s
      using that sweep_device_ok [of s fd fds os now b] by blast
    show "?Q (map fst (srv_devices w)) w" using assms by (simp add: srv_ok_def)
  qed
  then show ?thesis by blast
qed

lemma housekeeping_ok:
  assumes "srv_ok w"
  shows "step_ok (Some (housekeeping os w))"
proof -
  obtain now w0 where w0: "el_now os w = (now, w0)" by fastforce
  then have ok0: "srv_ok w0" using assms by (auto simp: el_now_def split: prod.splits)
  note subs = sweep_subscribers_ok [OF ok0, of os False]
  have timer: "srv_ok (add_timer os ms cb w2) = srv_ok w2" for ms cb w2
    by (simp add: add_timer_def el_now_def split: prod.split)
  show ?thesis
  proof (rule step_ok_Some)
    show "mem_safe (housekeeping os w)"
      using w0 subs by (auto simp: housekeeping_def sweep_devices_ok intro!: mem_safe_then)
    fix w' assume "housekeeping os w = Inr w'"
    then obtain b w1 w2 where "fold_res (sweep_subscriber os) (srv_subscribers w0) (False, w0) = Inr (b, w1)"
      "fold_res (sweep_device os now b) (map fst (srv_devices w1)) w1 = Inr w2"
      "w' = add_timer os kHousekeepingInterval Tcb_Housekeeping w2"
      using w0 by (auto simp: housekeeping_def and_then_Inr)
    then show "srv_ok w'" using subs sweep_devices_ok timer by fastforce
  qed
qed

end
