(* ===== verification/Server_Steps.thy ===== *)
theory Server_Steps
  imports Server_Safety
begin

section \<open>The server as a transition system\<close>

text \<open>
  One step is one iteration of an accept loop, one event on a connection, one run of the housekeeping
  timer, or a change of the kernel and of the pending timers between them. The kernel's side of the
  bargain is the guard of the accept steps: \<open>accept4\<close> returns a descriptor that is not in use. A step's
  result is the next state or the error that ends the program.
\<close>

inductive server_step :: "'k os \<Rightarrow> 'k server \<Rightarrow> server_error + 'k server \<Rightarrow> bool" for os where
  Accept_Device:
    "el_callbacks w (srv_ingest_fd w) = Some Cb_Ingest_Listener \<Longrightarrow> el_callbacks w fd = None \<Longrightarrow>
     server_step os w (accept_device os fd w)"
| Accept_Subscriber:
    "el_callbacks w (srv_subscribe_fd w) = Some Cb_Subscribe_Listener \<Longrightarrow> el_callbacks w fd = None \<Longrightarrow>
     server_step os w (accept_subscriber os fd w)"
| Conn_Events:
    "el_callbacks w fd = Some (Cb_Conn p) \<Longrightarrow> conn_events os p events w = Some r \<Longrightarrow> server_step os w r"
| Housekeeping: "server_step os w (housekeeping os w)"
| Kernel: "server_step os w (Inr (w\<lparr>el_kernel := k, el_timers := ts\<rparr>))"

inductive server_reachable :: "'k os \<Rightarrow> 'k server \<Rightarrow> bool" for os where
  Start: "ingest_fd \<noteq> subscribe_fd \<Longrightarrow>
    register_listeners os (initial_server ingest_fd subscribe_fd k) = Inr w \<Longrightarrow> server_reachable os w"
| Step: "server_reachable os w \<Longrightarrow> server_step os w (Inr w') \<Longrightarrow> server_reachable os w'"

lemma srv_ok_step:
  assumes "srv_ok w" "server_step os w r"
  shows "mem_safe r \<and> (\<forall>w'. r = Inr w' \<longrightarrow> srv_ok w')"
  using assms(2)
proof (cases rule: server_step.cases)
  case (Accept_Device fd)
  then show ?thesis using accept_device_ok [OF assms(1), of fd os] by simp
next
  case (Accept_Subscriber fd)
  then show ?thesis using accept_subscriber_ok [OF assms(1), of fd os] by simp
next
  case (Conn_Events fd p events)
  then have "hub_conns w p \<noteq> None" using assms(1) unfolding srv_ok_def links_def by blast
  then show ?thesis using conn_events_ok [OF assms(1)] Conn_Events(2) by (auto simp: step_ok_def)
next
  case Housekeeping
  then show ?thesis using housekeeping_ok [OF assms(1), of os] by (simp add: step_ok_def)
qed (use assms(1) in simp)

lemma initial_server_ok: "srv_ok (initial_server i s k)"
  by (simp add: srv_ok_def links_def initial_server_def empty_store_def)

lemma el_add_Inr: "el_add os fd ev cb w = Inr w' \<Longrightarrow> \<exists>k. w' = w\<lparr>el_kernel := k, el_callbacks := (el_callbacks w)(fd \<mapsto> cb)\<rparr>"
  by (auto simp: el_add_def and_then_Inr split: sum.splits)

lemma srv_ok_listener:
  assumes "srv_ok w" "el_callbacks w fd = None" "\<And>p. cb \<noteq> Cb_Conn p"
  shows "srv_ok (w\<lparr>el_kernel := k, el_callbacks := (el_callbacks w)(fd \<mapsto> cb)\<rparr>)" (is "srv_ok ?w")
proof -
  have none: "hub_conns w fd = None" using assms(1,2) unfolding srv_ok_def links_def by (metis option.distinct(1))
  let ?cbs = "(el_callbacks w)(fd \<mapsto> cb)"
  have old: "\<forall>q. hub_conns w q \<noteq> None \<longrightarrow> el_callbacks w q = Some (Cb_Conn q)"
    "\<forall>q f. el_callbacks w q = Some (Cb_Conn f) \<longrightarrow> f = q \<and> hub_conns w q \<noteq> None"
    using assms(1) unfolding srv_ok_def links_def by blast+
  have "\<forall>q. hub_conns w q \<noteq> None \<longrightarrow> ?cbs q = Some (Cb_Conn q)"
    using old(1) none by auto
  moreover have "\<forall>q f. ?cbs q = Some (Cb_Conn f) \<longrightarrow> f = q \<and> hub_conns w q \<noteq> None"
    using old(2) assms(3) by auto
  moreover have eqs: "srv_devices ?w = srv_devices w" "srv_subscribers ?w = srv_subscribers w"
    "hub_conns ?w = hub_conns w" "hub_subs ?w = hub_subs w" "hub_store ?w = hub_store w" "el_callbacks ?w = ?cbs"
    by simp_all
  ultimately show ?thesis
    using assms(1) unfolding srv_ok_def links_def eqs by (elim conjE) (intro conjI, assumption+)
qed

lemma register_listeners_ok:
  assumes "register_listeners os (initial_server i s k) = Inr w" "i \<noteq> s"
  shows "srv_ok w"
proof -
  let ?w = "initial_server i s k"
  obtain w1 w2 where w: "el_add os i EPOLLIN Cb_Ingest_Listener ?w = Inr w1"
    "el_add os s EPOLLIN Cb_Subscribe_Listener w1 = Inr w2" "w = add_timer os kHousekeepingInterval Tcb_Housekeeping w2"
  proof -
    obtain w1 where w1: "el_add os (srv_ingest_fd ?w) EPOLLIN Cb_Ingest_Listener ?w = Inr w1"
      using assms(1) unfolding register_listeners_def and_then_Inr by blast
    then have "srv_subscribe_fd w1 = s" "srv_ingest_fd ?w = i"
      using el_add_Inr [OF w1] by (auto simp: initial_server_def)
    then show ?thesis
      using assms(1) w1 that by (auto simp: register_listeners_def and_then_Inr)
  qed
  obtain k1 where k1: "w1 = ?w\<lparr>el_kernel := k1, el_callbacks := (el_callbacks ?w)(i \<mapsto> Cb_Ingest_Listener)\<rparr>"
    using el_add_Inr [OF w(1)] by blast
  obtain k2 where k2: "w2 = w1\<lparr>el_kernel := k2, el_callbacks := (el_callbacks w1)(s \<mapsto> Cb_Subscribe_Listener)\<rparr>"
    using el_add_Inr [OF w(2)] by blast
  have none: "el_callbacks ?w = Map.empty" by (simp add: initial_server_def)
  have "srv_ok w1"
    unfolding k1 by (rule srv_ok_listener [OF initial_server_ok]) (simp_all add: none)
  then have "srv_ok w2"
    using assms(2) unfolding k2 by (intro srv_ok_listener) (simp_all add: k1 none)
  then show ?thesis by (simp add: w(3) add_timer_def el_now_def split: prod.split)
qed

lemma reachable_srv_ok: "server_reachable os w \<Longrightarrow> srv_ok w"
proof (induction rule: server_reachable.induct)
  case (Start i s k w)
  show ?case by (rule register_listeners_ok [OF Start(2,1)])
next
  case (Step w w')
  then show ?case using srv_ok_step by blast
qed

subsection \<open>What one sweep does to a device\<close>

definition device_gone :: "time_point \<Rightarrow> 'k server \<Rightarrow> fd \<Rightarrow> bool" where
  "device_gone now w fd =
     ((case hub_conns w fd of None \<Rightarrow> True | Some c \<Rightarrow> cn_closed c) \<or>
      (case map_of (srv_devices w) fd of None \<Rightarrow> True | Some g \<Rightarrow>
         (case ing_session g of None \<Rightarrow> False | Some s \<Rightarrow> timed_out s now kDeviceTimeout)))"

definition subscriber_gone :: "'k server \<Rightarrow> fd \<Rightarrow> bool" where
  "subscriber_gone w fd = (case hub_conns w fd of None \<Rightarrow> True | Some c \<Rightarrow> cn_closed c)"

text \<open>The entries, connections and sessions of every descriptor other than \<open>fd\<close> are as before, as far as
  the sweeps read them.\<close>

definition others_same :: "fd \<Rightarrow> 'k server \<Rightarrow> 'k server \<Rightarrow> bool" where
  "others_same fd w w' \<longleftrightarrow> (\<forall>q. q \<noteq> fd \<longrightarrow>
     rel_option conn_same (hub_conns w q) (hub_conns w' q) \<and>
     map_of (srv_devices w') q = map_of (srv_devices w) q)"

lemma others_same_gone:
  assumes "others_same fd w w'" "q \<noteq> fd"
  shows "device_gone now w' q = device_gone now w q" "subscriber_gone w' q = subscriber_gone w q"
proof -
  have "rel_option conn_same (hub_conns w q) (hub_conns w' q)" "map_of (srv_devices w') q = map_of (srv_devices w) q"
    using assms by (auto simp: others_same_def)
  then show "device_gone now w' q = device_gone now w q" "subscriber_gone w' q = subscriber_gone w q"
    by (cases "hub_conns w q"; cases "hub_conns w' q";
        auto simp: device_gone_def subscriber_gone_def conn_same_def)+
qed

lemma keeps_others_same: "keeps w w' \<Longrightarrow> others_same fd w w'" for w w' :: "'k server"
  using hub_more_fields [of w' w] by (auto simp: keeps_def others_same_def)

lemma sweep_subscriber_effect:
  assumes "sweep_subscriber os fd (b, w) = Inr (b', w')"
  shows "srv_subscribers w' = (if subscriber_gone w fd then filter (\<lambda>q. q \<noteq> fd) (srv_subscribers w)
      else srv_subscribers w) \<and> srv_devices w' = srv_devices w \<and> others_same fd w w'"
proof (cases "subscriber_gone w fd")
  case True
  then obtain c where c: "hub_conns w fd = Some c" "cn_closed c"
    using assms by (auto simp: sweep_subscriber_def subscriber_gone_def split: option.splits)
  let ?w = "(remove_subscriber fd w)\<lparr>srv_subscribers := filter (\<lambda>q. q \<noteq> fd) (srv_subscribers w),
        hub_subs := (hub_subs w)(fd := None)\<rparr>"
  have "destroy_connection os fd ?w = Inr w'"
    using assms c by (auto simp: sweep_subscriber_def Let_def and_then_Inr remove_subscriber_def)
  then obtain k where "w' = ?w\<lparr>el_callbacks := (el_callbacks ?w)(fd := None), el_kernel := k,
      hub_conns := (hub_conns ?w)(fd := None)\<rparr>"
    using destroy_connection_ok(2) by blast
  then show ?thesis
    using True by (simp add: remove_subscriber_def others_same_def option.rel_refl)
next
  case False
  then have "w' = w" using assms by (auto simp: sweep_subscriber_def subscriber_gone_def split: option.splits)
  then show ?thesis using False by (simp add: others_same_def option.rel_refl)
qed

lemma sweep_device_effect:
  assumes "sweep_device os now b fd w = Inr w'"
  shows "map fst (srv_devices w') = (if device_gone now w fd then filter (\<lambda>q. q \<noteq> fd) (map fst (srv_devices w))
      else map fst (srv_devices w)) \<and> srv_subscribers w' = srv_subscribers w \<and> others_same fd w w'"
proof -
  obtain g c where gc: "map_of (srv_devices w) fd = Some g" "hub_conns w fd = Some c"
    using assms by (auto simp: sweep_device_def split: option.splits)
  show ?thesis
  proof (cases "device_gone now w fd")
    case True
    let ?latch = "case ing_session g of None \<Rightarrow> Inr w
      | Some s \<Rightarrow> latch_offline os (ds_session_id s) (ds_last_uptime_ms s) now w"
    obtain w1 where w1: "?latch = Inr w1"
      "destroy_connection os fd (w1\<lparr>srv_devices := AList.delete fd (srv_devices w1)\<rparr>) = Inr w'"
      using assms gc True by (auto simp: sweep_device_def device_gone_def Let_def and_then_Inr)
    have k: "keeps w w1" using w1(1) latch_offline_keeps by (auto split: option.splits)
    have d: "srv_devices w1 = srv_devices w" "srv_subscribers w1 = srv_subscribers w"
      using k hub_more_fields [of w1 w] by (simp_all add: keeps_def)
    obtain k where "w' = w1\<lparr>srv_devices := AList.delete fd (srv_devices w1),
        el_callbacks := (el_callbacks w1)(fd := None), el_kernel := k, hub_conns := (hub_conns w1)(fd := None)\<rparr>"
      using destroy_connection_ok(2) [OF w1(2)] by auto
    then show ?thesis
      using True d keeps_others_same [OF k, of fd]
      by (simp add: others_same_def delete_keys delete_conv' removeAll_filter_not_eq eq_commute [of fd])
  next
    case False
    show ?thesis
    proof (cases "\<exists>s. ing_session g = Some s \<and> b")
      case True
      then obtain s where s: "ing_session g = Some s" "b" by blast
      obtain g1 w1 where w1: "send_slow_down os fd (slower_rate (ds_current_rate_hz s)) (g, w) = Inr (g1, w1)"
        "w' = w1\<lparr>srv_devices := AList.update fd g1 (srv_devices w1)\<rparr>"
        using assms gc False s by (auto simp: sweep_device_def device_gone_def Let_def and_then_Inr)
      have k: "keeps w w1" using send_slow_down_keeps [OF w1(1)] .
      have d: "srv_devices w1 = srv_devices w" "srv_subscribers w1 = srv_subscribers w"
        using k hub_more_fields [of w1 w] by (simp_all add: keeps_def)
      have "fd \<in> set (map fst (srv_devices w))" using gc(1) by (metis map_of_eq_None_iff option.distinct(1) set_map)
      then show ?thesis
        using False w1(2) d keeps_others_same [OF k, of fd]
        by (simp add: others_same_def update_keys update_conv')
    next
      case no: False
      then have "w' = w"
        using assms gc False by (auto simp: sweep_device_def device_gone_def Let_def split: option.splits)
      then show ?thesis using False by (simp add: others_same_def option.rel_refl)
    qed
  qed
qed

text \<open>A sweep that handles each entry once and leaves the others as the sweeps read them keeps exactly the
  entries that were not gone when it started.\<close>

lemma sweep_filter:
  assumes "\<And>x s s'. x \<in> set xs \<Longrightarrow> f x s = Inr s' \<Longrightarrow>
      keys s' = (if gone s x then filter (\<lambda>q. q \<noteq> x) (keys s) else keys s) \<and>
      (\<forall>q. q \<noteq> x \<longrightarrow> gone s' q = gone s q)"
  shows "distinct xs \<Longrightarrow> fold_res f xs s = Inr s' \<Longrightarrow>
      keys s' = filter (\<lambda>q. \<not> (q \<in> set xs \<and> gone s q)) (keys s) \<and> (\<forall>q. q \<notin> set xs \<longrightarrow> gone s' q = gone s q)"
  using assms
proof (induction xs arbitrary: s)
  case (Cons x xs)
  obtain s1 where s1: "f x s = Inr s1" "fold_res f xs s1 = Inr s'"
    using Cons.prems(2) by (auto simp: and_then_Inr)
  have step: "keys s1 = (if gone s x then filter (\<lambda>q. q \<noteq> x) (keys s) else keys s)"
    "\<And>q. q \<noteq> x \<Longrightarrow> gone s1 q = gone s q"
    using Cons.prems(3) [OF _ s1(1)] by auto
  have IH: "keys s' = filter (\<lambda>q. \<not> (q \<in> set xs \<and> gone s1 q)) (keys s1)"
    "\<And>q. q \<notin> set xs \<Longrightarrow> gone s' q = gone s1 q"
    using Cons.IH [of s1] Cons.prems(1,3) s1(2) by auto
  have "\<not> (q \<in> set xs \<and> gone s1 q) \<and> \<not> (q = x \<and> gone s x) \<longleftrightarrow> \<not> (q \<in> set (x # xs) \<and> gone s q)" for q
    using step(2) [of q] Cons.prems(1) by auto
  then show ?case using IH step by (auto intro!: filter_cong)
qed simp

lemma sweep_subscribers:
  assumes "fold_res (sweep_subscriber os) (srv_subscribers w) (b, w) = Inr (b', w')" "distinct (srv_subscribers w)"
  shows "srv_subscribers w' = filter (\<lambda>q. \<not> subscriber_gone w q) (srv_subscribers w) \<and>
     srv_devices w' = srv_devices w \<and> (\<forall>q. q \<notin> set (srv_subscribers w) \<longrightarrow> device_gone now w' q = device_gone now w q)"
proof -
  let ?keys = "\<lambda>(b :: bool, w). srv_subscribers w" and ?gone = "\<lambda>(b :: bool, w) q. subscriber_gone w q"
  have "?keys (b', w') = filter (\<lambda>q. \<not> (q \<in> set (srv_subscribers w) \<and> ?gone (b, w) q)) (?keys (b, w)) \<and>
      (\<forall>q. q \<notin> set (srv_subscribers w) \<longrightarrow> ?gone (b', w') q = ?gone (b, w) q)"
    by (rule sweep_filter [OF _ assms(2,1)])
      (auto dest!: sweep_subscriber_effect simp: others_same_gone split: prod.splits)
  then have subs: "srv_subscribers w' = filter (\<lambda>q. \<not> (q \<in> set (srv_subscribers w) \<and> subscriber_gone w q)) (srv_subscribers w)"
    by simp
  have "srv_devices (snd (b', w')) = srv_devices w \<and>
      (\<forall>q. q \<notin> set (srv_subscribers w) \<longrightarrow> device_gone now (snd (b', w')) q = device_gone now w q)"
  proof (rule fold_res_invariant [OF assms(1)])
    fix fd s s' assume "fd \<in> set (srv_subscribers w)" "sweep_subscriber os fd s = Inr s'"
      and same: "srv_devices (snd s) = srv_devices w \<and>
        (\<forall>q. q \<notin> set (srv_subscribers w) \<longrightarrow> device_gone now (snd s) q = device_gone now w q)"
    then show "srv_devices (snd s') = srv_devices w \<and>
        (\<forall>q. q \<notin> set (srv_subscribers w) \<longrightarrow> device_gone now (snd s') q = device_gone now w q)"
      using sweep_subscriber_effect [of os fd "fst s" "snd s" "fst s'" "snd s'"] others_same_gone(1) by fastforce
  qed simp
  then show ?thesis using subs by (auto intro: filter_cong)
qed

lemma sweep_devices:
  assumes "fold_res (sweep_device os now b) (map fst (srv_devices w)) w = Inr w'" "distinct (map fst (srv_devices w))"
  shows "map fst (srv_devices w') = filter (\<lambda>q. \<not> device_gone now w q) (map fst (srv_devices w)) \<and>
     srv_subscribers w' = srv_subscribers w"
proof -
  let ?keys = "\<lambda>w. map fst (srv_devices w)"
  have "?keys w' = filter (\<lambda>q. \<not> (q \<in> set (map fst (srv_devices w)) \<and> device_gone now w q)) (?keys w) \<and>
      (\<forall>q. q \<notin> set (map fst (srv_devices w)) \<longrightarrow> device_gone now w' q = device_gone now w q)"
    by (rule sweep_filter [OF _ assms(2,1)]) (use sweep_device_effect others_same_gone(1) in blast)
  moreover have "srv_subscribers w' = srv_subscribers w"
    by (rule fold_res_invariant [OF assms(1)]) (auto dest!: sweep_device_effect)
  ultimately show ?thesis by (auto intro: filter_cong)
qed

text \<open>\<open>k\<close> consecutive 16-bit numbers are distinct exactly as long as there are at most 65536 of them.\<close>

lemma distinct_offsets: "distinct (map (\<lambda>i. n + of_nat i) [0..<k]) \<longleftrightarrow> k \<le> 65536" for n :: u16
proof
  assume "distinct (map (\<lambda>i. n + of_nat i) [0..<k])"
  then have "card (set (map (\<lambda>i. n + of_nat i) [0..<k])) = k"
    using distinct_card by fastforce
  moreover have "card (set (map (\<lambda>i. n + of_nat i) [0..<k])) \<le> card (UNIV :: u16 set)"
    by (intro card_mono) auto
  ultimately show "k \<le> 65536" by (simp add: card_word)
next
  assume k: "k \<le> 65536"
  have "inj_on (\<lambda>i. n + of_nat i) {0..<k}"
  proof (rule inj_onI)
    fix i j assume "i \<in> {0..<k}" "j \<in> {0..<k}" "n + of_nat i = n + of_nat j"
    then have "unat (of_nat i :: u16) = unat (of_nat j :: u16)" by simp
    then show "i = j" using \<open>i \<in> _\<close> \<open>j \<in> _\<close> k by (simp add: unat_of_nat)
  qed
  then show "distinct (map (\<lambda>i. n + of_nat i) [0..<k])" by (simp add: distinct_map)
qed

lemma slower_rate_unat: "unat (slower_rate r) = max 1 (unat r div 2)"
  by (auto simp: slower_rate_def max_def word_le_nat_alt unat_div)

lemma slower_rate_floor: "(slower_rate ^^ 7) r = 1"
proof -
  have bound: "unat ((slower_rate ^^ n) r) \<le> max 1 (unat r div 2 ^ n)" for n
  proof (induction n)
    case (Suc n)
    then have "unat ((slower_rate ^^ n) r) div 2 \<le> max 1 (unat r div 2 ^ n) div 2" by (rule div_le_mono)
    also have "\<dots> \<le> max 1 (unat r div 2 ^ Suc n)"
      by (auto simp: max_def div_mult2_eq [symmetric] mult.commute)
    finally show ?case by (simp add: slower_rate_unat)
  qed simp
  have "unat ((slower_rate ^^ 7) r) \<ge> 1"
    using slower_rate_unat [of "(slower_rate ^^ 6) r"] by (simp add: numeral_eq_Suc)
  moreover have "unat r div 128 < 2" by (rule less_mult_imp_div_less) simp
  ultimately have "unat ((slower_rate ^^ 7) r) = 1" using bound [of 7] by simp
  then show ?thesis by (metis unat_1 word_unat_eq_iff)
qed

subsection \<open>Properties\<close>

text \<open>C2: memory safety of the server. From every state the running server can reach, no accept, no event
  on a connection and no housekeeping run follows a pointer or reference to a destroyed connection,
  ingest or subscriber, and none erases past the end of a receive buffer; the store's fan-out list holds
  exactly the live subscribers, and exactly the listed devices and subscribers have a connection.\<close>

theorem server_memory_safe:
  assumes "server_reachable os w" and "server_step os w r"
  shows "r \<noteq> Inl Dangling_Pointer \<and> r \<noteq> Inl Erase_Past_End \<and>
    set (st_subscribers (hub_store w)) = set (srv_subscribers w) \<and>
    (\<forall>fd. hub_conns w fd \<noteq> None \<longleftrightarrow> fd \<in> fst ` set (srv_devices w) \<union> set (srv_subscribers w))"
proof -
  have ok: "srv_ok w" by (rule reachable_srv_ok [OF assms(1)])
  have "mem_safe r" using srv_ok_step [OF ok assms(2)] by blast
  moreover have "set (st_subscribers (hub_store w)) = set (srv_subscribers w)"
    "\<forall>fd. hub_conns w fd \<noteq> None \<longleftrightarrow> fd \<in> fst ` set (srv_devices w) \<union> set (srv_subscribers w)"
    using ok unfolding srv_ok_def links_def by blast+
  ultimately show ?thesis unfolding mem_safe_def by blast
qed

definition started_server :: "int server" where
  "started_server = (initial_server 3 4 0)\<lparr>
     el_callbacks := [3 \<mapsto> Cb_Ingest_Listener, 4 \<mapsto> Cb_Subscribe_Listener],
     el_timers := [(ns_of_ms kHousekeepingInterval, Tcb_Housekeeping)]\<rparr>"

lemma started_server_reachable:
  assumes "\<And>op fd ev k. os_epoll_ctl os op fd ev k = (Inr (), k)" "\<And>k. os_now os k = (k, k)"
  shows "server_reachable os started_server"
proof (rule server_reachable.Start [of 3 4 os 0])
  show "register_listeners os (initial_server 3 4 0) = Inr started_server"
    by (simp add: register_listeners_def el_add_def el_epoll_ctl_def assms initial_server_def
        started_server_def add_timer_def el_now_def)
qed simp

lemma started_quiet: "server_reachable quiet_os started_server"
  by (rule started_server_reachable) (simp_all add: quiet_os_def)

theorem server_memory_safe_witness:
  "accept_device quiet_os 7 started_server \<noteq> Inl Dangling_Pointer \<and>
   housekeeping quiet_os started_server \<noteq> Inl Dangling_Pointer"
proof -
  have "server_step quiet_os started_server (accept_device quiet_os 7 started_server)"
    by (rule server_step.Accept_Device) (simp_all add: started_server_def initial_server_def)
  then show ?thesis
    using server_memory_safe [OF started_quiet] server_step.Housekeeping by blast
qed

text \<open>C21: housekeeping evicts exactly what is gone. A run drops exactly the subscribers whose connection
  is closed and exactly the devices whose connection is closed or whose session has been silent for
  longer than the timeout, keeps all others in order, destroys the connections of what it dropped, and
  arms the next run. A device that never sent HELLO is only dropped when its connection is closed.\<close>

theorem housekeeping_evicts:
  assumes "server_reachable os w" and "housekeeping os w = Inr w'" and "os_now os (el_kernel w) = (now, k)"
  shows "map fst (srv_devices w') = filter (\<lambda>fd. \<not> device_gone now w fd) (map fst (srv_devices w)) \<and>
     srv_subscribers w' = filter (\<lambda>fd. \<not> subscriber_gone w fd) (srv_subscribers w) \<and>
     (\<forall>fd. hub_conns w' fd \<noteq> None \<longleftrightarrow> fd \<in> fst ` set (srv_devices w') \<union> set (srv_subscribers w')) \<and>
     Tcb_Housekeeping \<in> snd ` set (el_timers w')"
proof -
  let ?w = "w\<lparr>el_kernel := k\<rparr>"
  have ok: "srv_ok w" by (rule reachable_srv_ok [OF assms(1)])
  have disj: "q \<notin> set (srv_subscribers w)" if "q \<in> set (map fst (srv_devices w))" for q
    using ok that unfolding srv_ok_def links_def set_map by blast
  have dd: "distinct (map fst (srv_devices w))" using ok by (simp add: srv_ok_def)
  obtain b w1 w2 where run: "fold_res (sweep_subscriber os) (srv_subscribers ?w) (False, ?w) = Inr (b, w1)"
    "fold_res (sweep_device os now b) (map fst (srv_devices w1)) w1 = Inr w2"
    "w' = add_timer os kHousekeepingInterval Tcb_Housekeeping w2"
    using assms(2,3) by (auto simp: housekeeping_def el_now_def and_then_Inr)
  note subs = sweep_subscribers [OF run(1), of now]
  have gone: "device_gone now ?w = device_gone now w" "subscriber_gone ?w = subscriber_gone w"
    by (auto simp: device_gone_def subscriber_gone_def fun_eq_iff)
  have 1: "srv_subscribers w1 = filter (\<lambda>fd. \<not> subscriber_gone w fd) (srv_subscribers w)"
    "srv_devices w1 = srv_devices w" "\<And>q. q \<notin> set (srv_subscribers w) \<Longrightarrow> device_gone now w1 q = device_gone now w q"
    using subs srv_ok_distinct [OF ok] gone by auto
  have 2: "map fst (srv_devices w2) = filter (\<lambda>fd. \<not> device_gone now w1 fd) (map fst (srv_devices w))"
    "srv_subscribers w2 = srv_subscribers w1"
    using sweep_devices [OF run(2)] 1(2) dd by auto
  have "filter (\<lambda>fd. \<not> device_gone now w1 fd) (map fst (srv_devices w)) =
      filter (\<lambda>fd. \<not> device_gone now w fd) (map fst (srv_devices w))"
    using 1(3) disj by (intro filter_cong) auto
  then have "map fst (srv_devices w') = filter (\<lambda>fd. \<not> device_gone now w fd) (map fst (srv_devices w))"
    "srv_subscribers w' = filter (\<lambda>fd. \<not> subscriber_gone w fd) (srv_subscribers w)"
    "Tcb_Housekeeping \<in> snd ` set (el_timers w')"
    using 1 2 run(3) by (auto simp: add_timer_def el_now_def set_timers_push split: prod.splits)
  moreover have "srv_ok w'" using srv_ok_step [OF ok server_step.Housekeeping] assms(2) by blast
  then have "\<forall>fd. hub_conns w' fd \<noteq> None \<longleftrightarrow> fd \<in> fst ` set (srv_devices w') \<union> set (srv_subscribers w')"
    unfolding srv_ok_def links_def by blast
  ultimately show ?thesis by blast
qed

text \<open>A kernel on which every peer has hung up, and the server after one device connected and its
  hang-up was noticed.\<close>

definition hangup_os :: "int os" where
  "hangup_os = quiet_os\<lparr>os_recv := (\<lambda>fd n k. (Inr [], k))\<rparr>"

definition device_server :: "int server" where
  "device_server = started_server\<lparr>
     el_callbacks := [3 \<mapsto> Cb_Ingest_Listener, 4 \<mapsto> Cb_Subscribe_Listener, 7 \<mapsto> Cb_Conn 7],
     hub_conns := [7 \<mapsto> (new_connection 7)\<lparr>cn_on_readable := Ingest_Hook\<rparr>],
     srv_devices := [(7, new_ingest 1)], srv_next_session_id := 2\<rparr>"

definition hung_up_server :: "int server" where
  "hung_up_server = device_server\<lparr>
     hub_conns := [7 \<mapsto> (new_connection 7)\<lparr>cn_on_readable := Ingest_Hook, cn_closed := True\<rparr>]\<rparr>"

lemma accept_device_hangup: "accept_device hangup_os 7 started_server = Inr device_server"
  by (simp add: accept_device_def open_connection_def el_add_def el_epoll_ctl_def hangup_os_def quiet_os_def
      started_server_def initial_server_def device_server_def set_on_readable_def Let_def)

lemma hung_up_server_reachable: "server_reachable hangup_os hung_up_server"
proof -
  have 0: "server_reachable hangup_os started_server"
    by (rule started_server_reachable) (simp_all add: quiet_os_def hangup_os_def)
  have "server_step hangup_os started_server (accept_device hangup_os 7 started_server)"
    by (rule server_step.Accept_Device) (simp_all add: started_server_def initial_server_def)
  then have 1: "server_reachable hangup_os device_server"
    using server_reachable.Step [OF 0] accept_device_hangup by simp
  have "conn_events hangup_os 7 EPOLLIN device_server = Some (Inr hung_up_server)"
    by (simp add: conn_events_def conn_try_read_def try_read.simps run_hook_def device_readable_def ing_on_readable_def
        hangup_os_def quiet_os_def EPOLLIN_def EPOLLOUT_def
        started_server_def initial_server_def device_server_def hung_up_server_def new_connection_def)
  then have "server_step hangup_os device_server (Inr hung_up_server)"
    by (rule server_step.Conn_Events [of _ 7, rotated]) (simp add: device_server_def)
  then show ?thesis by (rule server_reachable.Step [OF 1])
qed

theorem housekeeping_evicts_witness:
  "\<exists>w'. housekeeping hangup_os hung_up_server = Inr w' \<and> srv_devices w' = [] \<and> srv_subscribers w' = [] \<and>
     Tcb_Housekeeping \<in> snd ` set (el_timers w')"
proof -
  have "\<exists>w'. housekeeping hangup_os hung_up_server = Inr w'"
    by (simp add: housekeeping_def el_now_def sweep_device_def new_ingest_def destroy_connection_def el_remove_def
        el_epoll_ctl_def hangup_os_def quiet_os_def Let_def
        started_server_def initial_server_def device_server_def hung_up_server_def new_connection_def)
  then obtain w' where w': "housekeeping hangup_os hung_up_server = Inr w'" by blast
  have "os_now hangup_os (el_kernel hung_up_server) = (0, 0)"
    by (simp add: hangup_os_def quiet_os_def hung_up_server_def device_server_def started_server_def initial_server_def)
  from housekeeping_evicts [OF hung_up_server_reachable w' this] w' show ?thesis
    by (simp add: device_gone_def hung_up_server_def device_server_def started_server_def initial_server_def)
qed

text \<open>C32: session ids. Accepting a series of devices numbers them consecutively from
  \<open>next_session_id\<close>, modulo 65536, and gives each entry its own id exactly as long as the series has at
  most 65536 devices: the counter wraps and ids are handed out again after that.\<close>

theorem session_ids_distinct:
  assumes "fold_res (accept_device os) fds w = Inr w'"
  shows "map (ing_session_id \<circ> snd) (srv_devices w') = map (ing_session_id \<circ> snd) (srv_devices w) @
       map (\<lambda>i. srv_next_session_id w + of_nat i) [0..<length fds] \<and>
     srv_next_session_id w' = srv_next_session_id w + of_nat (length fds) \<and>
     (distinct (map (\<lambda>i. srv_next_session_id w + of_nat i) [0..<length fds]) \<longleftrightarrow> length fds \<le> 65536)"
proof -
  have step: "map (ing_session_id \<circ> snd) (srv_devices w2) =
      map (ing_session_id \<circ> snd) (srv_devices w1) @ [srv_next_session_id w1] \<and>
      srv_next_session_id w2 = srv_next_session_id w1 + 1" if "accept_device os fd w1 = Inr w2" for fd w1 w2
    using that by (auto simp: accept_device_def and_then_Inr set_on_readable_def new_ingest_def Let_def
        dest!: open_connection_ok(2))
  have "map (ing_session_id \<circ> snd) (srv_devices w') = map (ing_session_id \<circ> snd) (srv_devices w) @
       map (\<lambda>i. srv_next_session_id w + of_nat i) [0..<length fds] \<and>
     srv_next_session_id w' = srv_next_session_id w + of_nat (length fds)"
    using assms
  proof (induction fds arbitrary: w)
    case (Cons fd fds)
    then obtain w1 where w1: "accept_device os fd w = Inr w1" "fold_res (accept_device os) fds w1 = Inr w'"
      by (auto simp: and_then_Inr)
    have "[0..<length (fd # fds)] = 0 # map Suc [0..<length fds]"
      by (simp add: map_Suc_upt upt_conv_Cons del: upt_Suc)
    then show ?case using Cons.IH [OF w1(2)] step [OF w1(1)] by (simp add: algebra_simps o_def)
  qed simp
  moreover have "distinct (map (\<lambda>i. n + of_nat i) [0..<k]) \<longleftrightarrow> k \<le> 65536" for n :: u16 and k
    by (rule distinct_offsets)
  ultimately show ?thesis by blast
qed

theorem session_ids_distinct_witness:
  "\<exists>w'. fold_res (accept_device hangup_os) [7] started_server = Inr w' \<and>
     map (ing_session_id \<circ> snd) (srv_devices w') = [1] \<and> srv_next_session_id w' = 2"
proof -
  have "fold_res (accept_device hangup_os) [7] started_server = Inr device_server"
    using accept_device_hangup by simp
  from session_ids_distinct [OF this] this show ?thesis
    by (simp add: started_server_def initial_server_def)
qed

text \<open>Back-pressure. When a subscriber is congested, housekeeping tells every device that has a session
  and stays: a SLOW_DOWN frame with half its rate, never below 1 Hz, is appended to what the device is
  still to be sent, and the session's rate becomes the one it was told. Nothing else is sent to it, and
  seven rounds bring every rate down to 1 Hz.\<close>

theorem congestion_slows_device:
  assumes "map_of (srv_devices w) fd = Some g" and "ing_session g = Some s" and "hub_conns w fd = Some c"
    and "\<not> device_gone now w fd" and "mod_succeeds os"
  shows "(\<exists>w' g'. sweep_device os now True fd w = Inr w' \<and> map_of (srv_devices w') fd = Some g' \<and>
       ing_session g' = Some (s\<lparr>ds_current_rate_hz := slower_rate (ds_current_rate_hz s)\<rparr>) \<and>
       outbuf w' fd = outbuf w fd @ wire_frame kSlowDown (slow_down_bytes
         \<lparr>slow_down_session_id = ds_session_id s, slow_down_new_rate_hz = slower_rate (ds_current_rate_hz s)\<rparr>)) \<and>
     unat (slower_rate (ds_current_rate_hz s)) = max 1 (unat (ds_current_rate_hz s) div 2) \<and>
     (slower_rate ^^ 7) (ds_current_rate_hz s) = 1"
proof -
  let ?r = "slower_rate (ds_current_rate_hz s)"
  let ?pl = "\<lparr>slow_down_session_id = ds_session_id s, slow_down_new_rate_hz = ?r\<rparr>"
  have "length (slow_down_bytes ?pl) \<le> 255" by (simp add: slow_down_wire.length_enc sizeof_defs)
  then obtain w1 where w1: "send_frame os fd kSlowDown (slow_down_bytes ?pl) w = Inr w1"
    "outbuf w1 fd = outbuf w fd @ wire_frame kSlowDown (slow_down_bytes ?pl)"
    using send_frame_ok [OF assms(5,3), of "slow_down_bytes ?pl" kSlowDown] by blast
  have "sweep_device os now True fd w = Inr (w1\<lparr>srv_devices :=
      AList.update fd (g\<lparr>ing_session := Some (s\<lparr>ds_current_rate_hz := ?r\<rparr>)\<rparr>) (srv_devices w1)\<rparr>)"
    using assms w1(1) by (simp add: sweep_device_def device_gone_def send_slow_down_def slow_down_def Let_def)
  then show ?thesis using w1(2) slower_rate_unat slower_rate_floor by (simp add: update_conv' outbuf_def)
qed

definition session_server :: "int server" where
  "session_server = device_server\<lparr>srv_devices :=
     [(7, (new_ingest 1)\<lparr>ing_session := Some ((new_device_session 1 0)\<lparr>ds_current_rate_hz := 10\<rparr>)\<rparr>)]\<rparr>"

theorem congestion_slows_device_witness:
  "\<exists>w'. sweep_device quiet_os 0 True 7 session_server = Inr w' \<and>
     outbuf w' 7 = wire_frame kSlowDown (slow_down_bytes \<lparr>slow_down_session_id = 1, slow_down_new_rate_hz = 5\<rparr>)"
proof -
  let ?s = "(new_device_session 1 0)\<lparr>ds_current_rate_hz := 10\<rparr>"
  have "slower_rate 10 = 5" by code_simp
  then show ?thesis
    using congestion_slows_device [of session_server 7 "(new_ingest 1)\<lparr>ing_session := Some ?s\<rparr>" ?s
        "(new_connection 7)\<lparr>cn_on_readable := Ingest_Hook\<rparr>" 0 quiet_os] quiet_mod_succeeds
    by (auto simp: session_server_def device_server_def started_server_def initial_server_def new_ingest_def
        new_device_session_def device_gone_def new_connection_def timed_out_def ns_of_ms_def kDeviceTimeout_def outbuf_def)
qed

end
