(* ===== verification/Registers.thy ===== *)
theory Registers
  imports Prelude
begin

section \<open>Register blocks and bit fields\<close>

text \<open>
  What the device headers under node/cmsis describe: structs laid over memory-mapped registers, and
  bit fields of registers as pairs of macros, a position and a mask. A struct is the list of its
  members with C's layout rule (natural alignment, members in order, a union's members at one offset); a
  bit field is its name, its position and its mask, where a mask macro that refers to a macro the header
  does not declare has no value.
\<close>

subsection \<open>Structs\<close>

datatype c_type = U8 | U16 | U32

fun c_size :: "c_type \<Rightarrow> nat" where
  "c_size U8 = 1" | "c_size U16 = 2" | "c_size U32 = 4"

text \<open>A member is a name, an element type and the number of elements; a member that is a union, or an array
  of unions, has one name and type per alternative.\<close>

datatype c_member = Member string c_type nat | Union "(string \<times> c_type) list" nat

definition align_up :: "nat \<Rightarrow> nat \<Rightarrow> nat" where
  "align_up a off = ((off + (a - 1)) div a) * a"

fun member_align :: "c_member \<Rightarrow> nat" where
  "member_align (Member x t n) = c_size t"
| "member_align (Union ts n) = foldr (\<lambda>(x, t). max (c_size t)) ts 1"

definition member_size :: "c_member \<Rightarrow> nat" where
  "member_size m = member_align m * (case m of Member x t n \<Rightarrow> n | Union ts n \<Rightarrow> n)"

fun member_names :: "c_member \<Rightarrow> string list" where
  "member_names (Member x t n) = [x]"
| "member_names (Union ts n) = map fst ts"

text \<open>The members with their offsets and sizes, and the offset after the last one.\<close>

fun layout :: "nat \<Rightarrow> c_member list \<Rightarrow> (c_member \<times> nat) list" where
  "layout off [] = []"
| "layout off (m # ms) =
     (let o' = align_up (member_align m) off in (m, o') # layout (o' + member_size m) ms)"

definition offsets :: "c_member list \<Rightarrow> (string \<times> nat) list" where
  "offsets s = concat (map (\<lambda>(m, off). map (\<lambda>x. (x, off)) (member_names m)) (layout 0 s))"

fun layout_end :: "nat \<Rightarrow> c_member list \<Rightarrow> nat" where
  "layout_end off [] = off"
| "layout_end off (m # ms) = layout_end (align_up (member_align m) off + member_size m) ms"

definition offset_of :: "c_member list \<Rightarrow> string \<Rightarrow> nat option" where
  "offset_of s x = map_of (offsets s) x"

text \<open>The documented offsets that the layout does not give.\<close>

definition misplaced :: "c_member list \<Rightarrow> (string \<times> nat) list \<Rightarrow> (string \<times> nat) list" where
  "misplaced s doc = filter (\<lambda>(x, off). offset_of s x \<noteq> Some off) doc"

lemma c_size_pos [simp]: "0 < c_size t"
  by (cases t) simp_all

lemma foldr_max_pos [simp]: "0 < foldr (\<lambda>(x, t). max (c_size t)) ts (Suc 0)"
  by (induction ts) (auto simp: less_max_iff_disj)

lemma member_align_pos [simp]: "0 < member_align m"
  by (cases m) simp_all

lemma align_up_ge: "0 < a \<Longrightarrow> off \<le> align_up a off"
proof -
  assume "0 < a"
  have "off + (a - 1) < ((off + (a - 1)) div a) * a + a"
    using \<open>0 < a\<close> by (metis add.commute dividend_less_div_times mult.commute)
  then show ?thesis using \<open>0 < a\<close> by (simp add: align_up_def)
qed

lemma align_up_dvd: "a dvd align_up a off"
  by (simp add: align_up_def)

lemma layout_bounds: "(m, p) \<in> set (layout off ms) \<Longrightarrow> off \<le> p \<and> p + member_size m \<le> layout_end off ms"
proof (induction ms arbitrary: off)
  case (Cons m' ms)
  let ?o = "align_up (member_align m') off"
  have ge: "off \<le> ?o" by (rule align_up_ge) simp
  have mono: "o1 \<le> layout_end o1 ns" for o1 ns
  proof (induction ns arbitrary: o1)
    case (Cons n ns)
    have "o1 \<le> align_up (member_align n) o1 + member_size n"
      using align_up_ge [of "member_align n" o1] by simp
    then show ?case using Cons [of "align_up (member_align n) o1 + member_size n"] by simp
  qed simp
  from Cons.prems consider "(m, p) = (m', ?o)" | "(m, p) \<in> set (layout (?o + member_size m') ms)"
    by (auto simp: Let_def)
  then show ?case
  proof cases
    case 1
    then show ?thesis using ge mono [of "?o + member_size m'" ms] by simp
  next
    case 2
    then show ?thesis using Cons.IH [OF 2] ge by simp
  qed
qed simp

text \<open>No two members of a struct overlap, and every member is aligned.\<close>

lemma layout_disjoint:
  "i < j \<Longrightarrow> j < length (layout off ms) \<Longrightarrow>
   snd (layout off ms ! i) + member_size (fst (layout off ms ! i)) \<le> snd (layout off ms ! j)"
proof (induction ms arbitrary: off i j)
  case (Cons m ms)
  let ?o = "align_up (member_align m) off"
  show ?case
  proof (cases i)
    case 0
    then obtain j' where j': "j = Suc j'" using Cons.prems(1) by (cases j) auto
    have mem: "layout (?o + member_size m) ms ! j' \<in> set (layout (?o + member_size m) ms)"
      using Cons.prems(2) j' by (simp add: Let_def)
    then show ?thesis
      using layout_bounds [of "fst (layout (?o + member_size m) ms ! j')" "snd (layout (?o + member_size m) ms ! j')"
          "?o + member_size m" ms] 0 j' by (simp add: Let_def)
  next
    case (Suc i')
    then obtain j' where "j = Suc j'" using Cons.prems(1) by (cases j) auto
    then show ?thesis using Cons.IH [of i' j' "?o + member_size m"] Cons.prems Suc by (simp add: Let_def)
  qed
qed simp

lemma layout_aligned: "(m, p) \<in> set (layout off ms) \<Longrightarrow> member_align m dvd p"
  by (induction ms arbitrary: off) (auto simp: Let_def align_up_dvd)

subsection \<open>Bit fields\<close>

type_synonym bit_field = "string \<times> nat \<times> u32 option"
type_synonym register_fields = "string \<times> bit_field list"

text \<open>\<open>_Msk\<close> macros of the form \<open>(value << x_Pos)\<close>; those with the shift commented out; and those that shift by
  another macro, looked up among the position macros that the header declares.\<close>

definition shifted :: "string \<Rightarrow> nat \<Rightarrow> u32 \<Rightarrow> bit_field" where
  "shifted x pos v = (x, pos, Some (push_bit pos v))"

definition unshifted :: "string \<Rightarrow> nat \<Rightarrow> u32 \<Rightarrow> bit_field" where
  "unshifted x pos v = (x, pos, Some v)"

definition shifted_by :: "(string \<times> nat) list \<Rightarrow> string \<Rightarrow> nat \<Rightarrow> u32 \<Rightarrow> string \<Rightarrow> bit_field" where
  "shifted_by positions x pos v macro = (x, pos, map_option (\<lambda>p. push_bit p v) (map_of positions macro))"

text \<open>\<open>_VAL2FLD\<close> and \<open>_FLD2VAL\<close>.\<close>

definition VAL2FLD :: "nat \<Rightarrow> u32 \<Rightarrow> u32 \<Rightarrow> u32" where
  "VAL2FLD pos msk v = push_bit pos v AND msk"

definition FLD2VAL :: "nat \<Rightarrow> u32 \<Rightarrow> u32 \<Rightarrow> u32" where
  "FLD2VAL pos msk v = drop_bit pos (v AND msk)"

text \<open>A mask is well-placed when it is a contiguous run of ones that starts at the position.\<close>

definition well_placed :: "nat \<Rightarrow> u32 \<Rightarrow> bool" where
  "well_placed pos msk \<longleftrightarrow>
     pos < 32 \<and> bit msk pos \<and> push_bit pos (drop_bit pos msk) = msk \<and> drop_bit pos msk AND (drop_bit pos msk + 1) = 0"

text \<open>The fields of a register whose mask is undeclared; those whose mask is not where the position says;
  and the pairs that share bits.\<close>

definition undeclared_fields :: "register_fields \<Rightarrow> (string \<times> string) list" where
  "undeclared_fields = (\<lambda>(r, fs). map (\<lambda>(x, _). (r, x)) (filter (\<lambda>(x, pos, m). m = None) fs))"

definition misplaced_fields :: "register_fields \<Rightarrow> (string \<times> string) list" where
  "misplaced_fields = (\<lambda>(r, fs). map (\<lambda>(x, _). (r, x))
     (filter (\<lambda>(x, pos, m). case m of None \<Rightarrow> False | Some m \<Rightarrow> \<not> well_placed pos m) fs))"

definition mask_of :: "bit_field \<Rightarrow> u32" where
  "mask_of = (\<lambda>(x, pos, m). case m of None \<Rightarrow> 0 | Some m \<Rightarrow> m)"

fun overlaps_in :: "bit_field list \<Rightarrow> (string \<times> string) list" where
  "overlaps_in [] = []"
| "overlaps_in (f # fs) =
     map (\<lambda>g. (fst f, fst g)) (filter (\<lambda>g. mask_of f AND mask_of g \<noteq> 0) fs) @ overlaps_in fs"

definition overlapping_fields :: "register_fields \<Rightarrow> (string \<times> string \<times> string) list" where
  "overlapping_fields = (\<lambda>(r, fs). map (\<lambda>(x, y). (r, x, y)) (overlaps_in fs))"

lemma VAL2FLD_in_mask: "VAL2FLD pos msk v AND NOT msk = 0"
  by (rule bit_word_eqI) (simp add: VAL2FLD_def bit_simps)

lemma VAL2FLD_bit: "bit (VAL2FLD pos msk v) i \<longleftrightarrow> pos \<le> i \<and> i < 32 \<and> bit v (i - pos) \<and> bit msk i"
  by (auto simp: VAL2FLD_def bit_simps)

lemma FLD2VAL_bit: "bit (FLD2VAL pos msk v) i \<longleftrightarrow> bit v (pos + i) \<and> bit msk (pos + i)"
  by (auto simp: FLD2VAL_def bit_simps)

lemma bit_push_drop: "push_bit pos (drop_bit pos m) = m \<Longrightarrow> bit m i \<Longrightarrow> pos \<le> i" for m :: u32
  by (metis bit_push_bit_iff)

text \<open>Writing a field and reading it back, here and through another field of the register.\<close>

lemma FLD2VAL_VAL2FLD: "FLD2VAL pos msk (VAL2FLD pos msk v) = v AND drop_bit pos msk"
proof (rule bit_word_eqI)
  fix i assume "i < LENGTH(32)"
  have "bit msk (pos + i) \<Longrightarrow> pos + i < 32" using bit_imp_le_length [of msk "pos + i"] by simp
  then show "bit (FLD2VAL pos msk (VAL2FLD pos msk v)) i = bit (v AND drop_bit pos msk) i"
    by (auto simp: FLD2VAL_bit VAL2FLD_bit bit_simps)
qed

lemma FLD2VAL_other:
  assumes "msk AND msk' = 0"
  shows "FLD2VAL pos' msk' (VAL2FLD pos msk v OR (w AND NOT msk)) = FLD2VAL pos' msk' w"
proof (rule bit_word_eqI)
  fix i assume "i < LENGTH(32)"
  have "\<not> (bit msk j \<and> bit msk' j)" for j
    using arg_cong [OF assms, of "\<lambda>w. bit w j"] by (simp add: bit_simps)
  moreover have "bit msk' (pos' + i) \<Longrightarrow> pos' + i < 32"
    using bit_imp_le_length [of msk' "pos' + i"] by simp
  ultimately show "bit (FLD2VAL pos' msk' (VAL2FLD pos msk v OR (w AND NOT msk))) i = bit (FLD2VAL pos' msk' w) i"
    by (auto simp: FLD2VAL_bit VAL2FLD_bit bit_simps)
qed

lemma FLD2VAL_same:
  "FLD2VAL pos msk (VAL2FLD pos msk v OR (w AND NOT msk)) = v AND drop_bit pos msk"
proof (rule bit_word_eqI)
  fix i assume "i < LENGTH(32)"
  have "bit msk (pos + i) \<Longrightarrow> pos + i < 32" using bit_imp_le_length [of msk "pos + i"] by simp
  then show "bit (FLD2VAL pos msk (VAL2FLD pos msk v OR (w AND NOT msk))) i = bit (v AND drop_bit pos msk) i"
    by (auto simp: FLD2VAL_bit VAL2FLD_bit bit_simps)
qed

text \<open>A number that shares no bit with its successor is a run of ones.\<close>

lemma and_Suc_mask: "x AND Suc x = 0 \<Longrightarrow> \<exists>n. x = mask n" for x :: nat
proof (induction x rule: less_induct)
  case (less x)
  show ?case
  proof (cases "even x")
    case True
    then have "x AND Suc x = x" using and_nat_unfold [of x "Suc x"] by (auto elim!: evenE)
    then show ?thesis using less.prems by (intro exI [of _ 0]) simp
  next
    case False
    then obtain y where y: "x = 2 * y + 1" by (meson oddE)
    have "x AND Suc x = 2 * (y AND Suc y)" using and_nat_unfold [of x "Suc x"] by (simp add: y)
    then have "y AND Suc y = 0" using less.prems by simp
    then obtain n where "y = mask n" using less.IH [of y] y by auto
    moreover have "0 < (2 :: nat) ^ n" by simp
    ultimately have "x = mask (Suc n)" using y unfolding mask_eq_exp_minus_1 power_Suc by linarith
    then show ?thesis by blast
  qed
qed

lemma and_successor_mask: "x AND (x + 1) = 0 \<Longrightarrow> \<exists>n \<le> 32. x = mask n" for x :: u32
proof (cases "x = - 1")
  case True
  then show ?thesis by (intro exI [of _ 32]) (simp add: mask_eq_exp_minus_1)
next
  case False
  assume "x AND (x + 1) = 0"
  moreover have "unat (x + 1) = Suc (unat x)" using False by (metis add.commute eq_neg_iff_add_eq_0 unatSuc)
  ultimately have "unat x AND Suc (unat x) = 0" by (metis unsigned_0 unsigned_and_eq)
  then obtain n where "unat x = mask n" using and_Suc_mask by blast
  moreover have "unat x < 2 ^ 32" using unsigned_less [of x, where ?'a = nat] by simp
  ultimately have "(2 :: nat) ^ n \<le> 2 ^ 32" by (simp add: mask_eq_exp_minus_1)
  then have "n \<le> 32" by (rule power_le_imp_le_exp [rotated]) simp
  moreover have "x = mask n" using \<open>unat x = mask n\<close> by (metis of_nat_mask_eq of_nat_unat ucast_id)
  ultimately show ?thesis by blast
qed

lemma well_placed_run:
  assumes "well_placed pos msk"
  shows "\<exists>n. 0 < n \<and> pos + n \<le> 32 \<and> msk = push_bit pos (mask n)"
proof -
  obtain n where n: "drop_bit pos msk = mask n" "n \<le> 32"
    using assms and_successor_mask unfolding well_placed_def by blast
  have pos: "pos < 32" "bit msk pos" and msk: "msk = push_bit pos (mask n)"
    using assms n(1) by (simp_all add: well_placed_def)
  have "bit (drop_bit pos msk) 0" using pos by (simp add: bit_drop_bit_eq)
  then have "0 < n" using n(1) by (cases n) simp_all
  moreover have "n - 1 < 32 - pos"
  proof -
    have "bit (drop_bit pos msk) (n - 1)" using n \<open>0 < n\<close> by (simp add: bit_mask_iff)
    then have "pos + (n - 1) < 32" using bit_imp_le_length [of msk "pos + (n - 1)"] by (simp add: bit_drop_bit_eq)
    then show ?thesis by simp
  qed
  ultimately show ?thesis using msk by (intro exI [of _ n]) auto
qed

lemma overlaps_in_complete:
  "f \<in> set fs \<Longrightarrow> g \<in> set fs \<Longrightarrow> f \<noteq> g \<Longrightarrow> mask_of f AND mask_of g \<noteq> 0 \<Longrightarrow>
   (fst f, fst g) \<in> set (overlaps_in fs) \<or> (fst g, fst f) \<in> set (overlaps_in fs)"
  by (induction fs) (auto simp: and.commute)

end
