(* ===== verification/Cmsdk_Device.thy ===== *)
theory Cmsdk_Device
  imports Registers "HOL-Library.Code_Target_Nat"
begin

section \<open>The CMSDK device header (node/cmsis/CMSDK_CM3.h)\<close>

text \<open>
  The interrupt numbers, the register blocks of the device's peripherals, their bit-field macros and the
  memory map. \<open>*_documented\<close> lists the offsets that the comments on a struct's members give. A mask macro
  that shifts by another macro than its field's position names that macro; the fields are listed under the
  register their macro's name gives.
\<close>

definition IRQn_Type :: "(string \<times> int) list" where
  "IRQn_Type = [
     (''NonMaskableInt_IRQn'', -14), (''HardFault_IRQn'', -13), (''MemoryManagement_IRQn'', -12),
     (''BusFault_IRQn'', -11), (''UsageFault_IRQn'', -10), (''SVCall_IRQn'', -5),
     (''DebugMonitor_IRQn'', -4), (''PendSV_IRQn'', -2), (''SysTick_IRQn'', -1),
     (''UARTRX0_IRQn'', 0), (''UARTTX0_IRQn'', 1), (''UARTRX1_IRQn'', 2), (''UARTTX1_IRQn'', 3),
     (''UARTRX2_IRQn'', 4), (''UARTTX2_IRQn'', 5), (''PORT0_ALL_IRQn'', 6),
     (''PORT1_ALL_IRQn'', 7), (''TIMER0_IRQn'', 8), (''TIMER1_IRQn'', 9), (''DUALTIMER_IRQn'', 10),
     (''SPI_IRQn'', 11), (''UARTOVF_IRQn'', 12), (''ETHERNET_IRQn'', 13), (''I2S_IRQn'', 14),
     (''TSC_IRQn'', 15), (''PORT2_ALL_IRQn'', 16), (''PORT3_ALL_IRQn'', 17),
     (''UARTRX3_IRQn'', 18), (''UARTTX3_IRQn'', 19), (''UARTRX4_IRQn'', 20),
     (''UARTTX4_IRQn'', 21), (''ADCSPI_IRQn'', 22), (''SHIELDSPI_IRQn'', 23),
     (''PORT0_0_IRQn'', 24), (''PORT0_1_IRQn'', 25), (''PORT0_2_IRQn'', 26),
     (''PORT0_3_IRQn'', 27), (''PORT0_4_IRQn'', 28), (''PORT0_5_IRQn'', 29),
     (''PORT0_6_IRQn'', 30), (''PORT0_7_IRQn'', 31)]"

definition CM3_REV :: u32 where "CM3_REV = 0x0201"

definition NVIC_PRIO_BITS :: nat where "NVIC_PRIO_BITS = 3"

definition CMSDK_UART_TypeDef :: "c_member list" where
  "CMSDK_UART_TypeDef = [
     Member ''DATA'' U32 1,
     Member ''STATE'' U32 1,
     Member ''CTRL'' U32 1,
     Union [(''INTSTATUS'', U32), (''INTCLEAR'', U32)] 1,
     Member ''BAUDDIV'' U32 1]"

definition CMSDK_UART_documented :: "(string \<times> nat) list" where
  "CMSDK_UART_documented = [
     (''DATA'', 0x0), (''STATE'', 0x4), (''CTRL'', 0x8), (''INTSTATUS'', 0xC), (''INTCLEAR'', 0xC),
     (''BAUDDIV'', 0x10)]"

definition CMSDK_UART_fields :: "register_fields list" where
  "CMSDK_UART_fields = [
     (''DATA'',
      [shifted ''DATA'' 0 0xFF]),
     (''STATE'',
      [shifted ''RXOR'' 3 1, shifted ''TXOR'' 2 1, shifted ''RXBF'' 1 1, shifted ''TXBF'' 0 1]),
     (''CTRL'',
      [shifted ''HSTM'' 6 1, shifted ''RXORIRQEN'' 5 1, shifted ''TXORIRQEN'' 4 1,
       shifted ''RXIRQEN'' 3 1, shifted ''TXIRQEN'' 2 1, shifted ''RXEN'' 1 1,
       shifted ''TXEN'' 0 1, shifted ''RXORIRQ'' 3 1, shifted ''TXORIRQ'' 2 1,
       shifted ''RXIRQ'' 1 1, shifted ''TXIRQ'' 0 1]),
     (''BAUDDIV'',
      [shifted ''BAUDDIV'' 0 0xFFFFF])]"

definition CMSDK_TIMER_TypeDef :: "c_member list" where
  "CMSDK_TIMER_TypeDef = [
     Member ''CTRL'' U32 1,
     Member ''VALUE'' U32 1,
     Member ''RELOAD'' U32 1,
     Union [(''INTSTATUS'', U32), (''INTCLEAR'', U32)] 1]"

definition CMSDK_TIMER_documented :: "(string \<times> nat) list" where
  "CMSDK_TIMER_documented = [
     (''CTRL'', 0x0), (''VALUE'', 0x4), (''RELOAD'', 0x8), (''INTSTATUS'', 0xC), (''INTCLEAR'', 0xC)]"

definition CMSDK_TIMER_fields :: "register_fields list" where
  "CMSDK_TIMER_fields = [
     (''CTRL'',
      [shifted ''IRQEN'' 3 1, shifted ''SELEXTCLK'' 2 1, shifted ''SELEXTEN'' 1 1,
       shifted ''EN'' 0 1]),
     (''VAL'',
      [shifted ''CURRENT'' 0 0xFFFFFFFF]),
     (''RELOAD'',
      [shifted ''VAL'' 0 0xFFFFFFFF]),
     (''INTSTATUS'',
      [shifted ''INTSTATUS'' 0 1]),
     (''INTCLEAR'',
      [shifted ''INTCLEAR'' 0 1])]"

definition CMSDK_DUALTIMER_BOTH_TypeDef :: "c_member list" where
  "CMSDK_DUALTIMER_BOTH_TypeDef = [
     Member ''Timer1Load'' U32 1,
     Member ''Timer1Value'' U32 1,
     Member ''Timer1Control'' U32 1,
     Member ''Timer1IntClr'' U32 1,
     Member ''Timer1RIS'' U32 1,
     Member ''Timer1MIS'' U32 1,
     Member ''Timer1BGLoad'' U32 1,
     Member ''RESERVED0'' U32 1,
     Member ''Timer2Load'' U32 1,
     Member ''Timer2Value'' U32 1,
     Member ''Timer2Control'' U32 1,
     Member ''Timer2IntClr'' U32 1,
     Member ''Timer2RIS'' U32 1,
     Member ''Timer2MIS'' U32 1,
     Member ''Timer2BGLoad'' U32 1,
     Member ''RESERVED1'' U32 945,
     Member ''ITCR'' U32 1,
     Member ''ITOP'' U32 1]"

definition CMSDK_DUALTIMER_BOTH_documented :: "(string \<times> nat) list" where
  "CMSDK_DUALTIMER_BOTH_documented = [
     (''Timer1Load'', 0x0), (''Timer1Value'', 0x4), (''Timer1Control'', 0x8),
     (''Timer1IntClr'', 0xC), (''Timer1RIS'', 0x10), (''Timer1MIS'', 0x14),
     (''Timer1BGLoad'', 0x18), (''Timer2Load'', 0x20), (''Timer2Value'', 0x24),
     (''Timer2Control'', 0x28), (''Timer2IntClr'', 0x2C), (''Timer2RIS'', 0x30),
     (''Timer2MIS'', 0x34), (''Timer2BGLoad'', 0x38), (''ITCR'', 0xF00), (''ITOP'', 0xF04)]"

definition CMSDK_DUALTIMER1_fields :: "register_fields list" where
  "CMSDK_DUALTIMER1_fields = [
     (''LOAD'',
      [shifted ''LOAD'' 0 0xFFFFFFFF]),
     (''VALUE'',
      [shifted ''VALUE'' 0 0xFFFFFFFF]),
     (''CTRL'',
      [shifted ''EN'' 7 1, shifted ''MODE'' 6 1, shifted ''INTEN'' 5 1, shifted ''PRESCALE'' 2 3,
       shifted ''SIZE'' 1 1, shifted ''ONESHOOT'' 0 1]),
     (''INTCLR'',
      [shifted ''INTCLR'' 0 1]),
     (''RAWINTSTAT'',
      [shifted ''RAWINTSTAT'' 0 1]),
     (''MASKINTSTAT'',
      [shifted ''MASKINTSTAT'' 0 1]),
     (''BGLOAD'',
      [shifted ''BGLOAD'' 0 0xFFFFFFFF])]"

definition CMSDK_DUALTIMER2_fields :: "register_fields list" where
  "CMSDK_DUALTIMER2_fields = [
     (''LOAD'',
      [shifted ''LOAD'' 0 0xFFFFFFFF]),
     (''VALUE'',
      [shifted ''VALUE'' 0 0xFFFFFFFF]),
     (''CTRL'',
      [shifted ''EN'' 7 1, shifted ''MODE'' 6 1, shifted ''INTEN'' 5 1, shifted ''PRESCALE'' 2 3,
       shifted ''SIZE'' 1 1, shifted ''ONESHOOT'' 0 1]),
     (''INTCLR'',
      [shifted ''INTCLR'' 0 1]),
     (''RAWINTSTAT'',
      [shifted ''RAWINTSTAT'' 0 1]),
     (''MASKINTSTAT'',
      [shifted ''MASKINTSTAT'' 0 1]),
     (''BGLOAD'',
      [shifted ''BGLOAD'' 0 0xFFFFFFFF])]"

definition CMSDK_DUALTIMER_SINGLE_TypeDef :: "c_member list" where
  "CMSDK_DUALTIMER_SINGLE_TypeDef = [
     Member ''TimerLoad'' U32 1,
     Member ''TimerValue'' U32 1,
     Member ''TimerControl'' U32 1,
     Member ''TimerIntClr'' U32 1,
     Member ''TimerRIS'' U32 1,
     Member ''TimerMIS'' U32 1,
     Member ''TimerBGLoad'' U32 1]"

definition CMSDK_DUALTIMER_SINGLE_documented :: "(string \<times> nat) list" where
  "CMSDK_DUALTIMER_SINGLE_documented = [
     (''TimerLoad'', 0x0), (''TimerValue'', 0x0), (''TimerControl'', 0x0), (''TimerIntClr'', 0x0),
     (''TimerRIS'', 0x0), (''TimerMIS'', 0x0), (''TimerBGLoad'', 0x0)]"

definition CMSDK_DUALTIMER_fields :: "register_fields list" where
  "CMSDK_DUALTIMER_fields = [
     (''LOAD'',
      [shifted ''LOAD'' 0 0xFFFFFFFF]),
     (''VALUE'',
      [shifted ''VALUE'' 0 0xFFFFFFFF]),
     (''CTRL'',
      [shifted ''EN'' 7 1, shifted ''MODE'' 6 1, shifted ''INTEN'' 5 1, shifted ''PRESCALE'' 2 3,
       shifted ''SIZE'' 1 1, shifted ''ONESHOOT'' 0 1]),
     (''INTCLR'',
      [shifted ''INTCLR'' 0 1]),
     (''RAWINTSTAT'',
      [shifted ''RAWINTSTAT'' 0 1]),
     (''MASKINTSTAT'',
      [shifted ''MASKINTSTAT'' 0 1]),
     (''BGLOAD'',
      [shifted ''BGLOAD'' 0 0xFFFFFFFF])]"

definition CMSDK_GPIO_TypeDef :: "c_member list" where
  "CMSDK_GPIO_TypeDef = [
     Member ''DATA'' U32 1,
     Member ''DATAOUT'' U32 1,
     Member ''RESERVED0'' U32 2,
     Member ''OUTENABLESET'' U32 1,
     Member ''OUTENABLECLR'' U32 1,
     Member ''ALTFUNCSET'' U32 1,
     Member ''ALTFUNCCLR'' U32 1,
     Member ''INTENSET'' U32 1,
     Member ''INTENCLR'' U32 1,
     Member ''INTTYPESET'' U32 1,
     Member ''INTTYPECLR'' U32 1,
     Member ''INTPOLSET'' U32 1,
     Member ''INTPOLCLR'' U32 1,
     Union [(''INTSTATUS'', U32), (''INTCLEAR'', U32)] 1,
     Member ''RESERVED1'' U32 241,
     Member ''LB_MASKED'' U32 256,
     Member ''UB_MASKED'' U32 256]"

definition CMSDK_GPIO_documented :: "(string \<times> nat) list" where
  "CMSDK_GPIO_documented = [
     (''DATA'', 0x0), (''DATAOUT'', 0x4), (''OUTENABLESET'', 0x10), (''OUTENABLECLR'', 0x14),
     (''ALTFUNCSET'', 0x18), (''ALTFUNCCLR'', 0x1C), (''INTENSET'', 0x20), (''INTENCLR'', 0x24),
     (''INTTYPESET'', 0x28), (''INTTYPECLR'', 0x2C), (''INTPOLSET'', 0x30), (''INTPOLCLR'', 0x34),
     (''INTSTATUS'', 0x38), (''INTCLEAR'', 0x38), (''LB_MASKED'', 0x400), (''UB_MASKED'', 0x800)]"

text \<open>The position macros of the GPIO block, and its masks: ten of them shift by a macro named after two registers.\<close>

definition CMSDK_GPIO_positions :: "(string \<times> nat) list" where
  "CMSDK_GPIO_positions = [
     (''CMSDK_GPIO_DATA_Pos'', 0), (''CMSDK_GPIO_DATAOUT_Pos'', 0), (''CMSDK_GPIO_OUTENSET_Pos'', 0),
     (''CMSDK_GPIO_OUTENCLR_Pos'', 0), (''CMSDK_GPIO_ALTFUNCSET_Pos'', 0), (''CMSDK_GPIO_ALTFUNCCLR_Pos'', 0),
     (''CMSDK_GPIO_INTENSET_Pos'', 0), (''CMSDK_GPIO_INTENCLR_Pos'', 0), (''CMSDK_GPIO_INTTYPESET_Pos'', 0),
     (''CMSDK_GPIO_INTTYPECLR_Pos'', 0), (''CMSDK_GPIO_INTPOLSET_Pos'', 0), (''CMSDK_GPIO_INTPOLCLR_Pos'', 0),
     (''CMSDK_GPIO_INTSTATUS_Pos'', 0), (''CMSDK_GPIO_INTCLEAR_Pos'', 0), (''CMSDK_GPIO_MASKLOWBYTE_Pos'', 0),
     (''CMSDK_GPIO_MASKHIGHBYTE_Pos'', 0)]"

definition CMSDK_GPIO_fields :: "register_fields list" where
  "CMSDK_GPIO_fields = [
     (''DATA'',
      [shifted ''DATA'' 0 0xFFFF]),
     (''DATAOUT'',
      [shifted ''DATAOUT'' 0 0xFFFF]),
     (''OUTENSET'',
      [shifted_by CMSDK_GPIO_positions ''OUTENSET'' 0 0xFFFF ''CMSDK_GPIO_OUTEN_Pos'']),
     (''OUTENCLR'',
      [shifted_by CMSDK_GPIO_positions ''OUTENCLR'' 0 0xFFFF ''CMSDK_GPIO_OUTEN_Pos'']),
     (''ALTFUNCSET'',
      [shifted_by CMSDK_GPIO_positions ''ALTFUNCSET'' 0 0xFFFF ''CMSDK_GPIO_ALTFUNC_Pos'']),
     (''ALTFUNCCLR'',
      [shifted_by CMSDK_GPIO_positions ''ALTFUNCCLR'' 0 0xFFFF ''CMSDK_GPIO_ALTFUNC_Pos'']),
     (''INTENSET'',
      [shifted_by CMSDK_GPIO_positions ''INTENSET'' 0 0xFFFF ''CMSDK_GPIO_INTEN_Pos'']),
     (''INTENCLR'',
      [shifted_by CMSDK_GPIO_positions ''INTENCLR'' 0 0xFFFF ''CMSDK_GPIO_INTEN_Pos'']),
     (''INTTYPESET'',
      [shifted_by CMSDK_GPIO_positions ''INTTYPESET'' 0 0xFFFF ''CMSDK_GPIO_INTTYPE_Pos'']),
     (''INTTYPECLR'',
      [shifted_by CMSDK_GPIO_positions ''INTTYPECLR'' 0 0xFFFF ''CMSDK_GPIO_INTTYPE_Pos'']),
     (''INTPOLSET'',
      [shifted_by CMSDK_GPIO_positions ''INTPOLSET'' 0 0xFFFF ''CMSDK_GPIO_INTPOL_Pos'']),
     (''INTPOLCLR'',
      [shifted_by CMSDK_GPIO_positions ''INTPOLCLR'' 0 0xFFFF ''CMSDK_GPIO_INTPOL_Pos'']),
     (''INTSTATUS'',
      [shifted ''INTSTATUS'' 0 0xFF]),
     (''INTCLEAR'',
      [shifted ''INTCLEAR'' 0 0xFF]),
     (''MASKLOWBYTE'',
      [shifted ''MASKLOWBYTE'' 0 0xFF]),
     (''MASKHIGHBYTE'',
      [shifted ''MASKHIGHBYTE'' 0 0xFF00])]"

definition CMSDK_SYSCON_TypeDef :: "c_member list" where
  "CMSDK_SYSCON_TypeDef = [
     Member ''REMAP'' U32 1,
     Member ''PMUCTRL'' U32 1,
     Member ''RESETOP'' U32 1,
     Member ''EMICTRL'' U32 1,
     Member ''RSTINFO'' U32 1]"

definition CMSDK_SYSCON_documented :: "(string \<times> nat) list" where
  "CMSDK_SYSCON_documented = [
     (''REMAP'', 0x0), (''PMUCTRL'', 0x4), (''RESETOP'', 0x8), (''EMICTRL'', 0xC),
     (''RSTINFO'', 0x10)]"

definition CMSDK_SYSCON_fields :: "register_fields list" where
  "CMSDK_SYSCON_fields = [
     (''REMAP'',
      [shifted ''REMAP'' 0 1]),
     (''PMUCTRL'',
      [shifted ''EN'' 0 1]),
     (''LOCKUPRST_RESETOP'',
      [shifted ''LOCKUPRST_RESETOP'' 0 1]),
     (''EMICTRL'',
      [shifted ''SIZE'' 24 1, shifted ''TACYC'' 16 7, shifted ''WCYC'' 8 3, shifted ''RCYC'' 0 7]),
     (''RSTINFO'',
      [shifted ''SYSRESETREQ'' 0 1, shifted ''WDOGRESETREQ'' 1 1, shifted ''LOCKUPRESET'' 2 1])]"

definition CMSDK_PL230_TypeDef :: "c_member list" where
  "CMSDK_PL230_TypeDef = [
     Member ''DMA_STATUS'' U32 1,
     Member ''DMA_CFG'' U32 1,
     Member ''CTRL_BASE_PTR'' U32 1,
     Member ''ALT_CTRL_BASE_PTR'' U32 1,
     Member ''DMA_WAITONREQ_STATUS'' U32 1,
     Member ''CHNL_SW_REQUEST'' U32 1,
     Member ''CHNL_USEBURST_SET'' U32 1,
     Member ''CHNL_USEBURST_CLR'' U32 1,
     Member ''CHNL_REQ_MASK_SET'' U32 1,
     Member ''CHNL_REQ_MASK_CLR'' U32 1,
     Member ''CHNL_ENABLE_SET'' U32 1,
     Member ''CHNL_ENABLE_CLR'' U32 1,
     Member ''CHNL_PRI_ALT_SET'' U32 1,
     Member ''CHNL_PRI_ALT_CLR'' U32 1,
     Member ''CHNL_PRIORITY_SET'' U32 1,
     Member ''CHNL_PRIORITY_CLR'' U32 1,
     Member ''RESERVED0'' U32 3,
     Member ''ERR_CLR'' U32 1]"

definition CMSDK_PL230_documented :: "(string \<times> nat) list" where
  "CMSDK_PL230_documented = [
     (''DMA_STATUS'', 0x0), (''DMA_CFG'', 0x4), (''CTRL_BASE_PTR'', 0x8),
     (''ALT_CTRL_BASE_PTR'', 0xC), (''DMA_WAITONREQ_STATUS'', 0x10), (''CHNL_SW_REQUEST'', 0x14),
     (''CHNL_USEBURST_SET'', 0x18), (''CHNL_USEBURST_CLR'', 0x1C), (''CHNL_REQ_MASK_SET'', 0x20),
     (''CHNL_REQ_MASK_CLR'', 0x24), (''CHNL_ENABLE_SET'', 0x28), (''CHNL_ENABLE_CLR'', 0x2C),
     (''CHNL_PRI_ALT_SET'', 0x30), (''CHNL_PRI_ALT_CLR'', 0x34), (''CHNL_PRIORITY_SET'', 0x38),
     (''CHNL_PRIORITY_CLR'', 0x3C), (''ERR_CLR'', 0x4C)]"

definition CMSDK_PL230_fields :: "register_fields list" where
  "CMSDK_PL230_fields = [
     (''DMA_STATUS'',
      [shifted ''MSTREN'' 0 1, shifted ''STATE'' 0 0xF, shifted ''CHNLS_MINUS1'' 0 0x1F,
       shifted ''TEST_STATUS'' 0 1]),
     (''DMA_CFG'',
      [shifted ''MSTREN'' 0 1, shifted ''CPCCACHE'' 2 1, shifted ''CPCBUF'' 1 1,
       shifted ''CPCPRIV'' 0 1]),
     (''CTRL_BASE_PTR'',
      [shifted ''CTRL_BASE_PTR'' 5 0xFFFFFFF]),
     (''ALT_CTRL_BASE_PTR'',
      [shifted ''ALT_CTRL_BASE_PTR'' 0 0xFFFFFFFF]),
     (''DMA_WAITONREQ_STATUS'',
      [shifted ''DMA_WAITONREQ_STATUS'' 0 0xFFFFFFFF]),
     (''CHNL_SW_REQUEST'',
      [shifted ''CHNL_SW_REQUEST'' 0 0xFFFFFFFF]),
     (''CHNL_USEBURST_SET'',
      [shifted ''CHNL_USEBURST_SET'' 0 0xFFFFFFFF]),
     (''CHNL_USEBURST_CLR'',
      [shifted ''CHNL_USEBURST_CLR'' 0 0xFFFFFFFF]),
     (''CHNL_REQ_MASK_SET'',
      [shifted ''CHNL_REQ_MASK_SET'' 0 0xFFFFFFFF]),
     (''CHNL_REQ_MASK_CLR'',
      [shifted ''CHNL_REQ_MASK_CLR'' 0 0xFFFFFFFF]),
     (''CHNL_ENABLE_SET'',
      [shifted ''CHNL_ENABLE_SET'' 0 0xFFFFFFFF]),
     (''CHNL_ENABLE_CLR'',
      [shifted ''CHNL_ENABLE_CLR'' 0 0xFFFFFFFF]),
     (''CHNL_PRI_ALT_SET'',
      [shifted ''CHNL_PRI_ALT_SET'' 0 0xFFFFFFFF]),
     (''CHNL_PRI_ALT_CLR'',
      [shifted ''CHNL_PRI_ALT_CLR'' 0 0xFFFFFFFF]),
     (''CHNL_PRIORITY_SET'',
      [shifted ''CHNL_PRIORITY_SET'' 0 0xFFFFFFFF]),
     (''CHNL_PRIORITY_CLR'',
      [shifted ''CHNL_PRIORITY_CLR'' 0 0xFFFFFFFF]),
     (''ERR_CLR'',
      [shifted ''ERR_CLR'' 0 1])]"

definition CMSDK_WATCHDOG_TypeDef :: "c_member list" where
  "CMSDK_WATCHDOG_TypeDef = [
     Member ''LOAD'' U32 1,
     Member ''VALUE'' U32 1,
     Member ''CTRL'' U32 1,
     Member ''INTCLR'' U32 1,
     Member ''RAWINTSTAT'' U32 1,
     Member ''MASKINTSTAT'' U32 1,
     Member ''RESERVED0'' U32 762,
     Member ''LOCK'' U32 1,
     Member ''RESERVED1'' U32 191,
     Member ''ITCR'' U32 1,
     Member ''ITOP'' U32 1]"

definition CMSDK_WATCHDOG_documented :: "(string \<times> nat) list" where
  "CMSDK_WATCHDOG_documented = [
     (''LOAD'', 0x0), (''VALUE'', 0x4), (''CTRL'', 0x8), (''INTCLR'', 0xC), (''RAWINTSTAT'', 0x10),
     (''MASKINTSTAT'', 0x14), (''LOCK'', 0xC00), (''ITCR'', 0xF00), (''ITOP'', 0xF04)]"

definition CMSDK_Watchdog_fields :: "register_fields list" where
  "CMSDK_Watchdog_fields = [
     (''LOAD'',
      [shifted ''LOAD'' 0 0xFFFFFFFF]),
     (''VALUE'',
      [shifted ''VALUE'' 0 0xFFFFFFFF]),
     (''CTRL'',
      [shifted ''RESEN'' 1 1, shifted ''INTEN'' 0 1]),
     (''INTCLR'',
      [shifted ''INTCLR'' 0 1]),
     (''RAWINTSTAT'',
      [shifted ''RAWINTSTAT'' 0 1]),
     (''MASKINTSTAT'',
      [shifted ''MASKINTSTAT'' 0 1]),
     (''LOCK'',
      [shifted ''LOCK'' 0 1]),
     (''INTEGTESTEN'',
      [shifted ''INTEGTESTEN'' 0 1]),
     (''INTEGTESTOUTSET'',
      [shifted ''INTEGTESTOUTSET'' 1 1])]"

subsection \<open>Memory map\<close>

definition CMSDK_FLASH_BASE :: nat where "CMSDK_FLASH_BASE = 0x0"

definition CMSDK_SRAM_BASE :: nat where "CMSDK_SRAM_BASE = 0x20000000"

definition CMSDK_PERIPH_BASE :: nat where "CMSDK_PERIPH_BASE = 0x40000000"

definition CMSDK_RAM_BASE :: nat where "CMSDK_RAM_BASE = 0x20000000"

definition CMSDK_APB_BASE :: nat where "CMSDK_APB_BASE = 0x40000000"

definition CMSDK_AHB_BASE :: nat where "CMSDK_AHB_BASE = 0x40010000"

definition CMSDK_TIMER0_BASE :: nat where "CMSDK_TIMER0_BASE = CMSDK_APB_BASE + 0x0"

definition CMSDK_TIMER1_BASE :: nat where "CMSDK_TIMER1_BASE = CMSDK_APB_BASE + 0x1000"

definition CMSDK_DUALTIMER_BASE :: nat where "CMSDK_DUALTIMER_BASE = CMSDK_APB_BASE + 0x2000"

definition CMSDK_DUALTIMER_1_BASE :: nat where "CMSDK_DUALTIMER_1_BASE = CMSDK_DUALTIMER_BASE"

definition CMSDK_DUALTIMER_2_BASE :: nat where "CMSDK_DUALTIMER_2_BASE = CMSDK_DUALTIMER_BASE + 0x20"

definition CMSDK_UART0_BASE :: nat where "CMSDK_UART0_BASE = CMSDK_APB_BASE + 0x4000"

definition CMSDK_UART1_BASE :: nat where "CMSDK_UART1_BASE = CMSDK_APB_BASE + 0x5000"

definition CMSDK_UART2_BASE :: nat where "CMSDK_UART2_BASE = CMSDK_APB_BASE + 0x6000"

definition CMSDK_UART3_BASE :: nat where "CMSDK_UART3_BASE = CMSDK_APB_BASE + 0x7000"

definition CMSDK_WATCHDOG_BASE :: nat where "CMSDK_WATCHDOG_BASE = CMSDK_APB_BASE + 0x8000"

definition CMSDK_UART4_BASE :: nat where "CMSDK_UART4_BASE = CMSDK_APB_BASE + 0x9000"

definition CMSDK_PL230_BASE :: nat where "CMSDK_PL230_BASE = CMSDK_APB_BASE + 0xF000"

definition CMSDK_GPIO0_BASE :: nat where "CMSDK_GPIO0_BASE = CMSDK_AHB_BASE + 0x0"

definition CMSDK_GPIO1_BASE :: nat where "CMSDK_GPIO1_BASE = CMSDK_AHB_BASE + 0x1000"

definition CMSDK_GPIO2_BASE :: nat where "CMSDK_GPIO2_BASE = CMSDK_AHB_BASE + 0x2000"

definition CMSDK_GPIO3_BASE :: nat where "CMSDK_GPIO3_BASE = CMSDK_AHB_BASE + 0x3000"

definition CMSDK_SYSCTRL_BASE :: nat where "CMSDK_SYSCTRL_BASE = CMSDK_AHB_BASE + 0xF000"

definition CMSDK_peripherals :: "(string \<times> nat \<times> c_member list) list" where
  "CMSDK_peripherals = [
     (''CMSDK_UART0'', CMSDK_UART0_BASE, CMSDK_UART_TypeDef),
     (''CMSDK_UART1'', CMSDK_UART1_BASE, CMSDK_UART_TypeDef),
     (''CMSDK_UART2'', CMSDK_UART2_BASE, CMSDK_UART_TypeDef),
     (''CMSDK_UART3'', CMSDK_UART3_BASE, CMSDK_UART_TypeDef),
     (''CMSDK_UART4'', CMSDK_UART4_BASE, CMSDK_UART_TypeDef),
     (''CMSDK_TIMER0'', CMSDK_TIMER0_BASE, CMSDK_TIMER_TypeDef),
     (''CMSDK_TIMER1'', CMSDK_TIMER1_BASE, CMSDK_TIMER_TypeDef),
     (''CMSDK_DUALTIMER'', CMSDK_DUALTIMER_BASE, CMSDK_DUALTIMER_BOTH_TypeDef),
     (''CMSDK_DUALTIMER1'', CMSDK_DUALTIMER_1_BASE, CMSDK_DUALTIMER_SINGLE_TypeDef),
     (''CMSDK_DUALTIMER2'', CMSDK_DUALTIMER_2_BASE, CMSDK_DUALTIMER_SINGLE_TypeDef),
     (''CMSDK_WATCHDOG'', CMSDK_WATCHDOG_BASE, CMSDK_WATCHDOG_TypeDef),
     (''CMSDK_DMA'', CMSDK_PL230_BASE, CMSDK_PL230_TypeDef),
     (''CMSDK_GPIO0'', CMSDK_GPIO0_BASE, CMSDK_GPIO_TypeDef),
     (''CMSDK_GPIO1'', CMSDK_GPIO1_BASE, CMSDK_GPIO_TypeDef),
     (''CMSDK_GPIO2'', CMSDK_GPIO2_BASE, CMSDK_GPIO_TypeDef),
     (''CMSDK_GPIO3'', CMSDK_GPIO3_BASE, CMSDK_GPIO_TypeDef),
     (''CMSDK_SYSCON'', CMSDK_SYSCTRL_BASE, CMSDK_SYSCON_TypeDef)]"


end
