(* ===== verification/Core_Cm3.thy ===== *)
theory Core_Cm3
  imports Registers "HOL-Library.Code_Target_Nat"
begin

section \<open>The Cortex-M3 core registers (node/cmsis/core_cm3.h)\<close>

text \<open>
  The processor's status registers, the register blocks of the system control space and of the debug
  components, their bit-field macros and base addresses, for the configuration of CMSDK_CM3.h (core
  r2p1, MPU present): of the conditional parts, the branch that is compiled.
\<close>

text \<open>The bit-field structs of the status registers: a name and a width per member, from bit 0 up.\<close>

definition APSR_Type :: "(string \<times> nat) list" where
  "APSR_Type = [
     (''_reserved0'', 27), (''Q'', 1), (''V'', 1), (''C'', 1), (''Z'', 1), (''N'', 1)]"

definition IPSR_Type :: "(string \<times> nat) list" where
  "IPSR_Type = [
     (''ISR'', 9), (''_reserved0'', 23)]"

definition xPSR_Type :: "(string \<times> nat) list" where
  "xPSR_Type = [
     (''ISR'', 9), (''_reserved0'', 1), (''ICI_IT_1'', 6), (''_reserved1'', 8), (''T'', 1),
     (''ICI_IT_2'', 2), (''Q'', 1), (''V'', 1), (''C'', 1), (''Z'', 1), (''N'', 1)]"

definition CONTROL_Type :: "(string \<times> nat) list" where
  "CONTROL_Type = [
     (''nPRIV'', 1), (''SPSEL'', 1), (''_reserved1'', 30)]"

definition PSR_fields :: "register_fields list" where
  "PSR_fields = [
     (''APSR'',
      [shifted ''N'' 31 1, shifted ''Z'' 30 1, shifted ''C'' 29 1, shifted ''V'' 28 1,
       shifted ''Q'' 27 1]),
     (''IPSR'',
      [unshifted ''ISR'' 0 0x1FF]),
     (''xPSR'',
      [shifted ''N'' 31 1, shifted ''Z'' 30 1, shifted ''C'' 29 1, shifted ''V'' 28 1,
       shifted ''Q'' 27 1, shifted ''ICI_IT_2'' 25 3, shifted ''T'' 24 1,
       shifted ''ICI_IT_1'' 10 0x3F, unshifted ''ISR'' 0 0x1FF]),
     (''CONTROL'',
      [shifted ''SPSEL'' 1 1, unshifted ''nPRIV'' 0 1])]"

definition NVIC_Type :: "c_member list" where
  "NVIC_Type = [
     Member ''ISER'' U32 8,
     Member ''RESERVED0'' U32 24,
     Member ''ICER'' U32 8,
     Member ''RESERVED1'' U32 24,
     Member ''ISPR'' U32 8,
     Member ''RESERVED2'' U32 24,
     Member ''ICPR'' U32 8,
     Member ''RESERVED3'' U32 24,
     Member ''IABR'' U32 8,
     Member ''RESERVED4'' U32 56,
     Member ''IP'' U8 240,
     Member ''RESERVED5'' U32 644,
     Member ''STIR'' U32 1]"

definition NVIC_documented :: "(string \<times> nat) list" where
  "NVIC_documented = [
     (''ISER'', 0x0), (''ICER'', 0x80), (''ISPR'', 0x100), (''ICPR'', 0x180), (''IABR'', 0x200),
     (''IP'', 0x300), (''STIR'', 0xE00)]"

definition NVIC_fields :: "register_fields list" where
  "NVIC_fields = [
     (''STIR'',
      [unshifted ''INTID'' 0 0x1FF])]"

definition SCB_Type :: "c_member list" where
  "SCB_Type = [
     Member ''CPUID'' U32 1,
     Member ''ICSR'' U32 1,
     Member ''VTOR'' U32 1,
     Member ''AIRCR'' U32 1,
     Member ''SCR'' U32 1,
     Member ''CCR'' U32 1,
     Member ''SHP'' U8 12,
     Member ''SHCSR'' U32 1,
     Member ''CFSR'' U32 1,
     Member ''HFSR'' U32 1,
     Member ''DFSR'' U32 1,
     Member ''MMFAR'' U32 1,
     Member ''BFAR'' U32 1,
     Member ''AFSR'' U32 1,
     Member ''PFR'' U32 2,
     Member ''DFR'' U32 1,
     Member ''ADR'' U32 1,
     Member ''MMFR'' U32 4,
     Member ''ISAR'' U32 5,
     Member ''RESERVED0'' U32 5,
     Member ''CPACR'' U32 1]"

definition SCB_documented :: "(string \<times> nat) list" where
  "SCB_documented = [
     (''CPUID'', 0x0), (''ICSR'', 0x4), (''VTOR'', 0x8), (''AIRCR'', 0xC), (''SCR'', 0x10),
     (''CCR'', 0x14), (''SHP'', 0x18), (''SHCSR'', 0x24), (''CFSR'', 0x28), (''HFSR'', 0x2C),
     (''DFSR'', 0x30), (''MMFAR'', 0x34), (''BFAR'', 0x38), (''AFSR'', 0x3C), (''PFR'', 0x40),
     (''DFR'', 0x48), (''ADR'', 0x4C), (''MMFR'', 0x50), (''ISAR'', 0x60), (''CPACR'', 0x88)]"

definition SCB_control_fields :: "register_fields list" where
  "SCB_control_fields = [
     (''CPUID'',
      [shifted ''IMPLEMENTER'' 24 0xFF, shifted ''VARIANT'' 20 0xF,
       shifted ''ARCHITECTURE'' 16 0xF, shifted ''PARTNO'' 4 0xFFF, unshifted ''REVISION'' 0 0xF]),
     (''ICSR'',
      [shifted ''NMIPENDSET'' 31 1, shifted ''PENDSVSET'' 28 1, shifted ''PENDSVCLR'' 27 1,
       shifted ''PENDSTSET'' 26 1, shifted ''PENDSTCLR'' 25 1, shifted ''ISRPREEMPT'' 23 1,
       shifted ''ISRPENDING'' 22 1, shifted ''VECTPENDING'' 12 0x1FF, shifted ''RETTOBASE'' 11 1,
       unshifted ''VECTACTIVE'' 0 0x1FF]),
     (''VTOR'',
      [shifted ''TBLOFF'' 7 0x1FFFFFF]),
     (''AIRCR'',
      [shifted ''VECTKEY'' 16 0xFFFF, shifted ''VECTKEYSTAT'' 16 0xFFFF,
       shifted ''ENDIANESS'' 15 1, shifted ''PRIGROUP'' 8 7, shifted ''SYSRESETREQ'' 2 1,
       shifted ''VECTCLRACTIVE'' 1 1, unshifted ''VECTRESET'' 0 1]),
     (''SCR'',
      [shifted ''SEVONPEND'' 4 1, shifted ''SLEEPDEEP'' 2 1, shifted ''SLEEPONEXIT'' 1 1]),
     (''CCR'',
      [shifted ''STKALIGN'' 9 1, shifted ''BFHFNMIGN'' 8 1, shifted ''DIV_0_TRP'' 4 1,
       shifted ''UNALIGN_TRP'' 3 1])]"

definition SCB_fault_fields :: "register_fields list" where
  "SCB_fault_fields = [
     (''CCR'',
      [shifted ''USERSETMPEND'' 1 1, unshifted ''NONBASETHRDENA'' 0 1]),
     (''SHCSR'',
      [shifted ''USGFAULTENA'' 18 1, shifted ''BUSFAULTENA'' 17 1, shifted ''MEMFAULTENA'' 16 1,
       shifted ''SVCALLPENDED'' 15 1, shifted ''BUSFAULTPENDED'' 14 1,
       shifted ''MEMFAULTPENDED'' 13 1, shifted ''USGFAULTPENDED'' 12 1,
       shifted ''SYSTICKACT'' 11 1, shifted ''PENDSVACT'' 10 1, shifted ''MONITORACT'' 8 1,
       shifted ''SVCALLACT'' 7 1, shifted ''USGFAULTACT'' 3 1, shifted ''BUSFAULTACT'' 1 1,
       unshifted ''MEMFAULTACT'' 0 1]),
     (''CFSR'',
      [shifted ''USGFAULTSR'' 16 0xFFFF, shifted ''BUSFAULTSR'' 8 0xFF,
       unshifted ''MEMFAULTSR'' 0 0xFF, shifted ''MMARVALID'' 7 1, shifted ''MSTKERR'' 4 1,
       shifted ''MUNSTKERR'' 3 1, shifted ''DACCVIOL'' 1 1, unshifted ''IACCVIOL'' 0 1,
       shifted ''BFARVALID'' 15 1, shifted ''STKERR'' 12 1, shifted ''UNSTKERR'' 11 1,
       shifted ''IMPRECISERR'' 10 1, shifted ''PRECISERR'' 9 1, shifted ''IBUSERR'' 8 1,
       shifted ''DIVBYZERO'' 25 1, shifted ''UNALIGNED'' 24 1, shifted ''NOCP'' 19 1,
       shifted ''INVPC'' 18 1, shifted ''INVSTATE'' 17 1, shifted ''UNDEFINSTR'' 16 1]),
     (''HFSR'',
      [shifted ''DEBUGEVT'' 31 1, shifted ''FORCED'' 30 1, shifted ''VECTTBL'' 1 1]),
     (''DFSR'',
      [shifted ''EXTERNAL'' 4 1, shifted ''VCATCH'' 3 1, shifted ''DWTTRAP'' 2 1,
       shifted ''BKPT'' 1 1, unshifted ''HALTED'' 0 1])]"

definition SCnSCB_Type :: "c_member list" where
  "SCnSCB_Type = [
     Member ''RESERVED0'' U32 1,
     Member ''ICTR'' U32 1,
     Member ''ACTLR'' U32 1]"

definition SCnSCB_documented :: "(string \<times> nat) list" where
  "SCnSCB_documented = [
     (''ICTR'', 0x4), (''ACTLR'', 0x8)]"

definition SCnSCB_fields :: "register_fields list" where
  "SCnSCB_fields = [
     (''ICTR'',
      [unshifted ''INTLINESNUM'' 0 0xF]),
     (''ACTLR'',
      [shifted ''DISOOFP'' 9 1, shifted ''DISFPCA'' 8 1, shifted ''DISFOLD'' 2 1,
       shifted ''DISDEFWBUF'' 1 1, unshifted ''DISMCYCINT'' 0 1])]"

definition SysTick_Type :: "c_member list" where
  "SysTick_Type = [
     Member ''CTRL'' U32 1,
     Member ''LOAD'' U32 1,
     Member ''VAL'' U32 1,
     Member ''CALIB'' U32 1]"

definition SysTick_documented :: "(string \<times> nat) list" where
  "SysTick_documented = [
     (''CTRL'', 0x0), (''LOAD'', 0x4), (''VAL'', 0x8), (''CALIB'', 0xC)]"

definition SysTick_fields :: "register_fields list" where
  "SysTick_fields = [
     (''CTRL'',
      [shifted ''COUNTFLAG'' 16 1, shifted ''CLKSOURCE'' 2 1, shifted ''TICKINT'' 1 1,
       unshifted ''ENABLE'' 0 1]),
     (''LOAD'',
      [unshifted ''RELOAD'' 0 0xFFFFFF]),
     (''VAL'',
      [unshifted ''CURRENT'' 0 0xFFFFFF]),
     (''CALIB'',
      [shifted ''NOREF'' 31 1, shifted ''SKEW'' 30 1, unshifted ''TENMS'' 0 0xFFFFFF])]"

definition ITM_Type :: "c_member list" where
  "ITM_Type = [
     Union [(''u8'', U8), (''u16'', U16), (''u32'', U32)] 32,
     Member ''RESERVED0'' U32 864,
     Member ''TER'' U32 1,
     Member ''RESERVED1'' U32 15,
     Member ''TPR'' U32 1,
     Member ''RESERVED2'' U32 15,
     Member ''TCR'' U32 1,
     Member ''RESERVED3'' U32 32,
     Member ''RESERVED4'' U32 43,
     Member ''LAR'' U32 1,
     Member ''LSR'' U32 1,
     Member ''RESERVED5'' U32 6,
     Member ''PID4'' U32 1,
     Member ''PID5'' U32 1,
     Member ''PID6'' U32 1,
     Member ''PID7'' U32 1,
     Member ''PID0'' U32 1,
     Member ''PID1'' U32 1,
     Member ''PID2'' U32 1,
     Member ''PID3'' U32 1,
     Member ''CID0'' U32 1,
     Member ''CID1'' U32 1,
     Member ''CID2'' U32 1,
     Member ''CID3'' U32 1]"

definition ITM_documented :: "(string \<times> nat) list" where
  "ITM_documented = [
     (''u8'', 0x0), (''u16'', 0x0), (''u32'', 0x0), (''TER'', 0xE00), (''TPR'', 0xE40),
     (''TCR'', 0xE80), (''LAR'', 0xFB0), (''LSR'', 0xFB4), (''PID4'', 0xFD0), (''PID5'', 0xFD4),
     (''PID6'', 0xFD8), (''PID7'', 0xFDC), (''PID0'', 0xFE0), (''PID1'', 0xFE4), (''PID2'', 0xFE8),
     (''PID3'', 0xFEC), (''CID0'', 0xFF0), (''CID1'', 0xFF4), (''CID2'', 0xFF8), (''CID3'', 0xFFC)]"

definition ITM_fields :: "register_fields list" where
  "ITM_fields = [
     (''TPR'',
      [unshifted ''PRIVMASK'' 0 0xFFFFFFFF]),
     (''TCR'',
      [shifted ''BUSY'' 23 1, shifted ''TraceBusID'' 16 0x7F, shifted ''GTSFREQ'' 10 3,
       shifted ''TSPrescale'' 8 3, shifted ''SWOENA'' 4 1, shifted ''DWTENA'' 3 1,
       shifted ''SYNCENA'' 2 1, shifted ''TSENA'' 1 1, unshifted ''ITMENA'' 0 1]),
     (''LSR'',
      [shifted ''ByteAcc'' 2 1, shifted ''Access'' 1 1, unshifted ''Present'' 0 1])]"

definition DWT_Type :: "c_member list" where
  "DWT_Type = [
     Member ''CTRL'' U32 1,
     Member ''CYCCNT'' U32 1,
     Member ''CPICNT'' U32 1,
     Member ''EXCCNT'' U32 1,
     Member ''SLEEPCNT'' U32 1,
     Member ''LSUCNT'' U32 1,
     Member ''FOLDCNT'' U32 1,
     Member ''PCSR'' U32 1,
     Member ''COMP0'' U32 1,
     Member ''MASK0'' U32 1,
     Member ''FUNCTION0'' U32 1,
     Member ''RESERVED0'' U32 1,
     Member ''COMP1'' U32 1,
     Member ''MASK1'' U32 1,
     Member ''FUNCTION1'' U32 1,
     Member ''RESERVED1'' U32 1,
     Member ''COMP2'' U32 1,
     Member ''MASK2'' U32 1,
     Member ''FUNCTION2'' U32 1,
     Member ''RESERVED2'' U32 1,
     Member ''COMP3'' U32 1,
     Member ''MASK3'' U32 1,
     Member ''FUNCTION3'' U32 1]"

definition DWT_documented :: "(string \<times> nat) list" where
  "DWT_documented = [
     (''CTRL'', 0x0), (''CYCCNT'', 0x4), (''CPICNT'', 0x8), (''EXCCNT'', 0xC),
     (''SLEEPCNT'', 0x10), (''LSUCNT'', 0x14), (''FOLDCNT'', 0x18), (''PCSR'', 0x1C),
     (''COMP0'', 0x20), (''MASK0'', 0x24), (''FUNCTION0'', 0x28), (''COMP1'', 0x30),
     (''MASK1'', 0x34), (''FUNCTION1'', 0x38), (''COMP2'', 0x40), (''MASK2'', 0x44),
     (''FUNCTION2'', 0x48), (''COMP3'', 0x50), (''MASK3'', 0x54), (''FUNCTION3'', 0x58)]"

definition DWT_fields :: "register_fields list" where
  "DWT_fields = [
     (''CTRL'',
      [shifted ''NUMCOMP'' 28 0xF, shifted ''NOTRCPKT'' 27 1, shifted ''NOEXTTRIG'' 26 1,
       shifted ''NOCYCCNT'' 25 1, shifted ''NOPRFCNT'' 24 1, shifted ''CYCEVTENA'' 22 1,
       shifted ''FOLDEVTENA'' 21 1, shifted ''LSUEVTENA'' 20 1, shifted ''SLEEPEVTENA'' 19 1,
       shifted ''EXCEVTENA'' 18 1, shifted ''CPIEVTENA'' 17 1, shifted ''EXCTRCENA'' 16 1,
       shifted ''PCSAMPLENA'' 12 1, shifted ''SYNCTAP'' 10 3, shifted ''CYCTAP'' 9 1,
       shifted ''POSTINIT'' 5 0xF, shifted ''POSTPRESET'' 1 0xF, unshifted ''CYCCNTENA'' 0 1]),
     (''CPICNT'',
      [unshifted ''CPICNT'' 0 0xFF]),
     (''EXCCNT'',
      [unshifted ''EXCCNT'' 0 0xFF]),
     (''SLEEPCNT'',
      [unshifted ''SLEEPCNT'' 0 0xFF]),
     (''LSUCNT'',
      [unshifted ''LSUCNT'' 0 0xFF]),
     (''FOLDCNT'',
      [unshifted ''FOLDCNT'' 0 0xFF]),
     (''MASK'',
      [unshifted ''MASK'' 0 0x1F]),
     (''FUNCTION'',
      [shifted ''MATCHED'' 24 1, shifted ''DATAVADDR1'' 16 0xF, shifted ''DATAVADDR0'' 12 0xF,
       shifted ''DATAVSIZE'' 10 3, shifted ''LNK1ENA'' 9 1, shifted ''DATAVMATCH'' 8 1,
       shifted ''CYCMATCH'' 7 1, shifted ''EMITRANGE'' 5 1, unshifted ''FUNCTION'' 0 0xF])]"

definition TPI_Type :: "c_member list" where
  "TPI_Type = [
     Member ''SSPSR'' U32 1,
     Member ''CSPSR'' U32 1,
     Member ''RESERVED0'' U32 2,
     Member ''ACPR'' U32 1,
     Member ''RESERVED1'' U32 55,
     Member ''SPPR'' U32 1,
     Member ''RESERVED2'' U32 131,
     Member ''FFSR'' U32 1,
     Member ''FFCR'' U32 1,
     Member ''FSCR'' U32 1,
     Member ''RESERVED3'' U32 759,
     Member ''TRIGGER'' U32 1,
     Member ''FIFO0'' U32 1,
     Member ''ITATBCTR2'' U32 1,
     Member ''RESERVED4'' U32 1,
     Member ''ITATBCTR0'' U32 1,
     Member ''FIFO1'' U32 1,
     Member ''ITCTRL'' U32 1,
     Member ''RESERVED5'' U32 39,
     Member ''CLAIMSET'' U32 1,
     Member ''CLAIMCLR'' U32 1,
     Member ''RESERVED7'' U32 8,
     Member ''DEVID'' U32 1,
     Member ''DEVTYPE'' U32 1]"

definition TPI_documented :: "(string \<times> nat) list" where
  "TPI_documented = [
     (''SSPSR'', 0x0), (''CSPSR'', 0x4), (''ACPR'', 0x10), (''SPPR'', 0xF0), (''FFSR'', 0x300),
     (''FFCR'', 0x304), (''FSCR'', 0x308), (''TRIGGER'', 0xEE8), (''FIFO0'', 0xEEC),
     (''ITATBCTR2'', 0xEF0), (''ITATBCTR0'', 0xEF8), (''FIFO1'', 0xEFC), (''ITCTRL'', 0xF00),
     (''CLAIMSET'', 0xFA0), (''CLAIMCLR'', 0xFA4), (''DEVID'', 0xFC8), (''DEVTYPE'', 0xFCC)]"

definition TPI_fields :: "register_fields list" where
  "TPI_fields = [
     (''ACPR'',
      [unshifted ''PRESCALER'' 0 0x1FFF]),
     (''SPPR'',
      [unshifted ''TXMODE'' 0 3]),
     (''FFSR'',
      [shifted ''FtNonStop'' 3 1, shifted ''TCPresent'' 2 1, shifted ''FtStopped'' 1 1,
       unshifted ''FlInProg'' 0 1]),
     (''FFCR'',
      [shifted ''TrigIn'' 8 1, shifted ''EnFCont'' 1 1]),
     (''TRIGGER'',
      [unshifted ''TRIGGER'' 0 1]),
     (''FIFO0'',
      [shifted ''ITM_ATVALID'' 29 1, shifted ''ITM_bytecount'' 27 3, shifted ''ETM_ATVALID'' 26 1,
       shifted ''ETM_bytecount'' 24 3, shifted ''ETM2'' 16 0xFF, shifted ''ETM1'' 8 0xFF,
       unshifted ''ETM0'' 0 0xFF]),
     (''ITATBCTR2'',
      [unshifted ''ATREADY2'' 0 1, unshifted ''ATREADY1'' 0 1]),
     (''FIFO1'',
      [shifted ''ITM_ATVALID'' 29 1, shifted ''ITM_bytecount'' 27 3, shifted ''ETM_ATVALID'' 26 1,
       shifted ''ETM_bytecount'' 24 3, shifted ''ITM2'' 16 0xFF, shifted ''ITM1'' 8 0xFF,
       unshifted ''ITM0'' 0 0xFF]),
     (''ITATBCTR0'',
      [unshifted ''ATREADY2'' 0 1, unshifted ''ATREADY1'' 0 1]),
     (''ITCTRL'',
      [unshifted ''Mode'' 0 3]),
     (''DEVID'',
      [shifted ''NRZVALID'' 11 1, shifted ''MANCVALID'' 10 1, shifted ''PTINVALID'' 9 1,
       shifted ''MinBufSz'' 6 7, shifted ''AsynClkIn'' 5 1, unshifted ''NrTraceInput'' 0 0x1F]),
     (''DEVTYPE'',
      [unshifted ''SubType'' 4 0xF, shifted ''MajorType'' 0 0xF])]"

definition MPU_Type :: "c_member list" where
  "MPU_Type = [
     Member ''TYPE'' U32 1,
     Member ''CTRL'' U32 1,
     Member ''RNR'' U32 1,
     Member ''RBAR'' U32 1,
     Member ''RASR'' U32 1,
     Member ''RBAR_A1'' U32 1,
     Member ''RASR_A1'' U32 1,
     Member ''RBAR_A2'' U32 1,
     Member ''RASR_A2'' U32 1,
     Member ''RBAR_A3'' U32 1,
     Member ''RASR_A3'' U32 1]"

definition MPU_documented :: "(string \<times> nat) list" where
  "MPU_documented = [
     (''TYPE'', 0x0), (''CTRL'', 0x4), (''RNR'', 0x8), (''RBAR'', 0xC), (''RASR'', 0x10),
     (''RBAR_A1'', 0x14), (''RASR_A1'', 0x18), (''RBAR_A2'', 0x1C), (''RASR_A2'', 0x20),
     (''RBAR_A3'', 0x24), (''RASR_A3'', 0x28)]"

definition MPU_fields :: "register_fields list" where
  "MPU_fields = [
     (''TYPE'',
      [shifted ''IREGION'' 16 0xFF, shifted ''DREGION'' 8 0xFF, unshifted ''SEPARATE'' 0 1]),
     (''CTRL'',
      [shifted ''PRIVDEFENA'' 2 1, shifted ''HFNMIENA'' 1 1, unshifted ''ENABLE'' 0 1]),
     (''RNR'',
      [unshifted ''REGION'' 0 0xFF]),
     (''RBAR'',
      [shifted ''ADDR'' 5 0x7FFFFFF, shifted ''VALID'' 4 1, unshifted ''REGION'' 0 0xF]),
     (''RASR'',
      [shifted ''ATTRS'' 16 0xFFFF, shifted ''XN'' 28 1, shifted ''AP'' 24 7,
       shifted ''TEX'' 19 7, shifted ''S'' 18 1, shifted ''C'' 17 1, shifted ''B'' 16 1,
       shifted ''SRD'' 8 0xFF, shifted ''SIZE'' 1 0x1F, unshifted ''ENABLE'' 0 1])]"

definition CoreDebug_Type :: "c_member list" where
  "CoreDebug_Type = [
     Member ''DHCSR'' U32 1,
     Member ''DCRSR'' U32 1,
     Member ''DCRDR'' U32 1,
     Member ''DEMCR'' U32 1]"

definition CoreDebug_documented :: "(string \<times> nat) list" where
  "CoreDebug_documented = [
     (''DHCSR'', 0x0), (''DCRSR'', 0x4), (''DCRDR'', 0x8), (''DEMCR'', 0xC)]"

definition CoreDebug_fields :: "register_fields list" where
  "CoreDebug_fields = [
     (''DHCSR'',
      [shifted ''DBGKEY'' 16 0xFFFF, shifted ''S_RESET_ST'' 25 1, shifted ''S_RETIRE_ST'' 24 1,
       shifted ''S_LOCKUP'' 19 1, shifted ''S_SLEEP'' 18 1, shifted ''S_HALT'' 17 1,
       shifted ''S_REGRDY'' 16 1, shifted ''C_SNAPSTALL'' 5 1, shifted ''C_MASKINTS'' 3 1,
       shifted ''C_STEP'' 2 1, shifted ''C_HALT'' 1 1, unshifted ''C_DEBUGEN'' 0 1]),
     (''DCRSR'',
      [shifted ''REGWnR'' 16 1, unshifted ''REGSEL'' 0 0x1F]),
     (''DEMCR'',
      [shifted ''TRCENA'' 24 1, shifted ''MON_REQ'' 19 1, shifted ''MON_STEP'' 18 1,
       shifted ''MON_PEND'' 17 1, shifted ''MON_EN'' 16 1, shifted ''VC_HARDERR'' 10 1,
       shifted ''VC_INTERR'' 9 1, shifted ''VC_BUSERR'' 8 1, shifted ''VC_STATERR'' 7 1,
       shifted ''VC_CHKERR'' 6 1, shifted ''VC_NOCPERR'' 5 1, shifted ''VC_MMERR'' 4 1,
       unshifted ''VC_CORERESET'' 0 1])]"

subsection \<open>Memory map\<close>

definition SCS_BASE :: nat where "SCS_BASE = 0xE000E000"

definition ITM_BASE :: nat where "ITM_BASE = 0xE0000000"

definition DWT_BASE :: nat where "DWT_BASE = 0xE0001000"

definition TPI_BASE :: nat where "TPI_BASE = 0xE0040000"

definition CoreDebug_BASE :: nat where "CoreDebug_BASE = 0xE000EDF0"

definition SysTick_BASE :: nat where "SysTick_BASE = SCS_BASE + 0x10"

definition NVIC_BASE :: nat where "NVIC_BASE = SCS_BASE + 0x100"

definition SCB_BASE :: nat where "SCB_BASE = SCS_BASE + 0xD00"

definition MPU_BASE :: nat where "MPU_BASE = SCS_BASE + 0xD90"

definition core_peripherals :: "(string \<times> nat \<times> c_member list) list" where
  "core_peripherals = [
     (''SCnSCB'', SCS_BASE, SCnSCB_Type), (''SCB'', SCB_BASE, SCB_Type),
     (''SysTick'', SysTick_BASE, SysTick_Type), (''NVIC'', NVIC_BASE, NVIC_Type),
     (''ITM'', ITM_BASE, ITM_Type), (''DWT'', DWT_BASE, DWT_Type), (''TPI'', TPI_BASE, TPI_Type),
     (''CoreDebug'', CoreDebug_BASE, CoreDebug_Type), (''MPU'', MPU_BASE, MPU_Type)]"


end
