(* ===== verification/Mps2_Board.thy ===== *)
theory Mps2_Board
  imports Registers "HOL-Library.Code_Target_Nat"
begin

section \<open>The MPS2 board header (node/cmsis/SMM_MPS2.h)\<close>

text \<open>
  The register blocks of the board's own peripherals, their bit-field macros and base addresses, for a
  core that is not a Cortex-M7.
\<close>

definition MPS2_FPGAIO_TypeDef :: "c_member list" where
  "MPS2_FPGAIO_TypeDef = [
     Member ''LED'' U32 1,
     Member ''RESERVED1'' U32 1,
     Member ''BUTTON'' U32 1,
     Member ''RESERVED2'' U32 1,
     Member ''CLK1HZ'' U32 1,
     Member ''CLK100HZ'' U32 1,
     Member ''COUNTER'' U32 1,
     Member ''RESERVED3'' U32 1,
     Member ''PRESCALE'' U32 1,
     Member ''PSCNTR'' U32 1,
     Member ''RESERVED4'' U32 9,
     Member ''MISC'' U32 1]"

definition MPS2_FPGAIO_documented :: "(string \<times> nat) list" where
  "MPS2_FPGAIO_documented = [
     (''LED'', 0x0), (''BUTTON'', 0x8), (''CLK1HZ'', 0x10), (''CLK100HZ'', 0x14),
     (''COUNTER'', 0x18), (''PRESCALE'', 0x20), (''PSCNTR'', 0x24), (''MISC'', 0x4C)]"

definition FPGAIO_MISC_fields :: "register_fields list" where
  "FPGAIO_MISC_fields = [
     (''MISC'',
      [shifted ''CLCD_CS'' 0 1, shifted ''CLCD_RESET'' 3 1, shifted ''CLCD_RS'' 4 1,
       shifted ''CLCD_RD'' 5 1, shifted ''CLCD_BL'' 6 1, shifted ''SPI_nSS'' 1 1,
       shifted ''ADC_nCS'' 7 1, shifted ''SHIELD_0_nCS'' 8 1, shifted ''SHIELD_1_nCS'' 9 1])]"

definition MPS2_SCC_TypeDef :: "c_member list" where
  "MPS2_SCC_TypeDef = [
     Member ''CFG_REG0'' U32 1,
     Member ''LEDS'' U32 1,
     Member ''RESERVED0'' U32 1,
     Member ''SWITCHES'' U32 1,
     Member ''CFG_REG4'' U32 1,
     Member ''RESERVED1'' U32 35,
     Member ''SYS_CFGDATA_RTN'' U32 1,
     Member ''SYS_CFGDATA_OUT'' U32 1,
     Member ''SYS_CFGCTRL'' U32 1,
     Member ''SYS_CFGSTAT'' U32 1,
     Member ''RESERVED2'' U32 20,
     Member ''SCC_DLL'' U32 1,
     Member ''RESERVED3'' U32 957,
     Member ''SCC_AID'' U32 1,
     Member ''SCC_ID'' U32 1]"

definition MPS2_SCC_documented :: "(string \<times> nat) list" where
  "MPS2_SCC_documented = [
     (''CFG_REG0'', 0x0), (''LEDS'', 0x4), (''SWITCHES'', 0xC), (''CFG_REG4'', 0x10),
     (''SYS_CFGDATA_RTN'', 0xA0), (''SYS_CFGDATA_OUT'', 0xA4), (''SYS_CFGCTRL'', 0xA8),
     (''SYS_CFGSTAT'', 0xAC), (''SCC_DLL'', 0x100), (''SCC_AID'', 0xFF8), (''SCC_ID'', 0xFFC)]"

definition MPS2_SSP_TypeDef :: "c_member list" where
  "MPS2_SSP_TypeDef = [
     Member ''CR0'' U32 1,
     Member ''CR1'' U32 1,
     Member ''DR'' U32 1,
     Member ''SR'' U32 1,
     Member ''CPSR'' U32 1,
     Member ''IMSC'' U32 1,
     Member ''RIS'' U32 1,
     Member ''MIS'' U32 1,
     Member ''ICR'' U32 1,
     Member ''DMACR'' U32 1]"

definition MPS2_SSP_documented :: "(string \<times> nat) list" where
  "MPS2_SSP_documented = [
     (''CR0'', 0x0), (''CR1'', 0x4), (''DR'', 0x8), (''SR'', 0xC), (''CPSR'', 0x10),
     (''IMSC'', 0x14), (''RIS'', 0x18), (''MIS'', 0x1C), (''ICR'', 0x20), (''DMACR'', 0x24)]"

definition SSP_positions :: "(string \<times> nat) list" where
  "SSP_positions = [
     (''SSP_CR0_DSS_Pos'', 0), (''SSP_CR0_FRF_Pos'', 4), (''SSP_CR0_SPO_Pos'', 6), (''SSP_CR0_SPH_Pos'', 7),
     (''SSP_CR0_SCR_Pos'', 8), (''SSP_CR1_LBM_Pos'', 0), (''SSP_CR1_SSE_Pos'', 1), (''SSP_CR1_MS_Pos'', 2),
     (''SSP_CR1_SOD_Pos'', 3), (''SSP_SR_TFE_Pos'', 0), (''SSP_SR_TNF_Pos'', 1), (''SSP_SR_RNE_Pos'', 2),
     (''SSP_SR_RFF_Pos'', 3), (''SSP_SR_BSY_Pos'', 4), (''SSP_CPSR_CPD_Pos'', 0), (''SSP_IMSC_RORIM_Pos'', 0),
     (''SSP_IMSC_RTIM_Pos'', 1), (''SSP_IMSC_RXIM_Pos'', 2), (''SSP_IMSC_TXIM_Pos'', 3), (''SSP_RIS_RORRIS_Pos'', 0),
     (''SSP_RIS_RTRIS_Pos'', 1), (''SSP_RIS_RXRIS_Pos'', 2), (''SSP_RIS_TXRIS_Pos'', 3), (''SSP_MIS_RORMIS_Pos'', 0),
     (''SSP_MIS_RTMIS_Pos'', 1), (''SSP_MIS_RXMIS_Pos'', 2), (''SSP_MIS_TXMIS_Pos'', 3), (''SSP_ICR_RORIC_Pos'', 0),
     (''SSP_ICR_RTIC_Pos'', 1), (''SSP_DMACR_RXDMAE_Pos'', 0), (''SSP_DMACR_TXDMAE_Pos'', 1)]"

definition SSP_fields :: "register_fields list" where
  "SSP_fields = [
     (''CR0'',
      [shifted ''DSS'' 0 0xF, shifted_by SSP_positions ''FRF'' 4 3 ''SSP_CR0_FRM_Pos'', shifted ''SPO'' 6 1, shifted ''SPH'' 7 1,
       shifted ''SCR'' 8 0xFF]),
     (''CR1'',
      [shifted ''LBM'' 0 1, shifted ''SSE'' 1 1, shifted ''MS'' 2 1, shifted ''SOD'' 3 1]),
     (''SR'',
      [shifted ''TFE'' 0 1, shifted ''TNF'' 1 1, shifted ''RNE'' 2 1, shifted ''RFF'' 3 1,
       shifted ''BSY'' 4 1]),
     (''CPSR'',
      [shifted_by SSP_positions ''CPD'' 0 0xFF ''SSP_CPSR_CDP_Pos'']),
     (''IMSC'',
      [shifted ''RORIM'' 0 1, shifted ''RTIM'' 1 1, shifted ''RXIM'' 2 1, shifted ''TXIM'' 3 1]),
     (''RIS'',
      [shifted ''RORRIS'' 0 1, shifted ''RTRIS'' 1 1, shifted ''RXRIS'' 2 1, shifted ''TXRIS'' 3 1]),
     (''MIS'',
      [shifted ''RORMIS'' 0 1, shifted ''RTMIS'' 1 1, shifted ''RXMIS'' 2 1, shifted ''TXMIS'' 3 1]),
     (''ICR'',
      [shifted ''RORIC'' 0 1, shifted ''RTIC'' 1 1]),
     (''DMACR'',
      [shifted ''RXDMAE'' 0 1, shifted ''TXDMAE'' 1 1])]"

definition MPS2_I2C_TypeDef :: "c_member list" where
  "MPS2_I2C_TypeDef = [
     Union [(''CONTROLS'', U32), (''CONTROL'', U32)] 1,
     Member ''CONTROLC'' U32 1]"

definition MPS2_I2C_documented :: "(string \<times> nat) list" where
  "MPS2_I2C_documented = [
     (''CONTROLS'', 0x0), (''CONTROL'', 0x0), (''CONTROLC'', 0x4)]"

definition MPS2_I2S_TypeDef :: "c_member list" where
  "MPS2_I2S_TypeDef = [
     Member ''CONTROL'' U32 1,
     Member ''STATUS'' U32 1,
     Union [(''ERROR'', U32), (''ERRORCLR'', U32)] 1,
     Member ''DIVIDE'' U32 1,
     Member ''TXBUF'' U32 1,
     Member ''RXBUF'' U32 1,
     Member ''RESERVED1'' U32 186,
     Member ''ITCR'' U32 1,
     Member ''ITIP1'' U32 1,
     Member ''ITOP1'' U32 1]"

definition MPS2_I2S_documented :: "(string \<times> nat) list" where
  "MPS2_I2S_documented = [
     (''CONTROL'', 0x0), (''STATUS'', 0x4), (''ERROR'', 0x8), (''ERRORCLR'', 0x8),
     (''DIVIDE'', 0xC), (''TXBUF'', 0x10), (''RXBUF'', 0x14)]"

definition I2S_fields :: "register_fields list" where
  "I2S_fields = [
     (''CONTROL'',
      [shifted ''TXEN'' 0 1, shifted ''TXIRQEN'' 1 1, shifted ''RXEN'' 2 1,
       shifted ''RXIRQEN'' 3 1, shifted ''TXWLVL'' 8 7, shifted ''RXWLVL'' 12 7,
       shifted ''FIFORST'' 16 1, shifted ''CODECRST'' 17 1]),
     (''STATUS'',
      [shifted ''TXIRQ'' 0 1, shifted ''RXIRQ'' 1 1, shifted ''TXEmpty'' 2 1,
       shifted ''TXFull'' 3 1, shifted ''RXEmpty'' 4 1, shifted ''RXFull'' 5 1]),
     (''ERROR'',
      [shifted ''TXERR'' 0 1, shifted ''RXERR'' 1 1])]"

definition SMSC9220_TypeDef :: "c_member list" where
  "SMSC9220_TypeDef = [
     Member ''RX_DATA_PORT'' U32 1,
     Member ''RESERVED1'' U32 7,
     Member ''TX_DATA_PORT'' U32 1,
     Member ''RESERVED2'' U32 7,
     Member ''RX_STAT_PORT'' U32 1,
     Member ''RX_STAT_PEEK'' U32 1,
     Member ''TX_STAT_PORT'' U32 1,
     Member ''TX_STAT_PEEK'' U32 1,
     Member ''ID_REV'' U32 1,
     Member ''IRQ_CFG'' U32 1,
     Member ''INT_STS'' U32 1,
     Member ''INT_EN'' U32 1,
     Member ''RESERVED3'' U32 1,
     Member ''BYTE_TEST'' U32 1,
     Member ''FIFO_INT'' U32 1,
     Member ''RX_CFG'' U32 1,
     Member ''TX_CFG'' U32 1,
     Member ''HW_CFG'' U32 1,
     Member ''RX_DP_CTL'' U32 1,
     Member ''RX_FIFO_INF'' U32 1,
     Member ''TX_FIFO_INF'' U32 1,
     Member ''PMT_CTRL'' U32 1,
     Member ''GPIO_CFG'' U32 1,
     Member ''GPT_CFG'' U32 1,
     Member ''GPT_CNT'' U32 1,
     Member ''RESERVED4'' U32 1,
     Member ''ENDIAN'' U32 1,
     Member ''FREE_RUN'' U32 1,
     Member ''RX_DROP'' U32 1,
     Member ''MAC_CSR_CMD'' U32 1,
     Member ''MAC_CSR_DATA'' U32 1,
     Member ''AFC_CFG'' U32 1,
     Member ''E2P_CMD'' U32 1,
     Member ''E2P_DATA'' U32 1]"

definition SMSC9220_documented :: "(string \<times> nat) list" where
  "SMSC9220_documented = [
     (''RX_DATA_PORT'', 0x0), (''TX_DATA_PORT'', 0x20), (''RX_STAT_PORT'', 0x40),
     (''RX_STAT_PEEK'', 0x44), (''TX_STAT_PORT'', 0x48), (''TX_STAT_PEEK'', 0x4C),
     (''ID_REV'', 0x50), (''IRQ_CFG'', 0x54), (''INT_STS'', 0x58), (''INT_EN'', 0x5C),
     (''BYTE_TEST'', 0x64), (''FIFO_INT'', 0x68), (''RX_CFG'', 0x6C), (''TX_CFG'', 0x70),
     (''HW_CFG'', 0x74), (''RX_DP_CTL'', 0x78), (''RX_FIFO_INF'', 0x7C), (''TX_FIFO_INF'', 0x80),
     (''PMT_CTRL'', 0x84), (''GPIO_CFG'', 0x88), (''GPT_CFG'', 0x8C), (''GPT_CNT'', 0x90),
     (''ENDIAN'', 0x98), (''FREE_RUN'', 0x9C), (''RX_DROP'', 0xA0), (''MAC_CSR_CMD'', 0xA4),
     (''MAC_CSR_DATA'', 0xA8), (''AFC_CFG'', 0xAC), (''E2P_CMD'', 0xB0), (''E2P_DATA'', 0xB4)]"

subsection \<open>Memory map\<close>

definition MPS2_SSP1_BASE :: nat where "MPS2_SSP1_BASE = 0x40020000"

definition MPS2_SSP0_BASE :: nat where "MPS2_SSP0_BASE = 0x40021000"

definition MPS2_TSC_I2C_BASE :: nat where "MPS2_TSC_I2C_BASE = 0x40022000"

definition MPS2_AAIC_I2C_BASE :: nat where "MPS2_AAIC_I2C_BASE = 0x40023000"

definition MPS2_AAIC_I2S_BASE :: nat where "MPS2_AAIC_I2S_BASE = 0x40024000"

definition MPS2_SSP2_BASE :: nat where "MPS2_SSP2_BASE = 0x40025000"

definition MPS2_SSP3_BASE :: nat where "MPS2_SSP3_BASE = 0x40026000"

definition MPS2_SSP4_BASE :: nat where "MPS2_SSP4_BASE = 0x40027000"

definition MPS2_FPGAIO_BASE :: nat where "MPS2_FPGAIO_BASE = 0x40028000"

definition MPS2_SHIELD0_I2C_BASE :: nat where "MPS2_SHIELD0_I2C_BASE = 0x40029000"

definition MPS2_SHIELD1_I2C_BASE :: nat where "MPS2_SHIELD1_I2C_BASE = 0x4002A000"

definition MPS2_SCC_BASE :: nat where "MPS2_SCC_BASE = 0x4002F000"

definition SMSC9220_BASE :: nat where "SMSC9220_BASE = 0x40200000"

definition MPS2_peripherals :: "(string \<times> nat \<times> c_member list) list" where
  "MPS2_peripherals = [
     (''SMSC9220'', SMSC9220_BASE, SMSC9220_TypeDef),
     (''MPS2_TS_I2C'', MPS2_TSC_I2C_BASE, MPS2_I2C_TypeDef),
     (''MPS2_AAIC_I2C'', MPS2_AAIC_I2C_BASE, MPS2_I2C_TypeDef),
     (''MPS2_SHIELD0_I2C'', MPS2_SHIELD0_I2C_BASE, MPS2_I2C_TypeDef),
     (''MPS2_SHIELD1_I2C'', MPS2_SHIELD1_I2C_BASE, MPS2_I2C_TypeDef),
     (''MPS2_AAIC_I2S'', MPS2_AAIC_I2S_BASE, MPS2_I2S_TypeDef),
     (''MPS2_FPGAIO'', MPS2_FPGAIO_BASE, MPS2_FPGAIO_TypeDef),
     (''MPS2_SCC'', MPS2_SCC_BASE, MPS2_SCC_TypeDef),
     (''MPS2_SSP0'', MPS2_SSP0_BASE, MPS2_SSP_TypeDef),
     (''MPS2_SSP1'', MPS2_SSP1_BASE, MPS2_SSP_TypeDef),
     (''MPS2_SSP2'', MPS2_SSP2_BASE, MPS2_SSP_TypeDef),
     (''MPS2_SSP3'', MPS2_SSP3_BASE, MPS2_SSP_TypeDef),
     (''MPS2_SSP4'', MPS2_SSP4_BASE, MPS2_SSP_TypeDef)]"

subsection \<open>Indices of the Ethernet controller\<close>

text \<open>The registers of the MAC and of the PHY are reached through the controller by index.\<close>

definition SMSC9220_MAC :: "(string \<times> nat) list" where
  "SMSC9220_MAC = [
     (''CR'', 0x1), (''ADDRH'', 0x2), (''ADDRL'', 0x3), (''HASHH'', 0x4),
     (''HASHL'', 0x5), (''MII_ACC'', 0x6), (''MII_DATA'', 0x7), (''FLOW'', 0x8),
     (''VLAN1'', 0x9), (''VLAN2'', 0xA), (''WUFF'', 0xB), (''WUCSR'', 0xC)]"

definition SMSC9220_PHY :: "(string \<times> nat) list" where
  "SMSC9220_PHY = [
     (''BCONTROL'', 0x0), (''BSTATUS'', 0x1), (''ID1'', 0x2), (''ID2'', 0x3),
     (''ANEG_ADV'', 0x4), (''ANEG_LPA'', 0x5), (''ANEG_EXP'', 0x6), (''MCONTROL'', 0x17),
     (''MSTATUS'', 0x18), (''CSINDICATE'', 0x27), (''INTSRC'', 0x29), (''INTMASK'', 0x30),
     (''CS'', 0x31)]"

text \<open>The management interface addresses a PHY register by five bits. Four of the indices do not fit: they
  appear to be the decimal numbers 27, 29, 30 and 31 written in hexadecimal.\<close>

lemma phy_indices:
  "distinct (map snd SMSC9220_MAC) \<and> distinct (map snd SMSC9220_PHY) \<and>
   map fst (filter (\<lambda>(x, i). \<not> i < 2 ^ 5) SMSC9220_PHY) = [''CSINDICATE'', ''INTSRC'', ''INTMASK'', ''CS'']"
  by (simp add: SMSC9220_MAC_def SMSC9220_PHY_def)

end
