(* ===== verification/Board_Registers.thy ===== *)
theory Board_Registers
  imports Cmsdk_Device Core_Cm3 Mps2_Board "HOL-Library.Multiset"
begin

section \<open>The registers of the board\<close>

text \<open>
  The three headers together: which registers are where the comments say, which bit-field macros can be
  used, and that no two registers of the board share an address.
\<close>

subsection \<open>Addresses\<close>



text \<open>All peripherals that the three headers declare.\<close>

definition board_peripherals :: "(string \<times> nat \<times> c_member list) list" where
  "board_peripherals = CMSDK_peripherals @ MPS2_peripherals @ core_peripherals"




definition range_before :: "(nat \<times> nat) \<Rightarrow> (nat \<times> nat) \<Rightarrow> bool" where
  "range_before r q \<longleftrightarrow> fst r < snd r \<and> fst q < snd q \<and> snd r \<le> fst q"

lemma range_before_trans: "transp range_before"
  by (rule transpI) (simp add: range_before_def)






















lemma board_names: "distinct (map fst board_peripherals)"
  unfolding board_peripherals_def CMSDK_peripherals_def MPS2_peripherals_def core_peripherals_def by simp

lemma board_peripherals_unique:
  "p \<in> set board_peripherals \<Longrightarrow> p' \<in> set board_peripherals \<Longrightarrow> fst p = fst p' \<Longrightarrow> p = p'"
  using board_names by (meson distinct_map inj_on_def)








subsection \<open>All blocks and all fields\<close>

definition documented_blocks :: "(c_member list \<times> (string \<times> nat) list) list" where
  "documented_blocks = [
     (CMSDK_UART_TypeDef, CMSDK_UART_documented), (CMSDK_TIMER_TypeDef, CMSDK_TIMER_documented),
     (CMSDK_DUALTIMER_BOTH_TypeDef, CMSDK_DUALTIMER_BOTH_documented),
     (CMSDK_DUALTIMER_SINGLE_TypeDef, CMSDK_DUALTIMER_SINGLE_documented),
     (CMSDK_GPIO_TypeDef, CMSDK_GPIO_documented), (CMSDK_SYSCON_TypeDef, CMSDK_SYSCON_documented),
     (CMSDK_PL230_TypeDef, CMSDK_PL230_documented),
     (CMSDK_WATCHDOG_TypeDef, CMSDK_WATCHDOG_documented), (NVIC_Type, NVIC_documented),
     (SCB_Type, SCB_documented), (SCnSCB_Type, SCnSCB_documented),
     (SysTick_Type, SysTick_documented), (ITM_Type, ITM_documented), (DWT_Type, DWT_documented),
     (TPI_Type, TPI_documented), (MPU_Type, MPU_documented), (CoreDebug_Type, CoreDebug_documented),
     (MPS2_FPGAIO_TypeDef, MPS2_FPGAIO_documented), (MPS2_SCC_TypeDef, MPS2_SCC_documented),
     (MPS2_SSP_TypeDef, MPS2_SSP_documented), (MPS2_I2C_TypeDef, MPS2_I2C_documented),
     (MPS2_I2S_TypeDef, MPS2_I2S_documented), (SMSC9220_TypeDef, SMSC9220_documented)]"


text \<open>Per list of fields, the result of the three checks.\<close>

definition field_report :: "register_fields list \<Rightarrow>
    (string \<times> string) list \<times> (string \<times> string) list \<times> (string \<times> string \<times> string) list" where
  "field_report rs =
     (concat (map undeclared_fields rs), concat (map misplaced_fields rs), concat (map overlapping_fields rs))"


lemmas field_check_defs =
  field_report_def undeclared_fields_def misplaced_fields_def overlapping_fields_def well_placed_def
  mask_of_def shifted_def unshifted_def shifted_by_def CMSDK_GPIO_positions_def SSP_positions_def

named_theorems field_reports \<open>the reports of the headers' field lists\<close>

lemma CMSDK_UART_fields_report [field_reports]:
  "field_report CMSDK_UART_fields =
     ([],
      [],
      [(''CTRL'', ''RXIRQEN'', ''RXORIRQ''), (''CTRL'', ''TXIRQEN'', ''TXORIRQ''),
       (''CTRL'', ''RXEN'', ''RXIRQ''), (''CTRL'', ''TXEN'', ''TXIRQ'')])"
  by (simp add: CMSDK_UART_fields_def field_check_defs)

lemma CMSDK_TIMER_fields_report [field_reports]:
  "field_report CMSDK_TIMER_fields = ([], [], [])"
  by (simp add: CMSDK_TIMER_fields_def field_check_defs)

lemma CMSDK_DUALTIMER1_fields_report [field_reports]:
  "field_report CMSDK_DUALTIMER1_fields = ([], [], [])"
  by (simp add: CMSDK_DUALTIMER1_fields_def field_check_defs)

lemma CMSDK_DUALTIMER2_fields_report [field_reports]:
  "field_report CMSDK_DUALTIMER2_fields = ([], [], [])"
  by (simp add: CMSDK_DUALTIMER2_fields_def field_check_defs)

lemma CMSDK_DUALTIMER_fields_report [field_reports]:
  "field_report CMSDK_DUALTIMER_fields = ([], [], [])"
  by (simp add: CMSDK_DUALTIMER_fields_def field_check_defs)

lemma CMSDK_GPIO_fields_report [field_reports]:
  "field_report CMSDK_GPIO_fields =
     ([(''OUTENSET'', ''OUTENSET''), (''OUTENCLR'', ''OUTENCLR''),
       (''ALTFUNCSET'', ''ALTFUNCSET''), (''ALTFUNCCLR'', ''ALTFUNCCLR''),
       (''INTENSET'', ''INTENSET''), (''INTENCLR'', ''INTENCLR''),
       (''INTTYPESET'', ''INTTYPESET''), (''INTTYPECLR'', ''INTTYPECLR''),
       (''INTPOLSET'', ''INTPOLSET''), (''INTPOLCLR'', ''INTPOLCLR'')],
      [(''MASKHIGHBYTE'', ''MASKHIGHBYTE'')],
      [])"
  by (simp add: CMSDK_GPIO_fields_def field_check_defs)

lemma CMSDK_SYSCON_fields_report [field_reports]:
  "field_report CMSDK_SYSCON_fields = ([], [], [])"
  by (simp add: CMSDK_SYSCON_fields_def field_check_defs)

lemma CMSDK_PL230_fields_report [field_reports]:
  "field_report CMSDK_PL230_fields =
     ([],
      [],
      [(''DMA_STATUS'', ''MSTREN'', ''STATE''),
       (''DMA_STATUS'', ''MSTREN'', ''CHNLS_MINUS1''),
       (''DMA_STATUS'', ''MSTREN'', ''TEST_STATUS''),
       (''DMA_STATUS'', ''STATE'', ''CHNLS_MINUS1''),
       (''DMA_STATUS'', ''STATE'', ''TEST_STATUS''),
       (''DMA_STATUS'', ''CHNLS_MINUS1'', ''TEST_STATUS''),
       (''DMA_CFG'', ''MSTREN'', ''CPCPRIV'')])"
  by (simp add: CMSDK_PL230_fields_def field_check_defs)

lemma CMSDK_Watchdog_fields_report [field_reports]:
  "field_report CMSDK_Watchdog_fields = ([], [], [])"
  by (simp add: CMSDK_Watchdog_fields_def field_check_defs)

lemma PSR_fields_report [field_reports]:
  "field_report PSR_fields = ([], [], [])"
  by (simp add: PSR_fields_def field_check_defs)

lemma NVIC_fields_report [field_reports]:
  "field_report NVIC_fields = ([], [], [])"
  by (simp add: NVIC_fields_def field_check_defs)

lemma SCB_control_fields_report [field_reports]:
  "field_report SCB_control_fields =
     ([],
      [],
      [(''AIRCR'', ''VECTKEY'', ''VECTKEYSTAT'')])"
  by (simp add: SCB_control_fields_def field_check_defs)

lemma SCB_fault_fields_report [field_reports]:
  "field_report SCB_fault_fields =
     ([],
      [],
      [(''CFSR'', ''USGFAULTSR'', ''DIVBYZERO''), (''CFSR'', ''USGFAULTSR'', ''UNALIGNED''),
       (''CFSR'', ''USGFAULTSR'', ''NOCP''), (''CFSR'', ''USGFAULTSR'', ''INVPC''),
       (''CFSR'', ''USGFAULTSR'', ''INVSTATE''), (''CFSR'', ''USGFAULTSR'', ''UNDEFINSTR''),
       (''CFSR'', ''BUSFAULTSR'', ''BFARVALID''), (''CFSR'', ''BUSFAULTSR'', ''STKERR''),
       (''CFSR'', ''BUSFAULTSR'', ''UNSTKERR''), (''CFSR'', ''BUSFAULTSR'', ''IMPRECISERR''),
       (''CFSR'', ''BUSFAULTSR'', ''PRECISERR''), (''CFSR'', ''BUSFAULTSR'', ''IBUSERR''),
       (''CFSR'', ''MEMFAULTSR'', ''MMARVALID''), (''CFSR'', ''MEMFAULTSR'', ''MSTKERR''),
       (''CFSR'', ''MEMFAULTSR'', ''MUNSTKERR''), (''CFSR'', ''MEMFAULTSR'', ''DACCVIOL''),
       (''CFSR'', ''MEMFAULTSR'', ''IACCVIOL'')])"
  by (simp add: SCB_fault_fields_def field_check_defs)

lemma SCnSCB_fields_report [field_reports]:
  "field_report SCnSCB_fields = ([], [], [])"
  by (simp add: SCnSCB_fields_def field_check_defs)

lemma SysTick_fields_report [field_reports]:
  "field_report SysTick_fields = ([], [], [])"
  by (simp add: SysTick_fields_def field_check_defs)

lemma ITM_fields_report [field_reports]:
  "field_report ITM_fields = ([], [], [])"
  by (simp add: ITM_fields_def field_check_defs)

lemma DWT_fields_report [field_reports]:
  "field_report DWT_fields = ([], [], [])"
  by (simp add: DWT_fields_def field_check_defs)

lemma TPI_fields_report [field_reports]:
  "field_report TPI_fields =
     ([],
      [(''DEVTYPE'', ''SubType'')],
      [(''ITATBCTR2'', ''ATREADY2'', ''ATREADY1''),
       (''ITATBCTR0'', ''ATREADY2'', ''ATREADY1''), (''DEVTYPE'', ''SubType'', ''MajorType'')])"
  by (simp add: TPI_fields_def field_check_defs)

lemma MPU_fields_report [field_reports]:
  "field_report MPU_fields =
     ([],
      [],
      [(''RASR'', ''ATTRS'', ''XN''), (''RASR'', ''ATTRS'', ''AP''),
       (''RASR'', ''ATTRS'', ''TEX''), (''RASR'', ''ATTRS'', ''S''),
       (''RASR'', ''ATTRS'', ''C''), (''RASR'', ''ATTRS'', ''B'')])"
  by (simp add: MPU_fields_def field_check_defs)

lemma CoreDebug_fields_report [field_reports]:
  "field_report CoreDebug_fields =
     ([],
      [],
      [(''DHCSR'', ''DBGKEY'', ''S_RESET_ST''), (''DHCSR'', ''DBGKEY'', ''S_RETIRE_ST''),
       (''DHCSR'', ''DBGKEY'', ''S_LOCKUP''), (''DHCSR'', ''DBGKEY'', ''S_SLEEP''),
       (''DHCSR'', ''DBGKEY'', ''S_HALT''), (''DHCSR'', ''DBGKEY'', ''S_REGRDY'')])"
  by (simp add: CoreDebug_fields_def field_check_defs)

lemma FPGAIO_MISC_fields_report [field_reports]:
  "field_report FPGAIO_MISC_fields = ([], [], [])"
  by (simp add: FPGAIO_MISC_fields_def field_check_defs)

lemma SSP_fields_report [field_reports]:
  "field_report SSP_fields =
     ([(''CR0'', ''FRF''), (''CPSR'', ''CPD'')],
      [],
      [])"
  by (simp add: SSP_fields_def field_check_defs)

lemma I2S_fields_report [field_reports]:
  "field_report I2S_fields = ([], [], [])"
  by (simp add: I2S_fields_def field_check_defs)

subsection \<open>Fields that can be used\<close>








subsection \<open>Properties\<close>

text \<open>Every register is where its comment says. In all 23 register blocks of the three headers the
  offset that C's layout rule gives a member is the one its comment documents, with one exception: in
  \<open>CMSDK_DUALTIMER_SINGLE_TypeDef\<close> six comments say 0x000 of members that come later.\<close>

theorem layouts_documented:
  "concat (map (\<lambda>(s, doc). misplaced s doc) documented_blocks) =
     [(''TimerValue'', 0x0), (''TimerControl'', 0x0), (''TimerIntClr'', 0x0),
      (''TimerRIS'', 0x0), (''TimerMIS'', 0x0), (''TimerBGLoad'', 0x0)]"
  by code_simp





end
