(* ===== verification/Node_Rtos.thy ===== *)
theory Node_Rtos
  imports Prelude
begin

section \<open>The node's operating system interface (node/os, node/FreeRTOSConfig.h, node/tasks/reading.hpp)\<close>

text \<open>
  FreeRTOS is not part of this repository: the calls the node makes are the fields of a record that every
  definition takes as an argument, over a kernel state \<open>'k\<close>. A call that blocks its caller returns
  \<open>None\<close> in the states where the caller has to wait. What the node relies on is \<open>rtos_ok\<close>, in terms of
  three observations of the kernel state: the items of a queue, its length, and the holder of a mutex.
  The wrappers of node/os are the definitions below.
\<close>

subsection \<open>Data\<close>

record Reading =
  value_milli :: i32
  timestamp_ms :: u32

datatype task = Sensor | Command | Telemetry

type_synonym handle = nat

record 'k rtos =
  xQueueCreateStatic :: "nat \<Rightarrow> nat \<Rightarrow> 'k \<Rightarrow> handle \<times> 'k"
  xSemaphoreCreateMutexStatic :: "'k \<Rightarrow> handle \<times> 'k"
  xTaskCreateStatic :: "task \<Rightarrow> string \<Rightarrow> nat \<Rightarrow> nat \<Rightarrow> 'k \<Rightarrow> handle \<times> 'k"
  xQueueSendToBack :: "handle \<Rightarrow> Reading \<Rightarrow> u32 \<Rightarrow> 'k \<Rightarrow> (bool \<times> 'k) option"
  xQueueReceive :: "handle \<Rightarrow> u32 \<Rightarrow> 'k \<Rightarrow> (Reading option \<times> 'k) option"
  xSemaphoreTake :: "task \<Rightarrow> handle \<Rightarrow> u32 \<Rightarrow> 'k \<Rightarrow> (bool \<times> 'k) option"
  xSemaphoreGive :: "task \<Rightarrow> handle \<Rightarrow> 'k \<Rightarrow> 'k"
  xTaskGetTickCount :: "'k \<Rightarrow> u32"
  vTaskDelay :: "task \<Rightarrow> u32 \<Rightarrow> 'k \<Rightarrow> 'k"
  task_ready :: "task \<Rightarrow> 'k \<Rightarrow> bool"
  tick_interrupt :: "'k \<Rightarrow> 'k"
  pdMS_TO_TICKS :: "u32 \<Rightarrow> u32"
  portTICK_PERIOD_MS :: u32

definition portMAX_DELAY :: u32 where "portMAX_DELAY = 0xFFFFFFFF"

subsection \<open>FreeRTOSConfig.h\<close>

definition configCPU_CLOCK_HZ :: u32 where "configCPU_CLOCK_HZ = 25000000"
definition configTICK_RATE_HZ :: u32 where "configTICK_RATE_HZ = 1000"
definition configMAX_PRIORITIES :: nat where "configMAX_PRIORITIES = 5"
definition configMINIMAL_STACK_SIZE :: nat where "configMINIMAL_STACK_SIZE = 128"
definition configMAX_TASK_NAME_LEN :: nat where "configMAX_TASK_NAME_LEN = 16"
definition configKERNEL_INTERRUPT_PRIORITY :: u32 where "configKERNEL_INTERRUPT_PRIORITY = 255"
definition configMAX_SYSCALL_INTERRUPT_PRIORITY :: u32 where "configMAX_SYSCALL_INTERRUPT_PRIORITY = 4"

subsection \<open>The wrappers\<close>

text \<open>\<open>os::Queue\<close>: the object is its handle; \<open>send\<close> and \<open>receive\<close> with their default wait.\<close>

definition Queue_new :: "'k rtos \<Rightarrow> nat \<Rightarrow> nat \<Rightarrow> 'k \<Rightarrow> handle \<times> 'k" where
  "Queue_new RT Capacity sizeof_T k = xQueueCreateStatic RT Capacity sizeof_T k"

definition Queue_send :: "'k rtos \<Rightarrow> handle \<Rightarrow> Reading \<Rightarrow> 'k \<Rightarrow> (bool \<times> 'k) option" where
  "Queue_send RT q item k = xQueueSendToBack RT q item portMAX_DELAY k"

definition Queue_receive :: "'k rtos \<Rightarrow> handle \<Rightarrow> 'k \<Rightarrow> (Reading option \<times> 'k) option" where
  "Queue_receive RT q k = xQueueReceive RT q portMAX_DELAY k"

text \<open>\<open>os::Mutex\<close>; the guard's constructor does not look at the result of the take.\<close>

definition Mutex_new :: "'k rtos \<Rightarrow> 'k \<Rightarrow> handle \<times> 'k" where
  "Mutex_new RT k = xSemaphoreCreateMutexStatic RT k"

definition Guard :: "'k rtos \<Rightarrow> task \<Rightarrow> handle \<Rightarrow> 'k \<Rightarrow> 'k option" where
  "Guard RT t m k = map_option snd (xSemaphoreTake RT t m portMAX_DELAY k)"

definition Guard_release :: "'k rtos \<Rightarrow> task \<Rightarrow> handle \<Rightarrow> 'k \<Rightarrow> 'k" where
  "Guard_release RT t m k = xSemaphoreGive RT t m k"

definition Task_new :: "'k rtos \<Rightarrow> nat \<Rightarrow> string \<Rightarrow> nat \<Rightarrow> task \<Rightarrow> 'k \<Rightarrow> handle \<times> 'k" where
  "Task_new RT StackWords name priority function k = xTaskCreateStatic RT function name StackWords priority k"

subsection \<open>What the node relies on\<close>

record 'k rtos_view =
  q_items :: "handle \<Rightarrow> 'k \<Rightarrow> Reading list"
  q_length :: "handle \<Rightarrow> 'k \<Rightarrow> nat"
  holder :: "handle \<Rightarrow> 'k \<Rightarrow> task option"

text \<open>A step that touches no queue and no mutex.\<close>

definition unobserved :: "'k rtos_view \<Rightarrow> 'k \<Rightarrow> 'k \<Rightarrow> bool" where
  "unobserved V k k' \<longleftrightarrow>
     (\<forall>h. q_items V h k' = q_items V h k \<and> q_length V h k' = q_length V h k \<and> holder V h k' = holder V h k)"

definition queue_changed :: "'k rtos_view \<Rightarrow> handle \<Rightarrow> Reading list \<Rightarrow> 'k \<Rightarrow> 'k \<Rightarrow> bool" where
  "queue_changed V q xs k k' \<longleftrightarrow>
     (\<forall>h. q_items V h k' = (if h = q then xs else q_items V h k) \<and> q_length V h k' = q_length V h k \<and>
          holder V h k' = holder V h k)"

definition mutex_changed :: "'k rtos_view \<Rightarrow> handle \<Rightarrow> task option \<Rightarrow> 'k \<Rightarrow> 'k \<Rightarrow> bool" where
  "mutex_changed V m t k k' \<longleftrightarrow>
     (\<forall>h. q_items V h k' = q_items V h k \<and> q_length V h k' = q_length V h k \<and>
          holder V h k' = (if h = m then t else holder V h k))"

text \<open>The documented behaviour with an indefinite wait (\<open>portMAX_DELAY\<close>, \<open>INCLUDE_vTaskSuspend\<close> set): a
  send blocks exactly while the queue is full and then appends; a receive blocks exactly while it is
  empty and then removes the front; a take blocks exactly while the mutex is held; a give by the holder
  frees it; creation yields an empty queue of the given length and a free mutex; delays, the tick and task
  creation touch neither.\<close>

definition send_law :: "'k rtos \<Rightarrow> 'k rtos_view \<Rightarrow> handle \<Rightarrow> Reading \<Rightarrow> 'k \<Rightarrow> bool" where
  "send_law RT V q r k \<longleftrightarrow>
     (case xQueueSendToBack RT q r portMAX_DELAY k of
        None \<Rightarrow> q_length V q k \<le> length (q_items V q k)
      | Some (ok, k') \<Rightarrow> ok \<and> length (q_items V q k) < q_length V q k \<and>
          queue_changed V q (q_items V q k @ [r]) k k')"

definition receive_law :: "'k rtos \<Rightarrow> 'k rtos_view \<Rightarrow> handle \<Rightarrow> 'k \<Rightarrow> bool" where
  "receive_law RT V q k \<longleftrightarrow>
     (case xQueueReceive RT q portMAX_DELAY k of
        None \<Rightarrow> q_items V q k = []
      | Some (x, k') \<Rightarrow> (\<exists>r rs. x = Some r \<and> q_items V q k = r # rs \<and> queue_changed V q rs k k'))"

definition take_law :: "'k rtos \<Rightarrow> 'k rtos_view \<Rightarrow> task \<Rightarrow> handle \<Rightarrow> 'k \<Rightarrow> bool" where
  "take_law RT V t m k \<longleftrightarrow>
     (case xSemaphoreTake RT t m portMAX_DELAY k of
        None \<Rightarrow> holder V m k \<noteq> None
      | Some (ok, k') \<Rightarrow> holder V m k = None \<and> mutex_changed V m (Some t) k k')"

definition give_law :: "'k rtos \<Rightarrow> 'k rtos_view \<Rightarrow> task \<Rightarrow> handle \<Rightarrow> 'k \<Rightarrow> bool" where
  "give_law RT V t m k \<longleftrightarrow>
     (holder V m k = Some t \<longrightarrow> mutex_changed V m None k (xSemaphoreGive RT t m k))"

definition create_law :: "'k rtos \<Rightarrow> 'k rtos_view \<Rightarrow> nat \<Rightarrow> nat \<Rightarrow> 'k \<Rightarrow> bool" where
  "create_law RT V n sz k \<longleftrightarrow>
     (case xQueueCreateStatic RT n sz k of (q, k') \<Rightarrow>
        q_items V q k' = [] \<and> q_length V q k' = n \<and> (\<forall>m. holder V m k' = holder V m k)) \<and>
     (case xSemaphoreCreateMutexStatic RT k of (m, k') \<Rightarrow>
        holder V m k' = None \<and> (\<forall>q. q_items V q k' = q_items V q k \<and> q_length V q k' = q_length V q k))"

definition rtos_ok :: "'k rtos \<Rightarrow> 'k rtos_view \<Rightarrow> bool" where
  "rtos_ok RT V \<longleftrightarrow>
     (\<forall>q r k. send_law RT V q r k) \<and> (\<forall>q k. receive_law RT V q k) \<and>
     (\<forall>t m k. take_law RT V t m k) \<and> (\<forall>t m k. give_law RT V t m k) \<and>
     (\<forall>n sz k. create_law RT V n sz k) \<and>
     (\<forall>t nm st pr k. unobserved V k (snd (xTaskCreateStatic RT t nm st pr k))) \<and>
     (\<forall>t n k. unobserved V k (vTaskDelay RT t n k)) \<and>
     (\<forall>k. unobserved V k (tick_interrupt RT k))"

lemma Queue_send_ok:
  "rtos_ok RT V \<Longrightarrow> Queue_send RT q r k = Some (ok, k') \<Longrightarrow>
   ok \<and> length (q_items V q k) < q_length V q k \<and> queue_changed V q (q_items V q k @ [r]) k k'"
  unfolding rtos_ok_def send_law_def Queue_send_def by (elim conjE) (drule spec [of _ q], drule spec2 [of _ r k], simp)

lemma Queue_receive_ok:
  "rtos_ok RT V \<Longrightarrow> Queue_receive RT q k = Some (x, k') \<Longrightarrow>
   \<exists>r rs. x = Some r \<and> q_items V q k = r # rs \<and> queue_changed V q rs k k'"
  unfolding rtos_ok_def receive_law_def Queue_receive_def by (elim conjE) (drule spec2 [of _ q k], simp)

lemma Guard_ok:
  "rtos_ok RT V \<Longrightarrow> Guard RT t m k = Some k' \<Longrightarrow> holder V m k = None \<and> mutex_changed V m (Some t) k k'"
  unfolding rtos_ok_def take_law_def Guard_def by (elim conjE) (drule spec [of _ t], drule spec2 [of _ m k], auto)

lemma Guard_release_ok:
  "rtos_ok RT V \<Longrightarrow> holder V m k = Some t \<Longrightarrow> mutex_changed V m None k (Guard_release RT t m k)"
  unfolding rtos_ok_def give_law_def Guard_release_def by blast

lemma Queue_new_ok:
  "rtos_ok RT V \<Longrightarrow> Queue_new RT n sz k = (q, k') \<Longrightarrow>
   q_items V q k' = [] \<and> q_length V q k' = n \<and> holder V m k' = holder V m k"
  unfolding rtos_ok_def create_law_def Queue_new_def by (elim conjE) (drule spec [of _ n], drule spec2 [of _ sz k], auto)

lemma Mutex_new_ok:
  "rtos_ok RT V \<Longrightarrow> Mutex_new RT k = (m, k') \<Longrightarrow>
   holder V m k' = None \<and> q_items V q k' = q_items V q k \<and> q_length V q k' = q_length V q k"
  unfolding rtos_ok_def create_law_def Mutex_new_def by (elim conjE) (drule spec [of _ 0], drule spec2 [of _ 0 k], auto)

lemma Task_new_ok: "rtos_ok RT V \<Longrightarrow> unobserved V k (snd (Task_new RT st nm pr t k))"
  unfolding rtos_ok_def Task_new_def by blast

lemma delay_view [simp]:
  "rtos_ok RT V \<Longrightarrow> holder V h (vTaskDelay RT t n k) = holder V h k"
  "rtos_ok RT V \<Longrightarrow> q_items V h (vTaskDelay RT t n k) = q_items V h k"
  "rtos_ok RT V \<Longrightarrow> q_length V h (vTaskDelay RT t n k) = q_length V h k"
  unfolding rtos_ok_def unobserved_def by blast+

lemma tick_view [simp]:
  "rtos_ok RT V \<Longrightarrow> holder V h (tick_interrupt RT k) = holder V h k"
  "rtos_ok RT V \<Longrightarrow> q_items V h (tick_interrupt RT k) = q_items V h k"
  "rtos_ok RT V \<Longrightarrow> q_length V h (tick_interrupt RT k) = q_length V h k"
  unfolding rtos_ok_def unobserved_def by blast+

text \<open>The same for the other calls, in the form proofs about steps use.\<close>

lemma send_view:
  assumes "rtos_ok RT V" "Queue_send RT q r k = Some (ok, k')"
  shows "ok" "length (q_items V q k) < q_length V q k" "q_items V q k' = q_items V q k @ [r]"
    "q_length V h k' = q_length V h k" "holder V h k' = holder V h k"
  using Queue_send_ok [OF assms] by (simp_all add: queue_changed_def)

lemma receive_view:
  assumes "rtos_ok RT V" "Queue_receive RT q k = Some (x, k')"
  shows "x \<noteq> None" "q_items V q k = the x # q_items V q k'"
    "q_length V h k' = q_length V h k" "holder V h k' = holder V h k"
  using Queue_receive_ok [OF assms] by (auto simp: queue_changed_def)

lemma guard_view:
  assumes "rtos_ok RT V" "Guard RT t m k = Some k'"
  shows "holder V m k = None" "holder V m k' = Some t" "q_items V h k' = q_items V h k"
    "q_length V h k' = q_length V h k"
  using Guard_ok [OF assms] by (simp_all add: mutex_changed_def)

lemma release_view:
  assumes "rtos_ok RT V" "holder V m k = Some t"
  shows "holder V m (Guard_release RT t m k) = None" "q_items V h (Guard_release RT t m k) = q_items V h k"
    "q_length V h (Guard_release RT t m k) = q_length V h k"
  using Guard_release_ok [OF assms] by (simp_all add: mutex_changed_def)

subsection \<open>A concrete kernel\<close>

text \<open>One queue, mutexes, a clock and the ticks each task still sleeps: an instance of \<open>rtos_ok\<close> that
  the witnesses run on. Handle 0 is the queue, handle 1 the mutex that is created.\<close>

record sim_kernel =
  sk_items :: "Reading list"
  sk_length :: nat
  sk_holder :: "handle \<Rightarrow> task option"
  sk_ticks :: u32
  sk_sleep :: "task \<Rightarrow> nat"

definition sim_rtos :: "sim_kernel rtos" where
  "sim_rtos = \<lparr>
     xQueueCreateStatic = \<lambda>n sz k. (0, k\<lparr>sk_items := [], sk_length := n\<rparr>),
     xSemaphoreCreateMutexStatic = \<lambda>k. (1, k\<lparr>sk_holder := (sk_holder k)(1 := None)\<rparr>),
     xTaskCreateStatic = \<lambda>t nm st pr k. (2, k),
     xQueueSendToBack = \<lambda>q r w k. if q = 0 \<and> length (sk_items k) < sk_length k
        then Some (True, k\<lparr>sk_items := sk_items k @ [r]\<rparr>) else None,
     xQueueReceive = \<lambda>q w k. if q = 0 then
        (case sk_items k of [] \<Rightarrow> None | r # rs \<Rightarrow> Some (Some r, k\<lparr>sk_items := rs\<rparr>)) else None,
     xSemaphoreTake = \<lambda>t m w k. if sk_holder k m = None
        then Some (True, k\<lparr>sk_holder := (sk_holder k)(m \<mapsto> t)\<rparr>) else None,
     xSemaphoreGive = \<lambda>t m k. k\<lparr>sk_holder := (sk_holder k)(m := None)\<rparr>,
     xTaskGetTickCount = sk_ticks,
     vTaskDelay = \<lambda>t n k. k\<lparr>sk_sleep := (sk_sleep k)(t := unat n)\<rparr>,
     task_ready = \<lambda>t k. sk_sleep k t = 0,
     tick_interrupt = \<lambda>k. k\<lparr>sk_ticks := sk_ticks k + 1, sk_sleep := \<lambda>t. sk_sleep k t - 1\<rparr>,
     pdMS_TO_TICKS = \<lambda>ms. ms,
     portTICK_PERIOD_MS = 1\<rparr>"

definition sim_rtos_view :: "sim_kernel rtos_view" where
  "sim_rtos_view = \<lparr>
     q_items = \<lambda>q k. if q = 0 then sk_items k else [],
     q_length = \<lambda>q k. if q = 0 then sk_length k else 0,
     holder = \<lambda>m k. sk_holder k m\<rparr>"

definition sim_kernel0 :: sim_kernel where
  "sim_kernel0 = \<lparr>sk_items = [], sk_length = 0, sk_holder = \<lambda>m. None, sk_ticks = 0, sk_sleep = \<lambda>t. 0\<rparr>"

lemma sim_rtos_ok: "rtos_ok sim_rtos sim_rtos_view"
  unfolding rtos_ok_def send_law_def receive_law_def take_law_def give_law_def create_law_def
    sim_rtos_def sim_rtos_view_def queue_changed_def mutex_changed_def unobserved_def
  by (intro conjI allI) (auto split: list.splits)

end
