(* ===== verification/Mmio.thy ===== *)
theory Mmio
  imports Registers
begin

section \<open>Access to memory-mapped registers\<close>

text \<open>
  The machine behind the device structs is a parameter: a bus with a state of its own, on which a read
  of a register may itself change something (a status poll lets time pass, a data register pops a
  buffer). A register's address is the base of its peripheral plus the offset that the struct's layout
  gives the member.
\<close>

record 'h bus =
  bus_read :: "nat \<Rightarrow> 'h \<Rightarrow> u32 \<times> 'h"
  bus_write :: "nat \<Rightarrow> u32 \<Rightarrow> 'h \<Rightarrow> 'h"
  bus_read8 :: "nat \<Rightarrow> 'h \<Rightarrow> u8 \<times> 'h"
  bus_write8 :: "nat \<Rightarrow> u8 \<Rightarrow> 'h \<Rightarrow> 'h"

definition reg :: "nat \<Rightarrow> c_member list \<Rightarrow> string \<Rightarrow> nat" where
  "reg base s x = (case offset_of s x of Some off \<Rightarrow> base + off | None \<Rightarrow> base)"

text \<open>An element of a member that is an array of \<open>t\<close>.\<close>

definition reg_at :: "nat \<Rightarrow> c_member list \<Rightarrow> string \<Rightarrow> c_type \<Rightarrow> nat \<Rightarrow> nat" where
  "reg_at base s x t i = reg base s x + c_size t * i"

lemma offset_of_reg: "offset_of s x = Some off \<Longrightarrow> reg base s x = base + off"
  by (simp add: reg_def)

end
