(* ===== verification/Node_Uart.thy ===== *)
theory Node_Uart
  imports Mmio Cmsdk_Device
begin

section \<open>The UART driver (node/drivers/uart_cmsdk.hpp)\<close>

text \<open>
  A \<open>UartCmsdk\<close> is the base address of its register block. \<open>write_byte\<close> polls in a loop that ends only
  when the hardware lets it, so it is a partial function and \<open>None\<close> is polling forever. What the driver
  relies on of the peripheral is the predicate \<open>uart_ok\<close>.
\<close>

subsection \<open>The code\<close>

definition TXEN_Msk :: u32 where "TXEN_Msk = push_bit 0 1"
definition RXEN_Msk :: u32 where "RXEN_Msk = push_bit 1 1"
definition TXBF_Msk :: u32 where "TXBF_Msk = push_bit 0 1"
definition RXBF_Msk :: u32 where "RXBF_Msk = push_bit 1 1"
definition DATA_Msk :: u32 where "DATA_Msk = 0xFF"

definition uart_reg :: "nat \<Rightarrow> string \<Rightarrow> nat" where
  "uart_reg u x = reg u CMSDK_UART_TypeDef x"

definition UartCmsdk :: "'h bus \<Rightarrow> nat \<Rightarrow> u32 \<Rightarrow> u32 \<Rightarrow> 'h \<Rightarrow> 'h" where
  "UartCmsdk B registers clock_hz baud_rate h =
     (let h = bus_write B (uart_reg registers ''BAUDDIV'') (clock_hz div baud_rate) h in
      bus_write B (uart_reg registers ''CTRL'') (TXEN_Msk OR RXEN_Msk) h)"

text \<open>One evaluation of the loop condition of \<open>write_byte\<close>, and the store after the loop.\<close>

definition tx_full :: "'h bus \<Rightarrow> nat \<Rightarrow> 'h \<Rightarrow> bool \<times> 'h" where
  "tx_full B u h = (let (v, h) = bus_read B (uart_reg u ''STATE'') h in (v AND TXBF_Msk \<noteq> 0, h))"

definition tx_put :: "'h bus \<Rightarrow> nat \<Rightarrow> u8 \<Rightarrow> 'h \<Rightarrow> 'h" where
  "tx_put B u b h = bus_write B (uart_reg u ''DATA'') (ucast b) h"

partial_function (option) write_byte :: "'h bus \<Rightarrow> nat \<Rightarrow> u8 \<Rightarrow> 'h \<Rightarrow> 'h option" where
  "write_byte B u b h =
     (case tx_full B u h of (full, h) \<Rightarrow> if full then write_byte B u b h else Some (tx_put B u b h))"

fun uart_write :: "'h bus \<Rightarrow> nat \<Rightarrow> u8 list \<Rightarrow> 'h \<Rightarrow> 'h option" where
  "uart_write B u [] h = Some h"
| "uart_write B u (b # bs) h = Option.bind (write_byte B u b h) (uart_write B u bs)"

definition rx_ready :: "'h bus \<Rightarrow> nat \<Rightarrow> 'h \<Rightarrow> bool \<times> 'h" where
  "rx_ready B u h = (let (v, h) = bus_read B (uart_reg u ''STATE'') h in (v AND RXBF_Msk \<noteq> 0, h))"

definition rx_get :: "'h bus \<Rightarrow> nat \<Rightarrow> 'h \<Rightarrow> u8 \<times> 'h" where
  "rx_get B u h = (let (v, h) = bus_read B (uart_reg u ''DATA'') h in (ucast (v AND DATA_Msk), h))"

definition try_read_byte :: "'h bus \<Rightarrow> nat \<Rightarrow> 'h \<Rightarrow> u8 option \<times> 'h" where
  "try_read_byte B u h =
     (case rx_ready B u h of (ready, h) \<Rightarrow>
        if \<not> ready then (None, h) else (case rx_get B u h of (b, h) \<Rightarrow> (Some b, h)))"

subsection \<open>The peripheral\<close>

text \<open>What the driver relies on, over three observations of the hardware: the bytes transmitted so far,
  the byte waiting to be read, and how many more polls will find the transmit buffer full. A read of
  STATE reports both buffers and changes neither the bytes transmitted nor the byte it reports as
  waiting, and time passes; a store to DATA while the buffer has room transmits the low byte; a read of
  DATA transmits nothing and, while a byte is waiting, yields it. Nothing is promised of a store to a full
  buffer or of the value read from an empty one.\<close>

record 'h uart_view =
  sent :: "'h \<Rightarrow> u8 list"
  waiting :: "'h \<Rightarrow> u8 option"
  busy :: "'h \<Rightarrow> nat"

definition uart_ok :: "'h bus \<Rightarrow> nat \<Rightarrow> 'h uart_view \<Rightarrow> bool" where
  "uart_ok B u V \<longleftrightarrow>
     (\<forall>h v h'. bus_read B (uart_reg u ''STATE'') h = (v, h') \<longrightarrow>
        (bit v 0 \<longleftrightarrow> 0 < busy V h) \<and> (bit v 1 \<longleftrightarrow> waiting V h' \<noteq> None) \<and>
        sent V h' = sent V h \<and> busy V h' \<le> busy V h - 1) \<and>
     (\<forall>h w. busy V h = 0 \<longrightarrow> sent V (bus_write B (uart_reg u ''DATA'') w h) = sent V h @ [ucast w]) \<and>
     (\<forall>h v h'. bus_read B (uart_reg u ''DATA'') h = (v, h') \<longrightarrow>
        sent V h' = sent V h \<and> busy V h' \<le> busy V h \<and> (\<forall>b. waiting V h = Some b \<longrightarrow> ucast v = b))"

lemma and_bit_0: "v AND TXBF_Msk \<noteq> 0 \<longleftrightarrow> bit v 0"
proof -
  have "v AND TXBF_Msk = of_bool (bit v 0)"
    by (rule bit_word_eqI) (auto simp: TXBF_Msk_def bit_simps)
  then show ?thesis by simp
qed

lemma and_bit_1: "v AND RXBF_Msk \<noteq> 0 \<longleftrightarrow> bit v 1"
proof -
  have "v AND RXBF_Msk = push_bit 1 (of_bool (bit v 1))"
  proof (rule bit_word_eqI)
    fix n assume "n < LENGTH(32)"
    show "bit (v AND RXBF_Msk) n = bit (push_bit 1 (of_bool (bit v 1)) :: u32) n"
      by (cases n; cases "n - 1") (simp_all add: RXBF_Msk_def bit_simps)
  qed
  then show ?thesis by simp
qed

lemma ucast_and_DATA: "ucast (v AND DATA_Msk) = (ucast v :: u8)" for v :: u32
proof -
  have "bit (mask 8 :: u32) n \<longleftrightarrow> n < 8" for n by (auto simp: bit_mask_iff)
  moreover have "DATA_Msk = mask 8" by (simp add: DATA_Msk_def mask_eq_exp_minus_1)
  ultimately have "bit DATA_Msk n \<longleftrightarrow> n < 8" for n by metis
  then show ?thesis by (intro bit_word_eqI) (auto simp: bit_simps)
qed

lemma ucast_ucast_u8 [simp]: "ucast (ucast b :: u32) = (b :: u8)"
  by (rule bit_word_eqI) (auto simp: bit_simps)

text \<open>The driver's steps in terms of the view.\<close>

lemma tx_full_ok:
  "uart_ok B u V \<Longrightarrow> tx_full B u h = (full, h') \<Longrightarrow>
   (full \<longleftrightarrow> 0 < busy V h) \<and> sent V h' = sent V h \<and> busy V h' \<le> busy V h - 1"
  unfolding uart_ok_def tx_full_def by (fastforce simp: and_bit_0 Let_def split: prod.splits)

lemma tx_put_ok: "uart_ok B u V \<Longrightarrow> busy V h = 0 \<Longrightarrow> sent V (tx_put B u b h) = sent V h @ [b]"
  by (simp add: uart_ok_def tx_put_def)

lemma rx_ready_ok:
  "uart_ok B u V \<Longrightarrow> rx_ready B u h = (ready, h') \<Longrightarrow>
   (ready \<longleftrightarrow> waiting V h' \<noteq> None) \<and> sent V h' = sent V h \<and> busy V h' \<le> busy V h - 1"
  unfolding uart_ok_def rx_ready_def by (fastforce simp: and_bit_1 Let_def split: prod.splits)

lemma rx_get_ok:
  "uart_ok B u V \<Longrightarrow> rx_get B u h = (c, h') \<Longrightarrow>
   sent V h' = sent V h \<and> busy V h' \<le> busy V h \<and> (\<forall>b. waiting V h = Some b \<longrightarrow> c = b)"
  unfolding uart_ok_def rx_get_def by (fastforce simp: ucast_and_DATA Let_def split: prod.splits)

lemma write_byte_ok:
  assumes "uart_ok B u V"
  shows "\<exists>h'. write_byte B u b h = Some h' \<and> sent V h' = sent V h @ [b]"
proof (induction "busy V h" arbitrary: h rule: less_induct)
  case less
  obtain full h1 where t: "tx_full B u h = (full, h1)" by fastforce
  note t' = tx_full_ok [OF assms t]
  show ?case
  proof (cases full)
    case True
    then have "busy V h1 < busy V h" using t' by linarith
    from less [OF this] show ?thesis using True t t' by (subst write_byte.simps) simp
  next
    case False
    then have "busy V h1 = 0" using t' by simp
    then show ?thesis using False t t' tx_put_ok [OF assms] by (subst write_byte.simps) simp
  qed
qed

lemma uart_write_ok:
  assumes "uart_ok B u V"
  shows "\<exists>h'. uart_write B u bs h = Some h' \<and> sent V h' = sent V h @ bs"
proof (induction bs arbitrary: h)
  case (Cons b bs)
  obtain h1 where h1: "write_byte B u b h = Some h1" "sent V h1 = sent V h @ [b]"
    using write_byte_ok [OF assms] by blast
  obtain h2 where "uart_write B u bs h1 = Some h2" "sent V h2 = sent V h1 @ bs"
    using Cons by blast
  then show ?case using h1 by simp
qed simp

subsection \<open>A concrete peripheral\<close>

text \<open>A UART whose transmitter needs a number of polls per byte and whose receiver hands out a list of
  bytes: an instance of \<open>uart_ok\<close> that the witnesses run on.\<close>

record sim_uart =
  su_sent :: "u8 list"
  su_input :: "u8 list"
  su_busy :: nat

definition sim_read :: "nat \<Rightarrow> nat \<Rightarrow> sim_uart \<Rightarrow> u32 \<times> sim_uart" where
  "sim_read u a h =
     (if a = uart_reg u ''STATE'' then
        (of_bool (0 < su_busy h) OR push_bit 1 (of_bool (su_input h \<noteq> [])), h\<lparr>su_busy := su_busy h - 1\<rparr>)
      else if a = uart_reg u ''DATA'' then
        (case su_input h of [] \<Rightarrow> (0, h) | b # bs \<Rightarrow> (ucast b, h\<lparr>su_input := bs\<rparr>))
      else (0, h))"

definition sim_write :: "nat \<Rightarrow> nat \<Rightarrow> nat \<Rightarrow> u32 \<Rightarrow> sim_uart \<Rightarrow> sim_uart" where
  "sim_write u drain a w h =
     (if a = uart_reg u ''DATA'' then
        if su_busy h = 0 then h\<lparr>su_sent := su_sent h @ [ucast w], su_busy := drain\<rparr> else h
      else h)"

definition sim_bus :: "nat \<Rightarrow> nat \<Rightarrow> sim_uart bus" where
  "sim_bus u drain = \<lparr>bus_read = sim_read u, bus_write = sim_write u drain,
     bus_read8 = \<lambda>a h. (0, h), bus_write8 = \<lambda>a w h. h\<rparr>"

definition sim_view :: "sim_uart uart_view" where
  "sim_view = \<lparr>sent = su_sent, waiting = \<lambda>h. case su_input h of [] \<Rightarrow> None | b # bs \<Rightarrow> Some b, busy = su_busy\<rparr>"

lemma uart_offsets:
  "offset_of CMSDK_UART_TypeDef ''DATA'' = Some 0" "offset_of CMSDK_UART_TypeDef ''STATE'' = Some 4"
  "offset_of CMSDK_UART_TypeDef ''CTRL'' = Some 8" "offset_of CMSDK_UART_TypeDef ''BAUDDIV'' = Some 16"
  by code_simp+

lemma uart_regs [simp]:
  "uart_reg u ''DATA'' = u" "uart_reg u ''STATE'' = u + 4" "uart_reg u ''CTRL'' = u + 8"
  "uart_reg u ''BAUDDIV'' = u + 16"
  by (simp_all add: uart_reg_def offset_of_reg [OF uart_offsets(1)] offset_of_reg [OF uart_offsets(2)]
      offset_of_reg [OF uart_offsets(3)] offset_of_reg [OF uart_offsets(4)])

lemma sim_uart_ok: "uart_ok (sim_bus u drain) u sim_view"
  by (auto simp: uart_ok_def sim_bus_def sim_view_def sim_read_def sim_write_def bit_simps split: list.splits)

subsection \<open>Properties\<close>

text \<open>C15: the driver puts every byte on the wire, in order, and returns. On a peripheral whose transmit
  buffer frees up after some number of polls, \<open>write\<close> ends and has transmitted exactly its argument after
  what was sent before; \<open>try_read_byte\<close> never waits, returns a byte exactly when one is waiting and then
  that byte, and transmits nothing.\<close>

theorem uart_driver:
  assumes "uart_ok B u V"
  shows "(\<exists>h'. uart_write B u bs h = Some h' \<and> sent V h' = sent V h @ bs) \<and>
     (case try_read_byte B u h of (r, h') \<Rightarrow> sent V h' = sent V h \<and>
        (r = None \<longrightarrow> waiting V h' = None) \<and>
        (\<forall>b. r = Some b \<longrightarrow> (\<exists>h1. rx_ready B u h = (True, h1) \<and> waiting V h1 = Some b)))"
proof -
  obtain ready h1 where r: "rx_ready B u h = (ready, h1)" by fastforce
  obtain c h2 where g: "rx_get B u h1 = (c, h2)" by fastforce
  show ?thesis
    using uart_write_ok [OF assms, of bs h] rx_ready_ok [OF assms r] rx_get_ok [OF assms g] r g
    by (cases ready) (auto simp: try_read_byte_def)
qed

theorem uart_driver_witness:
  "(\<exists>h'. uart_write (sim_bus CMSDK_UART0_BASE 2) CMSDK_UART0_BASE [7, 0, 9]
        \<lparr>su_sent = [1], su_input = [5, 6], su_busy = 1\<rparr> = Some h' \<and>
      su_sent h' = [1, 7, 0, 9]) \<and>
   fst (try_read_byte (sim_bus CMSDK_UART0_BASE 2) CMSDK_UART0_BASE
      \<lparr>su_sent = [1], su_input = [5, 6], su_busy = 1\<rparr>) = Some 5"
  using uart_driver [OF sim_uart_ok, of CMSDK_UART0_BASE 2 "[7, 0, 9]"
      "\<lparr>su_sent = [1], su_input = [5, 6], su_busy = 1\<rparr>"]
  by (simp add: sim_view_def try_read_byte_def rx_ready_def rx_get_def sim_bus_def sim_read_def
      CMSDK_UART0_BASE_def RXBF_Msk_def DATA_Msk_def)

end
