(* ===== verification/Node_Tasks.thy ===== *)
theory Node_Tasks
  imports Node_Rtos Node_Uart Frame_Parser
begin

section \<open>The node's tasks (node/shared_state.hpp, node/session, node/tasks)\<close>

text \<open>
  The three task functions, each as a step function on the whole node: a program counter with the
  task's local variables, and one step per access to something another task or the hardware can touch
  (the mutex, the queue, a field of the shared pipeline, a UART register, the tick count). A task whose
  next call blocks has no step (\<open>None\<close>). Every step yields the list of events it makes visible.
\<close>

subsection \<open>Shared state\<close>

definition kQueueCapacity :: nat where "kQueueCapacity = 8"

record Pipeline =
  pl_sample_rate_hz :: u8
  pl_session_id :: u16
  pl_connected :: bool
  pl_config_mutex :: handle
  pl_reading_queue :: handle
  pl_uart :: nat

definition kDeviceId :: u32 where "kDeviceId = 1"
definition kMetricCount :: u8 where "kMetricCount = 1"
definition kHeartbeatInterval :: "'k rtos \<Rightarrow> u32" where "kHeartbeatInterval RT = pdMS_TO_TICKS RT 2000"

subsection \<open>The sensor\<close>

definition FakeReadingMilli :: "u32 \<Rightarrow> i32" where
  "FakeReadingMilli sample_index =
     (let kBaselineMilli = 4000; kSwingMilli = 3000; kPeriodSamples = (20 :: u32);
          position = int (unat (sample_index mod kPeriodSamples));
          triangle = (if position \<le> int (unat (kPeriodSamples div 2)) then position
                      else int (unat kPeriodSamples) - position)
      in kBaselineMilli - kSwingMilli + (triangle * 4 * kSwingMilli) div int (unat kPeriodSamples))"

definition safe_rate :: "u8 \<Rightarrow> u8" where
  "safe_rate rate_hz = (if rate_hz = 0 then 1 else rate_hz)"

definition sample_period_ms :: "u8 \<Rightarrow> u32" where
  "sample_period_ms rate_hz = of_nat (1000 div unat (safe_rate rate_hz))"

subsection \<open>Messages\<close>

text \<open>The bytes that \<open>SendMessage\<close> and the telemetry task hand to the UART: the encoded frame, or
  nothing when the encoder refuses.\<close>

definition message_frame :: "MessageType \<Rightarrow> u8 list \<Rightarrow> u8 list" where
  "message_frame type payload =
     (case encoded_frame type payload (max_encoded_frame_size (length payload)) of
        Some frame \<Rightarrow> frame | None \<Rightarrow> [])"

definition hello_payload :: "Pipeline \<Rightarrow> u8 list" where
  "hello_payload pl = hello_bytes
     \<lparr>hello_device_id = kDeviceId, hello_fw_version = kProtocolVersion,
      hello_metric_count = kMetricCount, hello_offered_rate_hz = pl_sample_rate_hz pl\<rparr>"

definition heartbeat_payload :: "Pipeline \<Rightarrow> u32 \<Rightarrow> u8 list" where
  "heartbeat_payload pl uptime_ms = heartbeat_bytes
     \<lparr>heartbeat_session_id = pl_session_id pl, heartbeat_uptime_ms = uptime_ms\<rparr>"

definition sample_payload :: "u16 \<Rightarrow> Reading \<Rightarrow> u8 list" where
  "sample_payload session_id reading = sample_bytes
     \<lparr>sample_session_id = session_id, sample_timestamp_ms = timestamp_ms reading,
      sample_value_milli = value_milli reading, sample_metric_id = 0\<rparr>"

subsection \<open>Program counters, events and the node\<close>

datatype sensor_pc =
    S_Guard u32 | S_Load u32 | S_Release u32 u8 | S_Sample u32 u8 | S_Send u32 u8 Reading
  | S_Delay u32 u8 | S_Asleep u32

datatype telemetry_pc =
    T_Receive | T_Guard Reading | T_Load Reading | T_Release Reading u16 | T_Encode Reading u16
  | T_Poll "u8 list" | T_Put u8 "u8 list"

text \<open>What a completed frame asks for, and which of the two messages a write belongs to.\<close>

datatype instruction = Configure ConfigPayload | SlowDown SlowDownPayload

datatype sending = Hello | Beat

datatype command_pc =
    C_Hello | C_Poll sending "u8 list" | C_Put sending u8 "u8 list" | C_Stamp sending
  | C_Try u32 | C_Get u32 | C_Check u32 | C_Beat | C_Delay u32 | C_Asleep u32
  | C_Guard u32 instruction | C_SetRate u32 instruction | C_SetSession u32 ConfigPayload
  | C_SetConnected u32 ConfigPayload | C_Release u32 instruction

datatype event =
    Sampled Reading                          \<comment> \<open>the sensor has measured\<close>
  | Received Reading                         \<comment> \<open>the telemetry task has taken a reading\<close>
  | Sends task MessageType "u8 list"         \<comment> \<open>a task starts writing a message\<close>
  | Put task u8                              \<comment> \<open>a byte is stored to the UART's data register\<close>
  | Got u8                                   \<comment> \<open>a byte is read from it\<close>
  | Applied instruction                      \<comment> \<open>an instruction is in force\<close>
  | Slept task u32                           \<comment> \<open>a delay of so many ticks\<close>

record ('k, 'h) node =
  nd_kernel :: 'k
  nd_hw :: 'h
  nd_pipeline :: Pipeline
  nd_parser :: frame_parser
  nd_sensor :: sensor_pc
  nd_telemetry :: telemetry_pc
  nd_command :: command_pc

subsection \<open>SensorTask\<close>

fun sensor_step :: "'k rtos \<Rightarrow> sensor_pc \<Rightarrow> ('k, 'h) node \<Rightarrow> (event list \<times> ('k, 'h) node) option" where
  "sensor_step RT (S_Guard i) s =
     (case Guard RT Sensor (pl_config_mutex (nd_pipeline s)) (nd_kernel s) of
        None \<Rightarrow> None | Some k \<Rightarrow> Some ([], s\<lparr>nd_kernel := k, nd_sensor := S_Load i\<rparr>))"
| "sensor_step RT (S_Load i) s =
     Some ([], s\<lparr>nd_sensor := S_Release i (pl_sample_rate_hz (nd_pipeline s))\<rparr>)"
| "sensor_step RT (S_Release i rate_hz) s =
     Some ([], s\<lparr>nd_kernel := Guard_release RT Sensor (pl_config_mutex (nd_pipeline s)) (nd_kernel s),
                nd_sensor := S_Sample i rate_hz\<rparr>)"
| "sensor_step RT (S_Sample i rate_hz) s =
     (let reading = \<lparr>value_milli = FakeReadingMilli i,
                     timestamp_ms = xTaskGetTickCount RT (nd_kernel s) * portTICK_PERIOD_MS RT\<rparr> in
      Some ([Sampled reading], s\<lparr>nd_sensor := S_Send i rate_hz reading\<rparr>))"
| "sensor_step RT (S_Send i rate_hz reading) s =
     (case Queue_send RT (pl_reading_queue (nd_pipeline s)) reading (nd_kernel s) of
        None \<Rightarrow> None
      | Some (_, k) \<Rightarrow> Some ([], s\<lparr>nd_kernel := k, nd_sensor := S_Delay (i + 1) rate_hz\<rparr>))"
| "sensor_step RT (S_Delay i rate_hz) s =
     (let n = pdMS_TO_TICKS RT (sample_period_ms rate_hz) in
      Some ([Slept Sensor n], s\<lparr>nd_kernel := vTaskDelay RT Sensor n (nd_kernel s), nd_sensor := S_Asleep i\<rparr>))"
| "sensor_step RT (S_Asleep i) s =
     (if task_ready RT Sensor (nd_kernel s) then Some ([], s\<lparr>nd_sensor := S_Guard i\<rparr>) else None)"

subsection \<open>TelemetryTask\<close>

fun telemetry_step ::
  "'k rtos \<Rightarrow> 'h bus \<Rightarrow> telemetry_pc \<Rightarrow> ('k, 'h) node \<Rightarrow> (event list \<times> ('k, 'h) node) option" where
  "telemetry_step RT B T_Receive s =
     (case Queue_receive RT (pl_reading_queue (nd_pipeline s)) (nd_kernel s) of
        None \<Rightarrow> None
      | Some (None, k) \<Rightarrow> Some ([], s\<lparr>nd_kernel := k\<rparr>)
      | Some (Some reading, k) \<Rightarrow> Some ([Received reading], s\<lparr>nd_kernel := k, nd_telemetry := T_Guard reading\<rparr>))"
| "telemetry_step RT B (T_Guard reading) s =
     (case Guard RT Telemetry (pl_config_mutex (nd_pipeline s)) (nd_kernel s) of
        None \<Rightarrow> None | Some k \<Rightarrow> Some ([], s\<lparr>nd_kernel := k, nd_telemetry := T_Load reading\<rparr>))"
| "telemetry_step RT B (T_Load reading) s =
     Some ([], s\<lparr>nd_telemetry := T_Release reading (pl_session_id (nd_pipeline s))\<rparr>)"
| "telemetry_step RT B (T_Release reading session_id) s =
     Some ([], s\<lparr>nd_kernel := Guard_release RT Telemetry (pl_config_mutex (nd_pipeline s)) (nd_kernel s),
                nd_telemetry := T_Encode reading session_id\<rparr>)"
| "telemetry_step RT B (T_Encode reading session_id) s =
     (let payload = sample_payload session_id reading in
      Some ([Sends Telemetry kSample payload], s\<lparr>nd_telemetry := T_Poll (message_frame kSample payload)\<rparr>))"
| "telemetry_step RT B (T_Poll []) s = Some ([], s\<lparr>nd_telemetry := T_Receive\<rparr>)"
| "telemetry_step RT B (T_Poll (b # bs)) s =
     (case tx_full B (pl_uart (nd_pipeline s)) (nd_hw s) of (full, h) \<Rightarrow>
        Some ([], s\<lparr>nd_hw := h, nd_telemetry := (if full then T_Poll (b # bs) else T_Put b bs)\<rparr>))"
| "telemetry_step RT B (T_Put b bs) s =
     Some ([Put Telemetry b], s\<lparr>nd_hw := tx_put B (pl_uart (nd_pipeline s)) b (nd_hw s), nd_telemetry := T_Poll bs\<rparr>)"

subsection \<open>CommandTask\<close>

definition instruction_of :: "ParsedFrame \<Rightarrow> instruction option" where
  "instruction_of f =
     (if pf_type f = kConfig \<and> pf_payload_size f = sizeof_ConfigPayload
      then Some (Configure (config_of_bytes (pf_payload f)))
      else if pf_type f = kSlowDown \<and> pf_payload_size f = sizeof_SlowDownPayload
      then Some (SlowDown (slow_down_of_bytes (pf_payload f)))
      else None)"

fun new_rate :: "instruction \<Rightarrow> u8" where
  "new_rate (Configure c) = config_sample_rate_hz c"
| "new_rate (SlowDown c) = slow_down_new_rate_hz c"

definition heartbeat_due :: "'k rtos \<Rightarrow> u32 \<Rightarrow> u32 \<Rightarrow> bool" where
  "heartbeat_due RT now last_heartbeat \<longleftrightarrow> now - last_heartbeat \<ge> kHeartbeatInterval RT"

fun command_step ::
  "'k rtos \<Rightarrow> 'h bus \<Rightarrow> command_pc \<Rightarrow> ('k, 'h) node \<Rightarrow> (event list \<times> ('k, 'h) node) option" where
  "command_step RT B C_Hello s =
     (let payload = hello_payload (nd_pipeline s) in
      Some ([Sends Command kHello payload], s\<lparr>nd_command := C_Poll Hello (message_frame kHello payload)\<rparr>))"
| "command_step RT B (C_Poll m []) s = Some ([], s\<lparr>nd_command := C_Stamp m\<rparr>)"
| "command_step RT B (C_Poll m (b # bs)) s =
     (case tx_full B (pl_uart (nd_pipeline s)) (nd_hw s) of (full, h) \<Rightarrow>
        Some ([], s\<lparr>nd_hw := h, nd_command := (if full then C_Poll m (b # bs) else C_Put m b bs)\<rparr>))"
| "command_step RT B (C_Put m b bs) s =
     Some ([Put Command b], s\<lparr>nd_hw := tx_put B (pl_uart (nd_pipeline s)) b (nd_hw s), nd_command := C_Poll m bs\<rparr>)"
| "command_step RT B (C_Stamp m) s =
     (let last_heartbeat = xTaskGetTickCount RT (nd_kernel s) in
      Some ([], s\<lparr>nd_command := (case m of Hello \<Rightarrow> C_Try last_heartbeat | Beat \<Rightarrow> C_Delay last_heartbeat)\<rparr>))"
| "command_step RT B (C_Try lst) s =
     (case rx_ready B (pl_uart (nd_pipeline s)) (nd_hw s) of (ready, h) \<Rightarrow>
        Some ([], s\<lparr>nd_hw := h, nd_command := (if ready then C_Get lst else C_Check lst)\<rparr>))"
| "command_step RT B (C_Check lst) s =
     Some ([], s\<lparr>nd_command := (if heartbeat_due RT (xTaskGetTickCount RT (nd_kernel s)) lst
                               then C_Beat else C_Delay lst)\<rparr>)"
| "command_step RT B C_Beat s =
     (let payload = heartbeat_payload (nd_pipeline s)
            (xTaskGetTickCount RT (nd_kernel s) * portTICK_PERIOD_MS RT) in
      Some ([Sends Command kHeartbeat payload],
        s\<lparr>nd_command := C_Poll Beat (message_frame kHeartbeat payload)\<rparr>))"
| "command_step RT B (C_Delay lst) s =
     (let n = pdMS_TO_TICKS RT 10 in
      Some ([Slept Command n], s\<lparr>nd_kernel := vTaskDelay RT Command n (nd_kernel s), nd_command := C_Asleep lst\<rparr>))"
| "command_step RT B (C_Asleep lst) s =
     (if task_ready RT Command (nd_kernel s) then Some ([], s\<lparr>nd_command := C_Try lst\<rparr>) else None)"
| "command_step RT B (C_Get lst) s =
     (case rx_get B (pl_uart (nd_pipeline s)) (nd_hw s) of (b, h) \<Rightarrow>
        case push_byte kMaxPayloadSize b (nd_parser s) of (frame, p) \<Rightarrow>
          Some ([Got b], s\<lparr>nd_hw := h, nd_parser := p,
            nd_command := (case Option.bind frame instruction_of of
                             None \<Rightarrow> C_Try lst | Some c \<Rightarrow> C_Guard lst c)\<rparr>))"
| "command_step RT B (C_Guard lst c) s =
     (case Guard RT Command (pl_config_mutex (nd_pipeline s)) (nd_kernel s) of
        None \<Rightarrow> None | Some k \<Rightarrow> Some ([], s\<lparr>nd_kernel := k, nd_command := C_SetRate lst c\<rparr>))"
| "command_step RT B (C_SetRate lst c) s =
     Some ([], s\<lparr>nd_pipeline := (nd_pipeline s)\<lparr>pl_sample_rate_hz := new_rate c\<rparr>,
                nd_command := (case c of Configure p \<Rightarrow> C_SetSession lst p | SlowDown _ \<Rightarrow> C_Release lst c)\<rparr>)"
| "command_step RT B (C_SetSession lst p) s =
     Some ([], s\<lparr>nd_pipeline := (nd_pipeline s)\<lparr>pl_session_id := config_session_id p\<rparr>,
                nd_command := C_SetConnected lst p\<rparr>)"
| "command_step RT B (C_SetConnected lst p) s =
     Some ([], s\<lparr>nd_pipeline := (nd_pipeline s)\<lparr>pl_connected := True\<rparr>, nd_command := C_Release lst (Configure p)\<rparr>)"
| "command_step RT B (C_Release lst c) s =
     Some ([Applied c],
       s\<lparr>nd_kernel := Guard_release RT Command (pl_config_mutex (nd_pipeline s)) (nd_kernel s),
         nd_command := C_Try lst\<rparr>)"

end
