(* ===== verification/Node_Steps.thy ===== *)
theory Node_Steps
  imports Node_Tasks
begin

section \<open>The node running\<close>

text \<open>
  The three tasks interleaved at the granularity of their steps, together with the tick interrupt and
  whatever the hardware does by itself. Every interleaving is allowed, so what holds of all runs holds
  whatever the scheduler does. A run carries the list of events it produced.
\<close>

subsection \<open>Runs\<close>

inductive node_step ::
  "'k rtos \<Rightarrow> 'h bus \<Rightarrow> ('h \<Rightarrow> 'h \<Rightarrow> bool) \<Rightarrow> ('k, 'h) node \<Rightarrow> event list \<Rightarrow> ('k, 'h) node \<Rightarrow> bool"
  for RT :: "'k rtos" and B :: "'h bus" and hw :: "'h \<Rightarrow> 'h \<Rightarrow> bool" where
  sensor: "sensor_step RT (nd_sensor s) s = Some (es, s') \<Longrightarrow> node_step RT B hw s es s'"
| telemetry: "telemetry_step RT B (nd_telemetry s) s = Some (es, s') \<Longrightarrow> node_step RT B hw s es s'"
| command: "command_step RT B (nd_command s) s = Some (es, s') \<Longrightarrow> node_step RT B hw s es s'"
| tick: "node_step RT B hw s [] (s\<lparr>nd_kernel := tick_interrupt RT (nd_kernel s)\<rparr>)"
| wire: "hw (nd_hw s) h \<Longrightarrow> node_step RT B hw s [] (s\<lparr>nd_hw := h\<rparr>)"

inductive node_run ::
  "'k rtos \<Rightarrow> 'h bus \<Rightarrow> ('h \<Rightarrow> 'h \<Rightarrow> bool) \<Rightarrow> ('k, 'h) node \<Rightarrow> event list \<Rightarrow> ('k, 'h) node \<Rightarrow> bool"
  for RT :: "'k rtos" and B :: "'h bus" and hw :: "'h \<Rightarrow> 'h \<Rightarrow> bool" and s0 :: "('k, 'h) node" where
  start: "node_run RT B hw s0 [] s0"
| more: "node_run RT B hw s0 tr s \<Longrightarrow> node_step RT B hw s es s' \<Longrightarrow> node_run RT B hw s0 (tr @ es) s'"

definition booted :: "'k \<Rightarrow> 'h \<Rightarrow> handle \<Rightarrow> handle \<Rightarrow> nat \<Rightarrow> ('k, 'h) node" where
  "booted k h m q u =
     \<lparr>nd_kernel = k, nd_hw = h,
      nd_pipeline = \<lparr>pl_sample_rate_hz = 2, pl_session_id = 0, pl_connected = False,
        pl_config_mutex = m, pl_reading_queue = q, pl_uart = u\<rparr>,
      nd_parser = new_frame_parser kMaxPayloadSize,
      nd_sensor = S_Guard 0, nd_telemetry = T_Receive, nd_command = C_Hello\<rparr>"

text \<open>The kernel objects as the constructors of \<open>Pipeline\<close> leave them.\<close>

definition created :: "'k rtos_view \<Rightarrow> 'k \<Rightarrow> handle \<Rightarrow> handle \<Rightarrow> bool" where
  "created V k m q \<longleftrightarrow> holder V m k = None \<and> q_items V q k = [] \<and> q_length V q k = kQueueCapacity"

subsection \<open>What is read off the events\<close>

definition sampled :: "event list \<Rightarrow> Reading list" where
  "sampled tr = List.map_filter (\<lambda>e. case e of Sampled r \<Rightarrow> Some r | _ \<Rightarrow> None) tr"

definition received :: "event list \<Rightarrow> Reading list" where
  "received tr = List.map_filter (\<lambda>e. case e of Received r \<Rightarrow> Some r | _ \<Rightarrow> None) tr"

definition messages_of :: "task \<Rightarrow> event list \<Rightarrow> (MessageType \<times> u8 list) list" where
  "messages_of t tr = List.map_filter (\<lambda>e. case e of Sends t' ty pl \<Rightarrow> if t' = t then Some (ty, pl) else None | _ \<Rightarrow> None) tr"

definition bytes_of_task :: "task \<Rightarrow> event list \<Rightarrow> u8 list" where
  "bytes_of_task t tr = List.map_filter (\<lambda>e. case e of Put t' b \<Rightarrow> if t' = t then Some b else None | _ \<Rightarrow> None) tr"

definition puts :: "event list \<Rightarrow> u8 list" where
  "puts tr = List.map_filter (\<lambda>e. case e of Put t' b \<Rightarrow> Some b | _ \<Rightarrow> None) tr"

definition gots :: "event list \<Rightarrow> u8 list" where
  "gots tr = List.map_filter (\<lambda>e. case e of Got b \<Rightarrow> Some b | _ \<Rightarrow> None) tr"

definition applied :: "event list \<Rightarrow> instruction list" where
  "applied tr = List.map_filter (\<lambda>e. case e of Applied c \<Rightarrow> Some c | _ \<Rightarrow> None) tr"

lemma map_filter_append: "List.map_filter f (xs @ ys) = List.map_filter f xs @ List.map_filter f ys"
  by (simp add: map_filter_def)

lemmas event_lists = sampled_def received_def messages_of_def bytes_of_task_def puts_def gots_def applied_def

lemma events_append [simp]:
  "sampled (xs @ ys) = sampled xs @ sampled ys" "received (xs @ ys) = received xs @ received ys"
  "messages_of t (xs @ ys) = messages_of t xs @ messages_of t ys"
  "bytes_of_task t (xs @ ys) = bytes_of_task t xs @ bytes_of_task t ys"
  "puts (xs @ ys) = puts xs @ puts ys" "gots (xs @ ys) = gots xs @ gots ys"
  "applied (xs @ ys) = applied xs @ applied ys"
  by (simp_all add: event_lists map_filter_append)

lemma events_nil [simp]:
  "sampled [] = []" "received [] = []" "messages_of t [] = []" "bytes_of_task t [] = []"
  "puts [] = []" "gots [] = []" "applied [] = []"
  by (simp_all add: event_lists map_filter_simps)

lemma events_single [simp]:
  "sampled [e] = (case e of Sampled r \<Rightarrow> [r] | _ \<Rightarrow> [])"
  "received [e] = (case e of Received r \<Rightarrow> [r] | _ \<Rightarrow> [])"
  "messages_of t [e] = (case e of Sends t' ty pl \<Rightarrow> if t' = t then [(ty, pl)] else [] | _ \<Rightarrow> [])"
  "bytes_of_task t [e] = (case e of Put t' b \<Rightarrow> if t' = t then [b] else [] | _ \<Rightarrow> [])"
  "puts [e] = (case e of Put t' b \<Rightarrow> [b] | _ \<Rightarrow> [])"
  "gots [e] = (case e of Got b \<Rightarrow> [b] | _ \<Rightarrow> [])"
  "applied [e] = (case e of Applied c \<Rightarrow> [c] | _ \<Rightarrow> [])"
  by (simp_all add: event_lists map_filter_simps split: event.split)

subsection \<open>The mutex\<close>

fun sensor_locked :: "sensor_pc \<Rightarrow> bool" where
  "sensor_locked (S_Load _) = True" | "sensor_locked (S_Release _ _) = True" | "sensor_locked _ = False"

fun telemetry_locked :: "telemetry_pc \<Rightarrow> bool" where
  "telemetry_locked (T_Load _) = True" | "telemetry_locked (T_Release _ _) = True" | "telemetry_locked _ = False"

fun command_locked :: "command_pc \<Rightarrow> bool" where
  "command_locked (C_SetRate _ _) = True" | "command_locked (C_SetSession _ _) = True"
| "command_locked (C_SetConnected _ _) = True" | "command_locked (C_Release _ _) = True"
| "command_locked _ = False"

definition in_section :: "('k, 'h) node \<Rightarrow> task set" where
  "in_section s = {t. case t of Sensor \<Rightarrow> sensor_locked (nd_sensor s) | Telemetry \<Rightarrow> telemetry_locked (nd_telemetry s)
     | Command \<Rightarrow> command_locked (nd_command s)}"

definition mutex_inv :: "'k rtos_view \<Rightarrow> ('k, 'h) node \<Rightarrow> bool" where
  "mutex_inv V s \<longleftrightarrow> in_section s = set_option (holder V (pl_config_mutex (nd_pipeline s)) (nd_kernel s))"

text \<open>Entering and leaving, for any task: the locked program counter of one task changes with the holder.\<close>

lemma mutex_inv_iff:
  "mutex_inv V s \<longleftrightarrow> (\<forall>t. (case t of Sensor \<Rightarrow> sensor_locked (nd_sensor s) | Telemetry \<Rightarrow> telemetry_locked (nd_telemetry s)
     | Command \<Rightarrow> command_locked (nd_command s)) \<longleftrightarrow>
     holder V (pl_config_mutex (nd_pipeline s)) (nd_kernel s) = Some t)"
  by (auto simp: mutex_inv_def in_section_def set_eq_iff eq_commute)

lemma all_task: "(\<forall>t. P t) \<longleftrightarrow> P Sensor \<and> P Telemetry \<and> P Command"
  by (metis task.exhaust)

lemma mutex_inv_sensor:
  assumes ok: "rtos_ok RT V" and "mutex_inv V s" "sensor_step RT (nd_sensor s) s = Some (es, s')"
  shows "mutex_inv V s'"
  using assms(2,3)
  by (cases "nd_sensor s")
     (auto simp: mutex_inv_iff all_task Let_def ok guard_view [OF ok] send_view [OF ok] release_view [OF ok]
       split: option.splits if_splits)

lemma mutex_inv_telemetry:
  assumes ok: "rtos_ok RT V" and "mutex_inv V s" "telemetry_step RT B (nd_telemetry s) s = Some (es, s')"
  shows "mutex_inv V s'"
  using assms(2,3)
  by (cases "(RT, B, nd_telemetry s, s)" rule: telemetry_step.cases)
     (auto simp: mutex_inv_iff all_task Let_def ok guard_view [OF ok] receive_view [OF ok] release_view [OF ok]
       split: option.splits if_splits prod.splits)

lemma mutex_inv_command:
  assumes ok: "rtos_ok RT V" and "mutex_inv V s" "command_step RT B (nd_command s) s = Some (es, s')"
  shows "mutex_inv V s'"
  using assms(2,3)
  by (cases "(RT, B, nd_command s, s)" rule: command_step.cases)
     (auto simp: mutex_inv_iff all_task Let_def ok guard_view [OF ok] release_view [OF ok]
       split: option.splits if_splits prod.splits sending.splits instruction.splits)

subsection \<open>What a task's step leaves alone\<close>

lemma sensor_frame:
  assumes "sensor_step RT (nd_sensor s) s = Some (es, s')"
  shows "nd_telemetry s' = nd_telemetry s" "nd_command s' = nd_command s" "nd_pipeline s' = nd_pipeline s"
    "nd_parser s' = nd_parser s" "nd_hw s' = nd_hw s" "received es = []" "messages_of t es = []"
    "bytes_of_task t es = []" "puts es = []" "gots es = []" "applied es = []"
  using assms by (cases "nd_sensor s"; auto simp: Let_def split: option.splits if_splits)+

lemma telemetry_frame:
  assumes "telemetry_step RT B (nd_telemetry s) s = Some (es, s')"
  shows "nd_sensor s' = nd_sensor s" "nd_command s' = nd_command s" "nd_pipeline s' = nd_pipeline s"
    "nd_parser s' = nd_parser s" "sampled es = []" "messages_of Command es = []"
    "bytes_of_task Command es = []" "gots es = []" "applied es = []"
  using assms
  by (cases "(RT, B, nd_telemetry s, s)" rule: telemetry_step.cases;
      auto simp: Let_def split: option.splits if_splits prod.splits)+

lemma command_frame:
  assumes "command_step RT B (nd_command s) s = Some (es, s')"
  shows "nd_sensor s' = nd_sensor s" "nd_telemetry s' = nd_telemetry s" "sampled es = []"
    "received es = []" "messages_of Telemetry es = []" "bytes_of_task Telemetry es = []"
    "pl_config_mutex (nd_pipeline s') = pl_config_mutex (nd_pipeline s)"
    "pl_reading_queue (nd_pipeline s') = pl_reading_queue (nd_pipeline s)"
    "pl_uart (nd_pipeline s') = pl_uart (nd_pipeline s)"
  using assms
  by (cases "(RT, B, nd_command s, s)" rule: command_step.cases;
      auto simp: Let_def split: option.splits if_splits prod.splits sending.splits instruction.splits)+

subsection \<open>Readings\<close>

text \<open>The reading the sensor is about to queue, the number of the sample it is at, and the reading the
  telemetry task has in hand.\<close>

fun queueing :: "sensor_pc \<Rightarrow> Reading list" where
  "queueing (S_Send i r rd) = [rd]" | "queueing _ = []"

fun sensor_index :: "sensor_pc \<Rightarrow> u32" where
  "sensor_index (S_Guard i) = i" | "sensor_index (S_Load i) = i" | "sensor_index (S_Release i _) = i"
| "sensor_index (S_Sample i _) = i" | "sensor_index (S_Send i _ _) = i + 1"
| "sensor_index (S_Delay i _) = i" | "sensor_index (S_Asleep i) = i"

fun in_hand :: "telemetry_pc \<Rightarrow> Reading list" where
  "in_hand (T_Guard rd) = [rd]" | "in_hand (T_Load rd) = [rd]" | "in_hand (T_Release rd _) = [rd]"
| "in_hand (T_Encode rd _) = [rd]" | "in_hand _ = []"

definition readings_inv :: "'k rtos_view \<Rightarrow> event list \<Rightarrow> ('k, 'h) node \<Rightarrow> bool" where
  "readings_inv V tr s \<longleftrightarrow>
     (let items = q_items V (pl_reading_queue (nd_pipeline s)) (nd_kernel s) in
      sampled tr = received tr @ items @ queueing (nd_sensor s) \<and>
      q_length V (pl_reading_queue (nd_pipeline s)) (nd_kernel s) = kQueueCapacity \<and>
      length items \<le> kQueueCapacity)"

definition values_inv :: "event list \<Rightarrow> ('k, 'h) node \<Rightarrow> bool" where
  "values_inv tr s \<longleftrightarrow>
     map value_milli (sampled tr) = map (\<lambda>n. FakeReadingMilli (of_nat n)) [0..<length (sampled tr)] \<and>
     sensor_index (nd_sensor s) = of_nat (length (sampled tr))"

definition samples_inv :: "event list \<Rightarrow> ('k, 'h) node \<Rightarrow> bool" where
  "samples_inv tr s \<longleftrightarrow>
     (\<exists>prs. received tr = map snd prs @ in_hand (nd_telemetry s) \<and>
        messages_of Telemetry tr = map (\<lambda>(sid, rd). (kSample, sample_payload sid rd)) prs)"

lemma readings_inv_sensor:
  assumes ok: "rtos_ok RT V" and "mutex_inv V s" "readings_inv V tr s"
    and "sensor_step RT (nd_sensor s) s = Some (es, s')"
  shows "readings_inv V (tr @ es) s'"
proof -
  have room: "length (q_items V (pl_reading_queue (nd_pipeline s)) (nd_kernel s)) < kQueueCapacity"
    if "Queue_send RT (pl_reading_queue (nd_pipeline s)) rd (nd_kernel s) = Some r" for rd r
    using send_view(2) [OF ok] that assms(3) by (cases r) (force simp: readings_inv_def Let_def)
  show ?thesis
    using assms(2-4)
    by (cases "nd_sensor s")
       (auto simp: readings_inv_def mutex_inv_iff all_task Let_def ok guard_view [OF ok] send_view(3-5) [OF ok]
         release_view [OF ok] Suc_le_eq room split: option.splits if_splits)
qed

lemma readings_inv_telemetry:
  assumes ok: "rtos_ok RT V" and "mutex_inv V s" "readings_inv V tr s"
    and "telemetry_step RT B (nd_telemetry s) s = Some (es, s')"
  shows "readings_inv V (tr @ es) s'"
  using assms(2-4)
  by (cases "(RT, B, nd_telemetry s, s)" rule: telemetry_step.cases)
     (auto simp: readings_inv_def mutex_inv_iff all_task Let_def ok guard_view [OF ok]
       release_view [OF ok] receive_view(2-4) [OF ok] split: option.splits if_splits prod.splits
       dest: receive_view(1) [OF ok])

lemma readings_inv_command:
  assumes ok: "rtos_ok RT V" and "mutex_inv V s" "readings_inv V tr s"
    and "command_step RT B (nd_command s) s = Some (es, s')"
  shows "readings_inv V (tr @ es) s'"
  using assms(2-4)
  by (cases "(RT, B, nd_command s, s)" rule: command_step.cases)
     (auto simp: readings_inv_def mutex_inv_iff all_task Let_def ok guard_view [OF ok]
       release_view [OF ok] split: option.splits if_splits prod.splits sending.splits instruction.splits)

lemma values_inv_sensor:
  "values_inv tr s \<Longrightarrow> sensor_step RT (nd_sensor s) s = Some (es, s') \<Longrightarrow> values_inv (tr @ es) s'"
  by (cases "nd_sensor s")
     (auto simp: values_inv_def Let_def split: option.splits if_splits)

lemma samples_inv_telemetry:
  assumes "samples_inv tr s" "telemetry_step RT B (nd_telemetry s) s = Some (es, s')"
  shows "samples_inv (tr @ es) s'"
proof -
  obtain prs where prs: "received tr = map snd prs @ in_hand (nd_telemetry s)"
    "messages_of Telemetry tr = map (\<lambda>(sid, rd). (kSample, sample_payload sid rd)) prs"
    using assms(1) by (auto simp: samples_inv_def)
  show ?thesis
  proof (cases "\<exists>rd sid. nd_telemetry s = T_Encode rd sid")
    case True
    then obtain rd sid where "nd_telemetry s = T_Encode rd sid" by blast
    then show ?thesis
      using prs assms(2) unfolding samples_inv_def by (intro exI [of _ "prs @ [(sid, rd)]"]) (auto simp: Let_def)
  next
    case False
    then show ?thesis
      using prs assms(2) unfolding samples_inv_def
      by (intro exI [of _ prs], cases "(RT, B, nd_telemetry s, s)" rule: telemetry_step.cases)
         (auto split: option.splits if_splits prod.splits)
  qed
qed

subsection \<open>Bytes\<close>

text \<open>What a task still has to write of the message it is writing.\<close>

fun t_left :: "telemetry_pc \<Rightarrow> u8 list" where
  "t_left (T_Poll bs) = bs" | "t_left (T_Put b bs) = b # bs" | "t_left _ = []"

fun c_left :: "command_pc \<Rightarrow> u8 list" where
  "c_left (C_Poll _ bs) = bs" | "c_left (C_Put _ b bs) = b # bs" | "c_left _ = []"

definition frames_bytes :: "(MessageType \<times> u8 list) list \<Rightarrow> u8 list" where
  "frames_bytes ms = concat (map (\<lambda>(ty, pl). message_frame ty pl) ms)"

lemma frames_bytes_append [simp]: "frames_bytes (xs @ ys) = frames_bytes xs @ frames_bytes ys"
  by (simp add: frames_bytes_def)

lemma frames_bytes_simps [simp]: "frames_bytes [] = []" "frames_bytes [(ty, pl)] = message_frame ty pl"
  by (simp_all add: frames_bytes_def)

definition t_bytes_inv :: "event list \<Rightarrow> ('k, 'h) node \<Rightarrow> bool" where
  "t_bytes_inv tr s \<longleftrightarrow>
     bytes_of_task Telemetry tr @ t_left (nd_telemetry s) = frames_bytes (messages_of Telemetry tr)"

definition c_bytes_inv :: "event list \<Rightarrow> ('k, 'h) node \<Rightarrow> bool" where
  "c_bytes_inv tr s \<longleftrightarrow>
     bytes_of_task Command tr @ c_left (nd_command s) = frames_bytes (messages_of Command tr)"

text \<open>The command task's messages: a HELLO and then heartbeats.\<close>

definition hello_inv :: "u8 list \<Rightarrow> event list \<Rightarrow> ('k, 'h) node \<Rightarrow> bool" where
  "hello_inv hello tr s \<longleftrightarrow>
     (if nd_command s = C_Hello then messages_of Command tr = [] \<and> hello_payload (nd_pipeline s) = hello
      else \<exists>beats. messages_of Command tr = (kHello, hello) # map (Pair kHeartbeat) beats)"

lemma t_bytes_inv_telemetry:
  "t_bytes_inv tr s \<Longrightarrow> telemetry_step RT B (nd_telemetry s) s = Some (es, s') \<Longrightarrow> t_bytes_inv (tr @ es) s'"
  by (cases "(RT, B, nd_telemetry s, s)" rule: telemetry_step.cases)
     (auto simp: t_bytes_inv_def Let_def split: option.splits if_splits prod.splits)

lemma c_bytes_inv_command:
  "c_bytes_inv tr s \<Longrightarrow> command_step RT B (nd_command s) s = Some (es, s') \<Longrightarrow> c_bytes_inv (tr @ es) s'"
  by (cases "(RT, B, nd_command s, s)" rule: command_step.cases)
     (auto simp: c_bytes_inv_def Let_def split: option.splits if_splits prod.splits sending.splits instruction.splits)

lemma hello_inv_command:
  assumes "hello_inv hello tr s" "command_step RT B (nd_command s) s = Some (es, s')"
  shows "hello_inv hello (tr @ es) s'"
proof -
  consider (hello) "nd_command s = C_Hello" | (beat) "nd_command s = C_Beat"
    | (other) "nd_command s \<noteq> C_Hello" "nd_command s \<noteq> C_Beat" by blast
  then show ?thesis
  proof cases
    case hello
    then show ?thesis using assms by (auto simp: hello_inv_def Let_def)
  next
    case beat
    then obtain beats where "messages_of Command tr = (kHello, hello) # map (Pair kHeartbeat) beats"
      using assms(1) by (auto simp: hello_inv_def)
    then have "messages_of Command (tr @ es) = (kHello, hello) # map (Pair kHeartbeat)
        (beats @ [heartbeat_payload (nd_pipeline s) (xTaskGetTickCount RT (nd_kernel s) * portTICK_PERIOD_MS RT)])"
      using beat assms(2) by (auto simp: Let_def)
    moreover have "nd_command s' \<noteq> C_Hello" using beat assms(2) by (auto simp: Let_def)
    ultimately show ?thesis unfolding hello_inv_def by meson
  next
    case other
    then have "messages_of Command es = [] \<and> nd_command s' \<noteq> C_Hello"
      using assms(2)
      by (cases "(RT, B, nd_command s, s)" rule: command_step.cases)
         (auto simp: Let_def split: option.splits if_splits prod.splits sending.splits instruction.splits)
    then show ?thesis using assms(1) other by (simp add: hello_inv_def)
  qed
qed

subsection \<open>Configuration\<close>

text \<open>The configuration is one value: rate, session and whether connected. An instruction replaces it as a
  whole; while the command task is inside its critical section only part of it has been stored.\<close>

type_synonym config = "u8 \<times> u16 \<times> bool"

fun obey :: "instruction \<Rightarrow> config \<Rightarrow> config" where
  "obey (Configure c) _ = (config_sample_rate_hz c, config_session_id c, True)"
| "obey (SlowDown c) (rate, session, connected) = (slow_down_new_rate_hz c, session, connected)"

definition config_of :: "Pipeline \<Rightarrow> config" where
  "config_of pl = (pl_sample_rate_hz pl, pl_session_id pl, pl_connected pl)"

definition config_inv :: "config \<Rightarrow> event list \<Rightarrow> ('k, 'h) node \<Rightarrow> bool" where
  "config_inv c0 tr s \<longleftrightarrow>
     (let c = fold obey (applied tr) c0 in
      config_of (nd_pipeline s) =
        (case nd_command s of
           C_SetSession _ p \<Rightarrow> (config_sample_rate_hz p, snd c)
         | C_SetConnected _ p \<Rightarrow> (config_sample_rate_hz p, config_session_id p, snd (snd c))
         | C_Release _ i \<Rightarrow> obey i c
         | _ \<Rightarrow> c))"

lemma config_inv_command:
  "config_inv c0 tr s \<Longrightarrow> command_step RT B (nd_command s) s = Some (es, s') \<Longrightarrow> config_inv c0 (tr @ es) s'"
  by (cases "fold obey (applied tr) c0", cases "(RT, B, nd_command s, s)" rule: command_step.cases)
     (auto simp: config_inv_def config_of_def Let_def
       split: option.splits if_splits prod.splits sending.splits instruction.splits)

text \<open>The instructions in force, and the one on its way, are those of the frames received, in order.\<close>

fun obeying :: "command_pc \<Rightarrow> instruction list" where
  "obeying (C_Guard _ c) = [c]" | "obeying (C_SetRate _ c) = [c]" | "obeying (C_SetSession _ p) = [Configure p]"
| "obeying (C_SetConnected _ p) = [Configure p]" | "obeying (C_Release _ c) = [c]" | "obeying _ = []"

definition input_inv :: "event list \<Rightarrow> ('k, 'h) node \<Rightarrow> bool" where
  "input_inv tr s \<longleftrightarrow>
     (let (rs, a) = arun kMaxPayloadSize (gots tr) Hunting in
      parser_ok kMaxPayloadSize (nd_parser s) \<and> abs_state (nd_parser s) = a \<and>
      applied tr @ obeying (nd_command s) = List.map_filter instruction_of (accepted rs))"

lemma input_inv_command:
  assumes inv: "input_inv tr s" and step: "command_step RT B (nd_command s) s = Some (es, s')"
  shows "input_inv (tr @ es) s'"
proof (cases "\<exists>l. nd_command s = C_Get l")
  case False
  then show ?thesis using inv step
    by (cases "(RT, B, nd_command s, s)" rule: command_step.cases)
       (auto simp: input_inv_def Let_def split: option.splits if_splits prod.splits sending.splits instruction.splits)
next
  case True
  then obtain l where l: "nd_command s = C_Get l" by blast
  obtain b h where b: "rx_get B (pl_uart (nd_pipeline s)) (nd_hw s) = (b, h)" by fastforce
  obtain f p where f: "push_byte kMaxPayloadSize b (nd_parser s) = (f, p)" by fastforce
  obtain rs a where rs: "arun kMaxPayloadSize (gots tr) Hunting = (rs, a)" by fastforce
  have ok: "parser_ok kMaxPayloadSize (nd_parser s)" and a: "abs_state (nd_parser s) = a"
    and app: "applied tr = List.map_filter instruction_of (accepted rs)"
    using inv l rs by (auto simp: input_inv_def)
  have es: "es = [Got b]" and s': "nd_parser s' = p"
    "nd_command s' = (case Option.bind f instruction_of of None \<Rightarrow> C_Try l | Some c \<Rightarrow> C_Guard l c)"
    using step l b f by auto
  obtain r a' where r: "astep kMaxPayloadSize b a = (r, a')" by fastforce
  have p: "abs_state p = a'" "outcome r (nd_parser s) f p" "parser_ok kMaxPayloadSize p"
    using push_byte_refines [OF ok, of b] push_byte_ok [OF ok, of b] f a r by simp_all
  have "f = (case r of Some (Inr g) \<Rightarrow> Some g | _ \<Rightarrow> None)"
    using p(2) by (auto simp: outcome_def split: option.splits sum.splits)
  then show ?thesis
    using rs r es s' p(1,3) app
    by (auto simp: input_inv_def arun_append map_filter_append map_filter_simps
        split: option.splits sum.splits bind_splits)
qed

end
