(* ===== verification/Node_Boot.thy ===== *)
theory Node_Boot
  imports Node_Steps Core_Cm3
begin

section \<open>Start-up, faults and main (node/startup_gcc.cpp, node/hooks.cpp, node/semihosting.hpp, node/main.cpp)\<close>

text \<open>
  What runs before the scheduler and what runs when something has gone wrong. Text printed through the
  debugger is a list of strings. A function that ends in an endless loop yields what it has left behind
  when it gets there.
\<close>

subsection \<open>Semihosting\<close>

type_synonym console = "string list"

definition write_line :: "string \<Rightarrow> console \<Rightarrow> console" where
  "write_line message c = c @ [message]"

subsection \<open>The vector table\<close>

datatype vector = Estack | Handler string | Zero

definition isr_vector :: "vector list" where
  "isr_vector = [
     Estack,
     Handler ''Reset_Handler'',
     Handler ''Default_Handler'',
     Handler ''HardFault_Handler'',
     Handler ''Default_Handler'',
     Handler ''Default_Handler'',
     Handler ''Default_Handler'',
     Zero, Zero, Zero, Zero,
     Handler ''vPortSVCHandler'',
     Handler ''Default_Handler'',
     Zero,
     Handler ''xPortPendSVHandler'',
     Handler ''xPortSysTickHandler'',
     Zero, Zero, Zero, Zero, Zero, Zero, Zero, Zero,
     Handler ''Default_Handler'',
     Handler ''Default_Handler'',
     Zero, Zero, Zero,
     Zero]"

subsection \<open>Fault handlers\<close>

record fault_registers =
  f_r0 :: u32
  f_r1 :: u32
  f_r2 :: u32
  f_r3 :: u32
  f_r12 :: u32
  f_lr :: u32
  f_pc :: u32
  f_psr :: u32

text \<open>The words on the stack are read at byte addresses 4 apart.\<close>

definition prvGetRegistersFromStack :: "(u32 \<Rightarrow> u32) \<Rightarrow> u32 \<Rightarrow> console \<Rightarrow> fault_registers \<times> console" where
  "prvGetRegistersFromStack memory a c =
     (\<lparr>f_r0 = memory a, f_r1 = memory (a + 4), f_r2 = memory (a + 8), f_r3 = memory (a + 12),
       f_r12 = memory (a + 16), f_lr = memory (a + 20), f_pc = memory (a + 24), f_psr = memory (a + 28)\<rparr>,
      write_line (''HardFault -- inspect r0..psr in the debugger'' @ [CHR 0x0A]) c)"

text \<open>Bit 2 of the exception return value says which stack the fault interrupted.\<close>

definition HardFault_Handler :: "(u32 \<Rightarrow> u32) \<Rightarrow> u32 \<Rightarrow> u32 \<Rightarrow> u32 \<Rightarrow> console \<Rightarrow> fault_registers \<times> console" where
  "HardFault_Handler memory lr msp psp c =
     prvGetRegistersFromStack memory (if lr AND 4 = 0 then msp else psp) c"

text \<open>The default handler spins with the low byte of the word at 0xe000ed04 in r2.\<close>

definition Default_Handler :: "(u32 \<Rightarrow> u32) \<Rightarrow> u32" where
  "Default_Handler memory = memory 0xE000ED04 AND 0xFF"

subsection \<open>Hooks\<close>

text \<open>The two static buffers of the idle task, the stack as the number of its words, and the size reported.\<close>

record idle_memory =
  idle_task_tcb_buffer :: string
  idle_task_stack_buffer :: "string \<times> nat"
  idle_task_stack_size :: nat

definition vApplicationGetIdleTaskMemory :: idle_memory where
  "vApplicationGetIdleTaskMemory =
     \<lparr>idle_task_tcb_buffer = ''idle_task_tcb'',
      idle_task_stack_buffer = (''idle_task_stack'', configMINIMAL_STACK_SIZE),
      idle_task_stack_size = configMINIMAL_STACK_SIZE\<rparr>"

definition vApplicationStackOverflowHook :: "string \<Rightarrow> console \<Rightarrow> console" where
  "vApplicationStackOverflowHook task_name c = write_line task_name (write_line ''STACK OVERFLOW in task: '' c)"

definition vAssertCalled :: "string \<Rightarrow> nat \<Rightarrow> console \<Rightarrow> console" where
  "vAssertCalled file_name line c = write_line file_name (write_line ''ASSERT FAILED in: '' c)"

subsection \<open>main\<close>

definition kStackWords :: nat where "kStackWords = configMINIMAL_STACK_SIZE * 2"

definition sizeof_Reading :: nat where "sizeof_Reading = 8"

text \<open>The constructor of \<open>Pipeline\<close>: the members in their order.\<close>

definition Pipeline_new :: "'k rtos \<Rightarrow> 'k \<Rightarrow> Pipeline \<times> 'k" where
  "Pipeline_new RT k =
     (let (m, k) = Mutex_new RT k; (q, k) = Queue_new RT kQueueCapacity sizeof_Reading k in
      (\<lparr>pl_sample_rate_hz = 2, pl_session_id = 0, pl_connected = False, pl_config_mutex = m,
        pl_reading_queue = q, pl_uart = 0\<rparr>, k))"

text \<open>The priorities the tasks are created with; FreeRTOS takes the greater number as the more urgent.\<close>

fun task_priority :: "task \<Rightarrow> nat" where
  "task_priority Sensor = 3"
| "task_priority Command = 2"
| "task_priority Telemetry = 1"

text \<open>Up to the call of the scheduler, which runs the three tasks from their entry points.\<close>

definition node_main :: "'k rtos \<Rightarrow> 'h bus \<Rightarrow> 'k \<Rightarrow> 'h \<Rightarrow> console \<Rightarrow> console \<times> ('k, 'h) node" where
  "node_main RT B k h c =
     (let c = write_line (''SensorLink node booting'' @ [CHR 0x0A]) c;
          h = UartCmsdk B CMSDK_UART0_BASE configCPU_CLOCK_HZ 115200 h;
          (pipeline, k) = Pipeline_new RT k;
          pipeline = pipeline\<lparr>pl_uart := CMSDK_UART0_BASE\<rparr>;
          k = snd (Task_new RT kStackWords ''sensor'' (task_priority Sensor) Sensor k);
          k = snd (Task_new RT kStackWords ''command'' (task_priority Command) Command k);
          k = snd (Task_new RT kStackWords ''telemetry'' (task_priority Telemetry) Telemetry k)
      in (c, \<lparr>nd_kernel = k, nd_hw = h, nd_pipeline = pipeline,
              nd_parser = new_frame_parser kMaxPayloadSize,
              nd_sensor = S_Guard 0, nd_telemetry = T_Receive, nd_command = C_Hello\<rparr>))"

lemma node_main_booted:
  assumes "rtos_ok RT V"
  shows "\<exists>k' m q. snd (node_main RT B k h c) =
       booted k' (UartCmsdk B CMSDK_UART0_BASE configCPU_CLOCK_HZ 115200 h) m q CMSDK_UART0_BASE \<and>
     created V k' m q"
proof -
  obtain m k1 where m: "Mutex_new RT k = (m, k1)" by fastforce
  obtain q k2 where q: "Queue_new RT kQueueCapacity sizeof_Reading k1 = (q, k2)" by fastforce
  let ?k3 = "snd (Task_new RT kStackWords ''sensor'' (task_priority Sensor) Sensor k2)"
  let ?k4 = "snd (Task_new RT kStackWords ''command'' (task_priority Command) Command ?k3)"
  let ?k5 = "snd (Task_new RT kStackWords ''telemetry'' (task_priority Telemetry) Telemetry ?k4)"
  have "unobserved V k2 ?k5"
    using Task_new_ok [OF assms, of k2] Task_new_ok [OF assms, of ?k3] Task_new_ok [OF assms, of ?k4]
    by (simp add: unobserved_def)
  then have "created V ?k5 m q"
    using Mutex_new_ok [OF assms m, of q] Queue_new_ok [OF assms q, of m]
    by (simp add: created_def unobserved_def)
  then show ?thesis
    using m q by (intro exI [of _ ?k5] exI [of _ m] exI [of _ q])
      (simp add: node_main_def Pipeline_new_def booted_def Let_def)
qed

subsection \<open>Properties\<close>

text \<open>The entry the processor fetches for an interrupt number.\<close>

definition entry_of :: "int \<Rightarrow> vector option" where
  "entry_of irqn = (if nat (irqn + 16) < length isr_vector then Some (isr_vector ! nat (irqn + 16)) else None)"

definition interrupts_with :: "vector option \<Rightarrow> string list" where
  "interrupts_with v = map fst (filter (\<lambda>(x, n). entry_of n = v) IRQn_Type)"

text \<open>The vector table against the device's interrupt numbers. The exceptions that FreeRTOS drives
  reach its handlers, the hard fault reaches its own, the other processor exceptions and the two timers
  reach the default handler; twelve device interrupts have a zero entry and the last eighteen lie beyond
  the end of the table, so none of these may be enabled. The default handler reads the word of the system
  control block that holds the number of the active exception.\<close>

theorem vector_table_wired:
  "entry_of (-15) = Some (Handler ''Reset_Handler'') \<and>
   interrupts_with (Some (Handler ''vPortSVCHandler'')) = [''SVCall_IRQn''] \<and>
   interrupts_with (Some (Handler ''xPortPendSVHandler'')) = [''PendSV_IRQn''] \<and>
   interrupts_with (Some (Handler ''xPortSysTickHandler'')) = [''SysTick_IRQn''] \<and>
   interrupts_with (Some (Handler ''HardFault_Handler'')) = [''HardFault_IRQn''] \<and>
   interrupts_with (Some (Handler ''Default_Handler'')) =
     [''NonMaskableInt_IRQn'', ''MemoryManagement_IRQn'', ''BusFault_IRQn'', ''UsageFault_IRQn'',
      ''DebugMonitor_IRQn'', ''TIMER0_IRQn'', ''TIMER1_IRQn''] \<and>
   length (interrupts_with (Some Zero)) = 12 \<and>
   length (interrupts_with None) = 18 \<and>
   map_option ((+) SCB_BASE) (offset_of SCB_Type ''ICSR'') = Some 0xE000ED04"
  by (intro conjI; code_simp)

end
