(* ===== verification/Node_Runs.thy ===== *)
theory Node_Runs
  imports Node_Boot
begin

section \<open>What holds of every run of the node\<close>

text \<open>
  The invariants of the tasks put together, the runs in which the two writing tasks do not overlap, an
  executable schedule for concrete runs, and the properties of the node.
\<close>

subsection \<open>All invariants\<close>

definition node_inv :: "'k rtos_view \<Rightarrow> u8 list \<Rightarrow> config \<Rightarrow> event list \<Rightarrow> ('k, 'h) node \<Rightarrow> bool" where
  "node_inv V hello c0 tr s \<longleftrightarrow>
     mutex_inv V s \<and> readings_inv V tr s \<and> values_inv tr s \<and> samples_inv tr s \<and> t_bytes_inv tr s \<and>
     c_bytes_inv tr s \<and> hello_inv hello tr s \<and> config_inv c0 tr s \<and> input_inv tr s"

lemma node_inv_sensor:
  assumes "rtos_ok RT V" "node_inv V hello c0 tr s" and st: "sensor_step RT (nd_sensor s) s = Some (es, s')"
  shows "node_inv V hello c0 (tr @ es) s'"
  using assms(2) mutex_inv_sensor [OF assms(1) _ st] readings_inv_sensor [OF assms(1) _ _ st] values_inv_sensor [OF _ st]
  by (simp add: node_inv_def samples_inv_def t_bytes_inv_def c_bytes_inv_def hello_inv_def config_inv_def
      input_inv_def sensor_frame [OF st])

lemma node_inv_telemetry:
  assumes "rtos_ok RT V" "node_inv V hello c0 tr s" and st: "telemetry_step RT B (nd_telemetry s) s = Some (es, s')"
  shows "node_inv V hello c0 (tr @ es) s'"
  using assms(2) mutex_inv_telemetry [OF assms(1) _ st] readings_inv_telemetry [OF assms(1) _ _ st]
    samples_inv_telemetry [OF _ st] t_bytes_inv_telemetry [OF _ st]
  by (simp add: node_inv_def values_inv_def c_bytes_inv_def hello_inv_def config_inv_def
      input_inv_def telemetry_frame [OF st])

lemma node_inv_command:
  assumes "rtos_ok RT V" "node_inv V hello c0 tr s" and st: "command_step RT B (nd_command s) s = Some (es, s')"
  shows "node_inv V hello c0 (tr @ es) s'"
  using assms(2) mutex_inv_command [OF assms(1) _ st] readings_inv_command [OF assms(1) _ _ st]
    c_bytes_inv_command [OF _ st] hello_inv_command [OF _ st] config_inv_command [OF _ st] input_inv_command [OF _ st]
  by (simp add: node_inv_def values_inv_def samples_inv_def t_bytes_inv_def command_frame [OF st])

lemmas node_inv_defs = node_inv_def mutex_inv_iff all_task readings_inv_def values_inv_def samples_inv_def
  t_bytes_inv_def c_bytes_inv_def hello_inv_def config_inv_def input_inv_def

lemma node_inv_step:
  assumes "rtos_ok RT V" "node_inv V hello c0 tr s" "node_step RT B hw s es s'"
  shows "node_inv V hello c0 (tr @ es) s'"
  using assms(3)
proof cases
  case sensor
  then show ?thesis by (rule node_inv_sensor [OF assms(1,2)])
next
  case telemetry
  then show ?thesis by (rule node_inv_telemetry [OF assms(1,2)])
next
  case command
  then show ?thesis by (rule node_inv_command [OF assms(1,2)])
next
  case tick
  then show ?thesis using assms(1,2) by (simp add: node_inv_defs)
next
  case wire
  then show ?thesis using assms(2) by (simp add: node_inv_defs)
qed

lemma new_parser_hunting: "abs_state (new_frame_parser mp) = Hunting"
  by (simp add: abs_state_def new_frame_parser_def)

lemma node_inv_booted:
  "created V k m q \<Longrightarrow> node_inv V (hello_payload (nd_pipeline (booted k h m q u))) (2, 0, False) [] (booted k h m q u)"
  by (auto simp: node_inv_defs created_def booted_def Let_def config_of_def new_parser_ok
      new_parser_hunting map_filter_simps)

lemma node_run_inv:
  assumes "rtos_ok RT V" "created V k m q" "node_run RT B hw (booted k h m q u) tr s"
  shows "node_inv V (hello_payload (nd_pipeline (booted k h m q u))) (2, 0, False) tr s"
  using assms(3) by induction (auto intro: node_inv_booted [OF assms(2)] node_inv_step [OF assms(1)])

lemma node_run_handles:
  "node_run RT B hw (booted k h m q u) tr s \<Longrightarrow>
   pl_config_mutex (nd_pipeline s) = m \<and> pl_reading_queue (nd_pipeline s) = q \<and> pl_uart (nd_pipeline s) = u"
proof (induction rule: node_run.induct)
  case start
  then show ?case by (simp add: booted_def)
next
  case (more tr s es s')
  from more.hyps(2) show ?case
  proof cases
    case sensor
    then show ?thesis using more.IH by (simp add: sensor_frame)
  next
    case telemetry
    then show ?thesis using more.IH by (simp add: telemetry_frame)
  next
    case command
    then show ?thesis using more.IH by (simp add: command_frame)
  qed (use more.IH in simp_all)
qed

subsection \<open>Runs without overlapping writes\<close>

definition both_writing :: "('k, 'h) node \<Rightarrow> bool" where
  "both_writing s \<longleftrightarrow> t_left (nd_telemetry s) \<noteq> [] \<and> c_left (nd_command s) \<noteq> []"

inductive exclusive_run ::
  "'k rtos \<Rightarrow> 'h bus \<Rightarrow> ('h \<Rightarrow> 'h \<Rightarrow> bool) \<Rightarrow> ('k, 'h) node \<Rightarrow> event list \<Rightarrow> ('k, 'h) node \<Rightarrow> bool"
  for RT :: "'k rtos" and B :: "'h bus" and hw :: "'h \<Rightarrow> 'h \<Rightarrow> bool" and s0 :: "('k, 'h) node" where
  ex_start: "exclusive_run RT B hw s0 [] s0"
| ex_more: "exclusive_run RT B hw s0 tr s \<Longrightarrow> node_step RT B hw s es s' \<Longrightarrow> \<not> both_writing s' \<Longrightarrow>
    exclusive_run RT B hw s0 (tr @ es) s'"

lemma exclusive_is_run: "exclusive_run RT B hw s0 tr s \<Longrightarrow> node_run RT B hw s0 tr s"
  by (induction rule: exclusive_run.induct) (auto intro: node_run.intros)

definition all_messages :: "event list \<Rightarrow> (MessageType \<times> u8 list) list" where
  "all_messages tr = List.map_filter (\<lambda>e. case e of Sends t ty pl \<Rightarrow> Some (ty, pl) | _ \<Rightarrow> None) tr"

lemma all_messages_simps [simp]:
  "all_messages [] = []" "all_messages (xs @ ys) = all_messages xs @ all_messages ys"
  "all_messages [e] = (case e of Sends t ty pl \<Rightarrow> [(ty, pl)] | _ \<Rightarrow> [])"
  by (simp_all add: all_messages_def map_filter_append map_filter_simps split: event.split)

text \<open>What the hardware may do by itself: receive, and finish transmitting.\<close>

definition idle_ok :: "'h uart_view \<Rightarrow> ('h \<Rightarrow> 'h \<Rightarrow> bool) \<Rightarrow> bool" where
  "idle_ok U hw \<longleftrightarrow> (\<forall>h h'. hw h h' \<longrightarrow> sent U h' = sent U h \<and> busy U h' \<le> busy U h)"

fun t_putting :: "telemetry_pc \<Rightarrow> bool" where
  "t_putting (T_Put _ _) = True" | "t_putting _ = False"

fun c_putting :: "command_pc \<Rightarrow> bool" where
  "c_putting (C_Put _ _ _) = True" | "c_putting _ = False"

definition wire_inv :: "'h uart_view \<Rightarrow> u8 list \<Rightarrow> event list \<Rightarrow> ('k, 'h) node \<Rightarrow> bool" where
  "wire_inv U sent0 tr s \<longleftrightarrow>
     sent U (nd_hw s) = sent0 @ puts tr \<and>
     puts tr @ t_left (nd_telemetry s) @ c_left (nd_command s) = frames_bytes (all_messages tr) \<and>
     (t_putting (nd_telemetry s) \<or> c_putting (nd_command s) \<longrightarrow> busy U (nd_hw s) = 0)"

lemma t_putting_left: "t_putting pc \<Longrightarrow> t_left pc \<noteq> []"
  by (cases pc) auto

lemma c_putting_left: "c_putting pc \<Longrightarrow> c_left pc \<noteq> []"
  by (cases pc) auto

lemma wire_inv_sensor:
  assumes "wire_inv U sent0 tr s" and st: "sensor_step RT (nd_sensor s) s = Some (es, s')"
  shows "wire_inv U sent0 (tr @ es) s'"
proof -
  have "all_messages es = []"
    using st by (cases "nd_sensor s") (auto simp: Let_def split: option.splits if_splits)
  then show ?thesis using assms(1) by (simp add: wire_inv_def sensor_frame [OF st])
qed

lemma wire_inv_telemetry:
  assumes uart: "uart_ok B (pl_uart (nd_pipeline s)) U" and "wire_inv U sent0 tr s"
    and "\<not> both_writing s" "\<not> both_writing s'"
    and st: "telemetry_step RT B (nd_telemetry s) s = Some (es, s')"
  shows "wire_inv U sent0 (tr @ es) s'"
  using assms(2-5)
  by (cases "(RT, B, nd_telemetry s, s)" rule: telemetry_step.cases)
     (auto simp: wire_inv_def both_writing_def Let_def tx_put_ok [OF uart]
       split: option.splits if_splits prod.splits dest: tx_full_ok [OF uart] c_putting_left)

lemma wire_inv_command:
  assumes uart: "uart_ok B (pl_uart (nd_pipeline s)) U" and "wire_inv U sent0 tr s"
    and "\<not> both_writing s" "\<not> both_writing s'"
    and st: "command_step RT B (nd_command s) s = Some (es, s')"
  shows "wire_inv U sent0 (tr @ es) s'"
  using assms(2-5)
  by (cases "(RT, B, nd_command s, s)" rule: command_step.cases)
     (auto simp: wire_inv_def both_writing_def Let_def tx_put_ok [OF uart]
       split: option.splits if_splits prod.splits sending.splits instruction.splits
       dest: tx_full_ok [OF uart] rx_ready_ok [OF uart] rx_get_ok [OF uart] t_putting_left)

lemma exclusive_run_uart:
  "exclusive_run RT B hw (booted k h m q u) tr s \<Longrightarrow> pl_uart (nd_pipeline s) = u"
  by (drule exclusive_is_run, drule node_run_handles) simp

lemma exclusive_wire_inv:
  assumes uart: "uart_ok B u U" and idle: "idle_ok U hw"
    and run: "exclusive_run RT B hw (booted k h m q u) tr s"
  shows "wire_inv U (sent U h) tr s \<and> \<not> both_writing s"
  using run
proof (induction rule: exclusive_run.induct)
  case ex_start
  then show ?case by (simp add: wire_inv_def booted_def both_writing_def)
next
  case (ex_more tr s es s')
  note u = exclusive_run_uart [OF ex_more.hyps(1)]
  from ex_more.hyps(2) have "wire_inv U (sent U h) (tr @ es) s'"
  proof cases
    case sensor
    then show ?thesis using ex_more.IH wire_inv_sensor by blast
  next
    case telemetry
    then show ?thesis using ex_more.IH ex_more.hyps(3) wire_inv_telemetry uart u by blast
  next
    case command
    then show ?thesis using ex_more.IH ex_more.hyps(3) wire_inv_command uart u by blast
  next
    case tick
    then show ?thesis using ex_more.IH by (simp add: wire_inv_def)
  next
    case (wire h')
    have "sent U h' = sent U (nd_hw s)" "busy U h' \<le> busy U (nd_hw s)"
      using idle wire(3) by (simp_all add: idle_ok_def)
    then show ?thesis using ex_more.IH wire by (auto simp: wire_inv_def)
  qed
  then show ?case using ex_more.hyps(3) by simp
qed

subsection \<open>Frames\<close>

lemma message_frame_wire: "length pl \<le> 255 \<Longrightarrow> message_frame ty pl = wire_frame ty pl"
  by (simp add: message_frame_def encoded_frame_wire)

lemma payload_lengths [simp]:
  "length (hello_payload pl) = 8" "length (heartbeat_payload pl n) = 6" "length (sample_payload sid rd) = 11"
  by (simp_all add: hello_payload_def heartbeat_payload_def sample_payload_def hello_bytes_def
      heartbeat_bytes_def sample_bytes_def)

subsection \<open>Schedules\<close>

datatype actor = Run task | Tick

fun act :: "'k rtos \<Rightarrow> 'h bus \<Rightarrow> actor \<Rightarrow> ('k, 'h) node \<Rightarrow> (event list \<times> ('k, 'h) node) option" where
  "act RT B (Run Sensor) s = sensor_step RT (nd_sensor s) s"
| "act RT B (Run Telemetry) s = telemetry_step RT B (nd_telemetry s) s"
| "act RT B (Run Command) s = command_step RT B (nd_command s) s"
| "act RT B Tick s = Some ([], s\<lparr>nd_kernel := tick_interrupt RT (nd_kernel s)\<rparr>)"

fun schedule :: "'k rtos \<Rightarrow> 'h bus \<Rightarrow> actor list \<Rightarrow> ('k, 'h) node \<Rightarrow> (event list \<times> ('k, 'h) node) option" where
  "schedule RT B [] s = Some ([], s)"
| "schedule RT B (a # as) s =
     (case act RT B a s of
        None \<Rightarrow> None
      | Some (es, s) \<Rightarrow> map_option (apfst ((@) es)) (schedule RT B as s))"

lemma act_step: "act RT B a s = Some (es, s') \<Longrightarrow> node_step RT B hw s es s'"
  by (cases "(RT, B, a, s)" rule: act.cases) (auto intro: node_step.intros)

lemma schedule_run:
  "schedule RT B as s = Some (tr, s') \<Longrightarrow> node_run RT B hw s0 tr0 s \<Longrightarrow> node_run RT B hw s0 (tr0 @ tr) s'"
proof (induction as arbitrary: s tr tr0)
  case (Cons a as)
  then obtain es s1 tr1 where "act RT B a s = Some (es, s1)" "schedule RT B as s1 = Some (tr1, s')" "tr = es @ tr1"
    by (auto split: option.splits)
  then show ?case
    using Cons.IH [of s1 tr1 "tr0 @ es"] Cons.prems(2) node_run.more act_step by (metis append.assoc)
qed simp

text \<open>The same, giving up where both tasks have something left to write.\<close>

fun exclusive_schedule ::
  "'k rtos \<Rightarrow> 'h bus \<Rightarrow> actor list \<Rightarrow> ('k, 'h) node \<Rightarrow> (event list \<times> ('k, 'h) node) option" where
  "exclusive_schedule RT B [] s = Some ([], s)"
| "exclusive_schedule RT B (a # as) s =
     (case act RT B a s of
        None \<Rightarrow> None
      | Some (es, s) \<Rightarrow> if both_writing s then None else map_option (apfst ((@) es)) (exclusive_schedule RT B as s))"

lemma exclusive_schedule_run:
  "exclusive_schedule RT B as s = Some (tr, s') \<Longrightarrow> exclusive_run RT B hw s0 tr0 s \<Longrightarrow>
   exclusive_run RT B hw s0 (tr0 @ tr) s'"
proof (induction as arbitrary: s tr tr0)
  case (Cons a as)
  then obtain es s1 tr1 where "act RT B a s = Some (es, s1)" "exclusive_schedule RT B as s1 = Some (tr1, s')"
    "tr = es @ tr1" "\<not> both_writing s1"
    by (auto split: option.splits if_splits)
  then show ?case
    using Cons.IH [of s1 tr1 "tr0 @ es"] Cons.prems(2) exclusive_run.ex_more act_step by (metis append.assoc)
qed simp

lemma message_frame_Cons: "length pl \<le> 255 \<Longrightarrow> \<exists>b bs. message_frame ty pl = b # bs"
  by (cases "wire_frame ty pl") (simp_all add: message_frame_wire wire_frame_def)

subsection \<open>Timing\<close>

lemma FakeReadingMilli_eq:
  "FakeReadingMilli i =
     (let p = int (unat i mod 20) in 1000 + 600 * (if p \<le> 10 then p else 20 - p))"
proof -
  have "uint (i mod 20) = int (unat i mod 20)" by (simp add: uint_mod zmod_int)
  then show ?thesis by (simp add: FakeReadingMilli_def Let_def)
qed

lemma heartbeat_elapsed:
  assumes "beat \<le> now" "now - beat < 2 ^ 32"
  shows "unat (of_nat now - of_nat beat :: u32) = now - beat"
proof -
  have "of_nat now - of_nat beat = (of_nat (now - beat) :: u32)" using assms(1) by (simp add: of_nat_diff)
  then show ?thesis using assms(2) by (simp add: unat_of_nat take_bit_nat_eq_self)
qed

lemma sample_period_ms_eq: "unat (sample_period_ms r) = 1000 div (if r = 0 then 1 else unat r)"
proof -
  have "(1000 :: nat) div n < 2 ^ 32" for n by (rule le_less_trans [OF div_le_dividend]) simp
  then show ?thesis by (simp add: sample_period_ms_def safe_rate_def unat_of_nat take_bit_nat_eq_self)
qed

subsection \<open>A concrete node\<close>

text \<open>The program on the concrete kernel and the concrete UART.\<close>

definition sim_uart0 :: sim_uart where
  "sim_uart0 = \<lparr>su_sent = [], su_input = [], su_busy = 0\<rparr>"

definition sim_node :: "(sim_kernel, sim_uart) node" where
  "sim_node = snd (node_main sim_rtos (sim_bus CMSDK_UART0_BASE 2) sim_kernel0 sim_uart0 [])"

lemmas sim_defs = sim_rtos_def sim_bus_def sim_read_def sim_write_def sim_kernel0_def sim_uart0_def
  Guard_def Guard_release_def Queue_send_def Queue_receive_def tx_full_def tx_put_def rx_ready_def rx_get_def
  TXBF_Msk_def RXBF_Msk_def FakeReadingMilli_eq kQueueCapacity_def Let_def

lemma sim_node_eq:
  "sim_node = booted (sim_kernel0\<lparr>sk_length := 8\<rparr>) sim_uart0 1 0 CMSDK_UART0_BASE"
  by (simp add: sim_node_def node_main_def Pipeline_new_def Mutex_new_def Queue_new_def Task_new_def UartCmsdk_def
      booted_def sim_defs fun_upd_idem)

subsection \<open>Message lengths\<close>

lemma step_messages_short:
  assumes "node_step RT B hw s es s'" "(ty, pl) \<in> set (all_messages es)"
  shows "length pl \<le> 11"
  using assms(1)
proof cases
  case sensor
  then show ?thesis using assms(2) by (cases "nd_sensor s") (auto simp: Let_def split: option.splits if_splits)
next
  case telemetry
  then show ?thesis using assms(2)
    by (cases "(RT, B, nd_telemetry s, s)" rule: telemetry_step.cases)
       (auto simp: Let_def split: option.splits if_splits prod.splits)
next
  case command
  then show ?thesis using assms(2)
    by (cases "(RT, B, nd_command s, s)" rule: command_step.cases)
       (auto simp: Let_def split: option.splits if_splits prod.splits sending.splits instruction.splits)
qed (use assms(2) in auto)

lemma run_messages_short:
  "node_run RT B hw s0 tr s \<Longrightarrow> (ty, pl) \<in> set (all_messages tr) \<Longrightarrow> length pl \<le> 11"
  by (induction rule: node_run.induct) (auto dest: step_messages_short)

lemma frames_bytes_wire:
  "\<forall>(ty, pl) \<in> set ms. length pl \<le> 255 \<Longrightarrow> frames_bytes ms = concat (map (\<lambda>(ty, pl). wire_frame ty pl) ms)"
  by (induction ms) (auto simp: frames_bytes_def message_frame_wire)

lemma main_run_inv:
  assumes "rtos_ok RT V" "node_run RT B hw (snd (node_main RT B k h c)) tr s"
  shows "node_inv V (hello_payload (nd_pipeline (snd (node_main RT B k h c)))) (2, 0, False) tr s"
  using node_main_booted [OF assms(1), of B k h c] assms(2) by (auto intro: node_run_inv [OF assms(1)])

subsection \<open>Properties\<close>

text \<open>C11: every reading reaches the wire, once and in order. In every run of the node, whatever the
  interleaving, the readings taken are those already framed, then the one the telemetry task has in hand,
  then those in the queue (never more than eight), then the one being queued; their values are the sensor's
  from the first sample on; and what the telemetry task has stored to the UART, with what it still has to
  store of the current frame, is exactly the SAMPLE frames of the framed readings.\<close>

theorem readings_in_order:
  assumes "rtos_ok RT V" and "node_run RT B hw (snd (node_main RT B k h c)) tr s"
  shows "\<exists>prs. (let items = q_items V (pl_reading_queue (nd_pipeline s)) (nd_kernel s) in
       sampled tr = map snd prs @ in_hand (nd_telemetry s) @ items @ queueing (nd_sensor s) \<and>
       length items \<le> kQueueCapacity \<and>
       map value_milli (sampled tr) = map (\<lambda>n. FakeReadingMilli (of_nat n)) [0..<length (sampled tr)] \<and>
       bytes_of_task Telemetry tr @ t_left (nd_telemetry s) =
         concat (map (\<lambda>(sid, rd). wire_frame kSample (sample_payload sid rd)) prs))"
proof -
  note inv = main_run_inv [OF assms]
  obtain prs where prs: "received tr = map snd prs @ in_hand (nd_telemetry s)"
    "messages_of Telemetry tr = map (\<lambda>(sid, rd). (kSample, sample_payload sid rd)) prs"
    using inv by (auto simp: node_inv_def samples_inv_def)
  have "frames_bytes (messages_of Telemetry tr) =
      concat (map (\<lambda>(sid, rd). wire_frame kSample (sample_payload sid rd)) prs)"
    unfolding prs(2) by (induction prs) (auto simp: frames_bytes_def message_frame_wire)
  then show ?thesis
    using inv prs(1) unfolding node_inv_def readings_inv_def values_inv_def t_bytes_inv_def Let_def
    by (intro exI [of _ prs] conjI; elim conjE) (assumption | simp)+
qed

theorem readings_in_order_witness:
  "\<exists>tr s (prs :: (u16 \<times> Reading) list).
     node_run sim_rtos (sim_bus CMSDK_UART0_BASE 2) (=) sim_node tr s \<and>
     sampled tr = [\<lparr>value_milli = 1000, timestamp_ms = 0\<rparr>] \<and>
     sampled tr = map snd prs @ in_hand (nd_telemetry s) @ sk_items (nd_kernel s) @ queueing (nd_sensor s)"
proof -
  obtain tr s where sch: "schedule sim_rtos (sim_bus CMSDK_UART0_BASE 2) 
      [Run Sensor, Run Sensor, Run Sensor, Run Sensor, Run Sensor] sim_node = Some (tr, s)"
    and tr: "tr = [Sampled \<lparr>value_milli = 1000, timestamp_ms = 0\<rparr>]" "pl_reading_queue (nd_pipeline s) = 0"
    by (simp add: sim_node_eq booted_def sim_defs)
  have run: "node_run sim_rtos (sim_bus CMSDK_UART0_BASE 2) (=) sim_node tr s"
    using schedule_run [OF sch node_run.start] by simp
  have q: "q_items sim_rtos_view (pl_reading_queue (nd_pipeline s)) (nd_kernel s) = sk_items (nd_kernel s)"
    using tr(2) by (simp add: sim_rtos_view_def)
  obtain prs :: "(u16 \<times> Reading) list" where "sampled tr = map snd prs @ in_hand (nd_telemetry s) @ sk_items (nd_kernel s) @ queueing (nd_sensor s)"
    using readings_in_order [OF sim_rtos_ok run [unfolded sim_node_def]] unfolding Let_def q by blast
  then show ?thesis using run tr(1) by (intro exI [of _ tr] exI [of _ s] exI [of _ prs]) simp
qed

text \<open>C12: the configuration changes as a whole. In every run at most one task is inside its critical
  section; whenever the command task is not, the configuration is the result of the instructions applied so
  far, each replacing rate, session and connection together; and the instructions applied, with the one
  under way, are exactly those of the CONFIG and SLOW_DOWN frames in the bytes received, in order.\<close>

theorem config_atomic:
  assumes "rtos_ok RT V" and "node_run RT B hw (snd (node_main RT B k h c)) tr s"
  shows "(\<forall>t \<in> in_section s. \<forall>t' \<in> in_section s. t = t') \<and>
     (Command \<notin> in_section s \<longrightarrow> config_of (nd_pipeline s) = fold obey (applied tr) (2, 0, False)) \<and>
     applied tr @ obeying (nd_command s) =
       List.map_filter instruction_of (accepted (fst (arun kMaxPayloadSize (gots tr) Hunting)))"
proof -
  have inv: "mutex_inv V s" "config_inv (2, 0, False) tr s" "input_inv tr s"
    using main_run_inv [OF assms] by (simp_all add: node_inv_def)
  have "\<forall>t \<in> in_section s. \<forall>t' \<in> in_section s. t = t'"
    using inv(1) by (auto simp: mutex_inv_def elem_set)
  moreover have "Command \<notin> in_section s \<longrightarrow> config_of (nd_pipeline s) = fold obey (applied tr) (2, 0, False)"
    using inv(2) by (cases "nd_command s") (simp_all add: in_section_def config_inv_def Let_def)
  ultimately show ?thesis using inv(3) by (auto simp: input_inv_def split: prod.splits)
qed

theorem config_atomic_witness:
  "\<exists>tr s. node_run sim_rtos (sim_bus CMSDK_UART0_BASE 2) (=) sim_node tr s \<and>
     in_section s = {Sensor} \<and> config_of (nd_pipeline s) = (2, 0, False)"
proof -
  obtain tr s where sch: "schedule sim_rtos (sim_bus CMSDK_UART0_BASE 2) [Run Sensor] sim_node = Some (tr, s)"
    and tr: "tr = []" "nd_sensor s = S_Load 0" "nd_command s = C_Hello"
    by (simp add: sim_node_eq booted_def sim_defs)
  have run: "node_run sim_rtos (sim_bus CMSDK_UART0_BASE 2) (=) sim_node tr s"
    using schedule_run [OF sch node_run.start] by simp
  have "Sensor \<in> in_section s" "Command \<notin> in_section s" using tr by (simp_all add: in_section_def)
  then show ?thesis
    using config_atomic [OF sim_rtos_ok run [unfolded sim_node_def]] run tr(1) by fastforce
qed

text \<open>C13: as long as the telemetry and the command task do not write at the same time, the server can read
  everything. In a run in which the two never both have bytes of a message left to store, the UART has
  transmitted the frames of the messages sent, one after the other, up to the part of the last one still to
  be stored; and when none is left a parser fed with these bytes delivers exactly these messages.\<close>

theorem exclusive_wire_decodes:
  assumes "rtos_ok RT V" and "uart_ok B CMSDK_UART0_BASE U" and "idle_ok U hw"
    and "exclusive_run RT B hw (snd (node_main RT B k h c)) tr s"
  shows "sent U (nd_hw s) = sent U (nd_hw (snd (node_main RT B k h c))) @ puts tr \<and>
     puts tr @ t_left (nd_telemetry s) @ c_left (nd_command s) =
       concat (map (\<lambda>(ty, pl). wire_frame ty pl) (all_messages tr)) \<and>
     (t_left (nd_telemetry s) = [] \<and> c_left (nd_command s) = [] \<longrightarrow>
       arun kMaxPayloadSize (puts tr) Hunting =
         (map (\<lambda>(ty, pl). Inr (frame_of ty pl)) (all_messages tr), Hunting))"
proof -
  obtain k' m q where b: "snd (node_main RT B k h c) =
      booted k' (UartCmsdk B CMSDK_UART0_BASE configCPU_CLOCK_HZ 115200 h) m q CMSDK_UART0_BASE"
    using node_main_booted [OF assms(1), of B k h c] by auto
  have inv: "wire_inv U (sent U (UartCmsdk B CMSDK_UART0_BASE configCPU_CLOCK_HZ 115200 h)) tr s"
    using exclusive_wire_inv [OF assms(2,3) assms(4) [unfolded b]] by simp
  have short: "\<forall>(ty, pl) \<in> set (all_messages tr). length pl \<le> 255"
    using run_messages_short [OF exclusive_is_run [OF assms(4)]] by fastforce
  have dec: "arun kMaxPayloadSize (concat (map (\<lambda>(ty, pl). wire_frame ty pl) (all_messages tr))) Hunting =
      (map (\<lambda>(ty, pl). Inr (frame_of ty pl)) (all_messages tr), Hunting)"
    using short by (intro arun_wire_frames) (auto simp: kMaxPayloadSize_def)
  have "nd_hw (snd (node_main RT B k h c)) = UartCmsdk B CMSDK_UART0_BASE configCPU_CLOCK_HZ 115200 h"
    by (simp add: b booted_def)
  then show ?thesis
    using inv dec unfolding wire_inv_def frames_bytes_wire [OF short] by auto
qed

theorem exclusive_wire_decodes_witness:
  "\<exists>tr s b bs. exclusive_run sim_rtos (sim_bus CMSDK_UART0_BASE 2) (=) sim_node tr s \<and>
     su_sent (nd_hw s) = [b] \<and> b # bs = wire_frame kHello (hello_payload (nd_pipeline sim_node))"
proof -
  let ?pl = "hello_payload (nd_pipeline sim_node)"
  obtain b bs where f: "message_frame kHello ?pl = b # bs" using message_frame_Cons [of ?pl kHello] by auto
  obtain tr s where sch: "exclusive_schedule sim_rtos (sim_bus CMSDK_UART0_BASE 2) 
      [Run Command, Run Command, Run Command] sim_node = Some (tr, s)"
    and tr: "tr = [Sends Command kHello ?pl, Put Command b]" "nd_telemetry s = T_Receive" "nd_command s = C_Poll Hello bs"
    using f by (simp add: sim_node_eq booted_def sim_defs both_writing_def)
  have run: "exclusive_run sim_rtos (sim_bus CMSDK_UART0_BASE 2) (=) sim_node tr s"
    using exclusive_schedule_run [OF sch exclusive_run.ex_start] by simp
  have "idle_ok sim_view (=)" by (simp add: idle_ok_def)
  note dec = exclusive_wire_decodes [OF sim_rtos_ok sim_uart_ok this run [unfolded sim_node_def], folded sim_node_def]
  have "su_sent (nd_hw sim_node) = []" by (simp add: sim_node_eq booted_def sim_uart0_def)
  then show ?thesis using dec run tr
    by (intro exI [of _ tr] exI [of _ s] exI [of _ b] exI [of _ bs])
       (simp add: sim_view_def puts_def map_filter_simps all_messages_def)
qed

text \<open>The heartbeat test survives the wrap of the tick counter. With the times as unbounded tick counts
  of which the node sees only the low 32 bits, a heartbeat is due exactly when the interval has passed since
  the last one, provided the difference itself fits 32 bits.\<close>

theorem heartbeat_due_wraps:
  assumes "beat \<le> now" and "now - beat < 2 ^ 32"
  shows "heartbeat_due RT (of_nat now) (of_nat beat) \<longleftrightarrow> unat (pdMS_TO_TICKS RT 2000) \<le> now - beat"
  using heartbeat_elapsed [OF assms] by (simp add: heartbeat_due_def kHeartbeatInterval_def word_le_nat_alt)

theorem heartbeat_due_wraps_witness:
  "heartbeat_due sim_rtos (of_nat (2 ^ 32 + 1500)) (of_nat (2 ^ 32 - 500)) \<longleftrightarrow> True"
  using heartbeat_due_wraps [of "2 ^ 32 - 500" "2 ^ 32 + 1500" sim_rtos] by (simp add: sim_rtos_def)

text \<open>The sensor stays in range and never divides by zero. Every sample is between 1 and 7 degrees, so the
  expression never leaves the range of its type, samples 20 apart agree as long as the index does not wrap,
  and the delay between samples is between 3 ms and 1 s whatever rate the server sends, zero included.\<close>

theorem sensor_bounds:
  "1000 \<le> FakeReadingMilli i \<and> FakeReadingMilli i \<le> 7000 \<and>
   FakeReadingMilli (of_nat (10 + 20 * 3)) = 7000 \<and>
   (unat i + 20 < 2 ^ 32 \<longrightarrow> FakeReadingMilli (i + 20) = FakeReadingMilli i) \<and>
   3 \<le> unat (sample_period_ms rate) \<and> unat (sample_period_ms rate) \<le> 1000"
proof -
  have r: "1000 \<le> FakeReadingMilli i \<and> FakeReadingMilli i \<le> 7000" by (auto simp: FakeReadingMilli_eq Let_def)
  have "unat (i + 20) = unat i + 20" if "unat i + 20 < 2 ^ 32"
    using that by (simp add: unat_word_ariths)
  then have p: "unat i + 20 < 2 ^ 32 \<longrightarrow> FakeReadingMilli (i + 20) = FakeReadingMilli i"
    by (simp add: FakeReadingMilli_eq)
  have "3 \<le> (1000 :: nat) div n" if "n \<le> 255" "0 < n" for n
    using div_le_mono2 [OF that(2,1), of 1000] by simp
  moreover have "rate \<noteq> 0 \<longrightarrow> 0 < unat rate" by (simp add: unat_gt_0)
  ultimately have "3 \<le> unat (sample_period_ms rate)"
    unfolding sample_period_ms_eq by (cases "rate = 0") simp_all
  moreover have "unat (sample_period_ms rate) \<le> 1000"
    unfolding sample_period_ms_eq by (rule div_le_dividend)
  ultimately show ?thesis using r p by (simp add: FakeReadingMilli_eq)
qed

theorem sensor_bounds_witness:
  "FakeReadingMilli (7 + 20) = FakeReadingMilli 7 \<and> unat (sample_period_ms 0) \<le> 1000"
  using sensor_bounds [of 7 0] by simp

end
