(* ===== verification/Client.thy ===== *)
theory Client
  imports Store
begin

section \<open>The dashboard client (client/line_protocol.cpp, client/main.cpp)\<close>

text \<open>
  The client's line parser and its counters. What it prints is kept as data: one value per line
  printed, with the fields that are formatted into it. The address lookup \<open>inet_pton\<close> and the socket
  calls are parameters.
\<close>

subsection \<open>Parsing lines\<close>

definition try_parse_sample :: "string \<Rightarrow> (string \<times> u16 \<times> u32 \<times> i32) option" where
  "try_parse_sample line =
     (case read_word line of None \<Rightarrow> None | Some (metric, s) \<Rightarrow>
      case read_u16 s of None \<Rightarrow> None | Some (session_id, s) \<Rightarrow>
      case read_u32 s of None \<Rightarrow> None | Some (timestamp_ms, s) \<Rightarrow>
      case read_i32 s of None \<Rightarrow> None | Some (value_milli, s) \<Rightarrow>
        if at_end s then Some (metric, session_id, timestamp_ms, value_milli) else None)"

definition try_parse_alert :: "string \<Rightarrow> (string \<times> u16 \<times> u32 \<times> i32) option" where
  "try_parse_alert line =
     (case read_word line of None \<Rightarrow> None | Some (verb, s) \<Rightarrow>
      if verb \<noteq> ''ALERT'' then None else
      case read_word s of None \<Rightarrow> None | Some (kind, s) \<Rightarrow>
      case read_u16 s of None \<Rightarrow> None | Some (session_id, s) \<Rightarrow>
      case read_u32 s of None \<Rightarrow> None | Some (timestamp_ms, s) \<Rightarrow>
        if kind = ''EXCURSION'' then
          (case read_i32 s of None \<Rightarrow> None | Some (value_milli, s) \<Rightarrow>
             if at_end s then Some (kind, session_id, timestamp_ms, value_milli) else None)
        else if kind = ''OFFLINE'' then
          (if at_end s then Some (kind, session_id, timestamp_ms, 0) else None)
        else None)"

datatype client_output =
    Printed_Sample string i32 u16 u32
  | Printed_Alert string u16 u32 "i32 option"
  | Printed_Unrecognized string

record client =
  cl_buffer :: "u8 list"
  cl_valid :: nat
  cl_alerts :: nat
  cl_malformed :: nat
  cl_out :: "client_output list"

definition new_client :: client where
  "new_client = \<lparr>cl_buffer = [], cl_valid = 0, cl_alerts = 0, cl_malformed = 0, cl_out = []\<rparr>"

definition client_line :: "string \<Rightarrow> client \<Rightarrow> client" where
  "client_line line s =
     (case try_parse_sample line of
        Some (metric, session_id, timestamp_ms, value_milli) \<Rightarrow>
          s\<lparr>cl_out := cl_out s @ [Printed_Sample metric value_milli session_id timestamp_ms],
            cl_valid := cl_valid s + 1\<rparr>
      | None \<Rightarrow>
          (case try_parse_alert line of
             Some (kind, session_id, timestamp_ms, value_milli) \<Rightarrow>
               s\<lparr>cl_out := cl_out s @ [Printed_Alert kind session_id timestamp_ms
                     (if kind = ''EXCURSION'' then Some value_milli else None)],
                 cl_alerts := cl_alerts s + 1\<rparr>
           | None \<Rightarrow>
               s\<lparr>cl_out := cl_out s @ [Printed_Unrecognized line], cl_malformed := cl_malformed s + 1\<rparr>))"

definition handle_incoming :: "client \<Rightarrow> client" where
  "handle_incoming s =
     (case line_loop (\<lambda>line s. (Inr (client_line line s) :: unit + client)) (cl_buffer s) 0 0 s of
        Inr (line_start, s) \<Rightarrow> s\<lparr>cl_buffer := drop line_start (cl_buffer s)\<rparr>
      | Inl _ \<Rightarrow> s)"

definition client_receive :: "u8 list \<Rightarrow> client \<Rightarrow> client" where
  "client_receive chunk s = handle_incoming (s\<lparr>cl_buffer := cl_buffer s @ chunk\<rparr>)"

subsection \<open>The program\<close>

text \<open>\<open>main\<close>'s loop over the arguments after the program's name; \<open>None\<close> where \<open>atoi\<close> is undefined.\<close>

record client_options =
  co_host :: string
  co_port :: u16
  co_metric :: string

fun client_args :: "string list \<Rightarrow> client_options \<Rightarrow> client_options option" where
  "client_args [] opt = Some opt"
| "client_args [arg] opt = Some opt"
| "client_args (arg # val # rest) opt =
     (if arg = ''--connect'' then
        let host = takeWhile (\<lambda>c. c \<noteq> CHR '':'') val in
        if CHR '':'' \<in> set val then
          (case atoi (drop (length host + 1) val) of
             None \<Rightarrow> None
           | Some p \<Rightarrow> client_args rest (opt\<lparr>co_host := host, co_port := word_of_int p\<rparr>))
        else client_args rest opt
      else if arg = ''--subscribe'' then client_args rest (opt\<lparr>co_metric := val\<rparr>)
      else client_args (val # rest) opt)"

definition default_client_options :: client_options where
  "default_client_options = \<lparr>co_host = ''127.0.0.1'', co_port = 6001, co_metric = ''temp''\<rparr>"

definition connect_to_server ::
  "'k os \<Rightarrow> (string \<Rightarrow> u32 option) \<Rightarrow> string \<Rightarrow> u16 \<Rightarrow> 'k \<Rightarrow> fd option \<times> 'k" where
  "connect_to_server os inet_pton host port k =
     (case os_socket os False k of
        (Inl e, k) \<Rightarrow> (None, k)
      | (Inr fd, k) \<Rightarrow>
          (case inet_pton host of
             None \<Rightarrow> (None, os_close os fd k)
           | Some addr \<Rightarrow>
               (case os_connect os fd addr port k of
                  (Inl e, k) \<Rightarrow> (None, os_close os fd k)
                | (Inr _, k) \<Rightarrow> (Some fd, k))))"

partial_function (option) client_loop :: "'k os \<Rightarrow> fd \<Rightarrow> client \<Rightarrow> 'k \<Rightarrow> (client \<times> 'k) option" where
  "client_loop os fd s k =
     (case os_recv os fd kRecvChunk k of
        (Inr chunk, k) \<Rightarrow> if chunk = [] then Some (s, k) else client_loop os fd (client_receive chunk s) k
      | (Inl e, k) \<Rightarrow> Some (s, k))"

definition client_main ::
  "'k os \<Rightarrow> (string \<Rightarrow> u32 option) \<Rightarrow> client_options \<Rightarrow> 'k \<Rightarrow> (int \<times> client \<times> 'k) option" where
  "client_main os inet_pton opt k =
     (case connect_to_server os inet_pton (co_host opt) (co_port opt) k of
        (None, k) \<Rightarrow> Some (1, new_client, k)
      | (Some fd, k) \<Rightarrow>
          (case os_send os fd (bytes_of (''SUBSCRIBE '' @ co_metric opt @ [newline])) k of
             (Inl e, k) \<Rightarrow> Some (1, new_client, os_close os fd k)
           | (Inr _, k) \<Rightarrow>
               map_option (\<lambda>(s, k). (0, s, os_close os fd k)) (client_loop os fd new_client k)))"

lemmas [code] = client_loop.simps

subsection \<open>The reader contract\<close>

definition client_set_pending :: "u8 list \<Rightarrow> client \<Rightarrow> client" where
  "client_set_pending r s = s\<lparr>cl_buffer := r\<rparr>"

lemma client_line_set_pending: "client_line l (client_set_pending r s) = client_set_pending r (client_line l s)"
  by (simp add: client_line_def client_set_pending_def split: option.split prod.split)

interpretation client_reader: line_reader "\<lambda>chunk s. Inr (client_receive chunk s)"
  "\<lambda>line s. Inr (client_line line s)" cl_buffer client_set_pending
proof (unfold_locales, goal_cases)
  case (1 s bs ls r)
  let ?h = "\<lambda>line s. (Inr (client_line line s) :: unit + client)" and ?X = "cl_buffer s @ bs"
  have rest: "r = drop (length ?X - length r) ?X" using split_lines_rest [OF 1] by simp
  have "fold_res ?h ls (client_set_pending ?X s) =
      and_then (fold_res ?h ls s) (\<lambda>s. Inr (client_set_pending ?X s))"
    by (rule fold_res_commute) (simp add: client_line_set_pending)
  then have "line_loop ?h ?X 0 0 (client_set_pending ?X s) =
      Inr (length ?X - length r, client_set_pending ?X (fold client_line ls s))"
    using line_loop_lines [OF 1, of ?h "client_set_pending ?X s"] by (simp add: fold_res_pure)
  then have "client_receive bs s = client_set_pending r (fold client_line ls s)"
    using rest by (simp add: client_receive_def handle_incoming_def client_set_pending_def)
  then show ?case by (simp add: fold_res_pure)
next
  case (4 l r s)
  show ?case by (simp add: client_line_set_pending)
qed (simp_all add: client_set_pending_def)

lemma client_receive_lines:
  "split_lines [] (cl_buffer s @ bs) = (ls, r) \<Longrightarrow>
   client_receive bs s = client_set_pending r (fold client_line ls s)"
  using client_reader.feed_lines [of s bs ls r] by (simp add: fold_res_pure)

subsection \<open>The server's lines\<close>

lemma parse_sample_line:
  assumes "is_word m" "in_i32 v"
  shows "try_parse_sample (sample_line m sid ts v) = Some (m, sid, ts, v)"
  using read_word_space [OF assms(1)] read_i32_to_string [of "[]" v] assms(2)
  by (simp add: try_parse_sample_def sample_line_def)

lemma read_u16_letter: "read_u16 (CHR '' '' # c # s) = None"
  if "\<not> is_space c" "\<not> is_digit c" "c \<noteq> CHR ''-''" "c \<noteq> CHR ''+''"
  unfolding read_space using that
  by (simp add: read_u16_def read_unsigned_def read_number_def read_sign_def skip_space_def)

lemma alert_words: "is_word ''ALERT''" "is_word ''EXCURSION''" "is_word ''OFFLINE''"
  by (simp_all add: is_word_def is_space_def)

lemma read_alert_word:
  "read_word (''ALERT'' @ CHR '' '' # s) = Some (''ALERT'', CHR '' '' # s)"
  "read_word (''EXCURSION'' @ CHR '' '' # s) = Some (''EXCURSION'', CHR '' '' # s)"
  "read_word (''OFFLINE'' @ CHR '' '' # s) = Some (''OFFLINE'', CHR '' '' # s)"
  by (rule read_word_space, rule alert_words)+

lemma alert_not_sample:
  "try_parse_sample (excursion_line sid ts v) = None" "try_parse_sample (offline_line sid ts) = None"
proof -
  have e: "excursion_line sid ts v = ''ALERT'' @ CHR '' '' # ''EXCURSION'' @ CHR '' '' # to_string (unat sid) @
      CHR '' '' # to_string (unat ts) @ CHR '' '' # to_string_int v"
    "offline_line sid ts = ''ALERT'' @ CHR '' '' # ''OFFLINE'' @ CHR '' '' # to_string (unat sid) @
      CHR '' '' # to_string (unat ts)"
    by (simp_all add: excursion_line_def offline_line_def)
  have "read_u16 (CHR '' '' # ''EXCURSION'' @ s) = None" "read_u16 (CHR '' '' # ''OFFLINE'' @ s) = None" for s
    using read_u16_letter [of "CHR ''E''"] read_u16_letter [of "CHR ''O''"]
    by (simp_all add: is_space_def is_digit_def)
  then show "try_parse_sample (excursion_line sid ts v) = None" "try_parse_sample (offline_line sid ts) = None"
    unfolding e try_parse_sample_def read_alert_word by simp_all
qed

lemma parse_alert_lines:
  shows "in_i32 v \<Longrightarrow> try_parse_alert (excursion_line sid ts v) = Some (''EXCURSION'', sid, ts, v)"
    and "try_parse_alert (offline_line sid ts) = Some (''OFFLINE'', sid, ts, 0)"
proof -
  have e: "excursion_line sid ts v = ''ALERT'' @ CHR '' '' # ''EXCURSION'' @ CHR '' '' # to_string (unat sid) @
      CHR '' '' # to_string (unat ts) @ CHR '' '' # to_string_int v"
    "offline_line sid ts = ''ALERT'' @ CHR '' '' # ''OFFLINE'' @ CHR '' '' # to_string (unat sid) @
      CHR '' '' # to_string (unat ts)"
    by (simp_all add: excursion_line_def offline_line_def)
  show "in_i32 v \<Longrightarrow> try_parse_alert (excursion_line sid ts v) = Some (''EXCURSION'', sid, ts, v)"
    using read_i32_to_string [of "[]" v]
    unfolding e try_parse_alert_def by (simp only: read_alert_word read_space option.case prod.case) simp
  show "try_parse_alert (offline_line sid ts) = Some (''OFFLINE'', sid, ts, 0)"
    using read_u32_to_string [of "[]" ts]
    unfolding e try_parse_alert_def by (simp only: read_alert_word read_space option.case prod.case) simp
qed

text \<open>The lines a server sends unasked, and what the client makes of each.\<close>

datatype feed_line = Feed_Sample string u16 u32 i32 | Feed_Excursion u16 u32 i32 | Feed_Offline u16 u32

fun feed_text :: "feed_line \<Rightarrow> string" where
  "feed_text (Feed_Sample m sid ts v) = sample_line m sid ts v"
| "feed_text (Feed_Excursion sid ts v) = excursion_line sid ts v"
| "feed_text (Feed_Offline sid ts) = offline_line sid ts"

fun feed_printed :: "feed_line \<Rightarrow> client_output" where
  "feed_printed (Feed_Sample m sid ts v) = Printed_Sample m v sid ts"
| "feed_printed (Feed_Excursion sid ts v) = Printed_Alert ''EXCURSION'' sid ts (Some v)"
| "feed_printed (Feed_Offline sid ts) = Printed_Alert ''OFFLINE'' sid ts None"

fun feed_ok :: "feed_line \<Rightarrow> bool" where
  "feed_ok (Feed_Sample m sid ts v) \<longleftrightarrow> is_word m \<and> in_i32 v"
| "feed_ok (Feed_Excursion sid ts v) \<longleftrightarrow> in_i32 v"
| "feed_ok (Feed_Offline sid ts) \<longleftrightarrow> True"

fun is_sample :: "feed_line \<Rightarrow> bool" where
  "is_sample (Feed_Sample m sid ts v) = True"
| "is_sample _ = False"

lemma client_line_feed:
  "feed_ok f \<Longrightarrow> client_line (feed_text f) s =
     s\<lparr>cl_out := cl_out s @ [feed_printed f], cl_valid := cl_valid s + (if is_sample f then 1 else 0),
       cl_alerts := cl_alerts s + (if is_sample f then 0 else 1)\<rparr>"
  by (cases f) (simp_all add: client_line_def parse_sample_line alert_not_sample parse_alert_lines)

lemma is_space_newline: "is_space newline" "is_space (chr_of 13)"
  by (simp_all add: is_space_def newline_def chr_of_def)

lemma newline_not_in_number: "newline \<notin> set (to_string n)" "newline \<notin> set (to_string_int i)"
  using to_string_is_word(1) [of n] to_string_is_word(2) [of i] is_space_newline
  by (auto simp: is_word_def)

lemma last_word:
  assumes "is_word w"
  shows "last (s @ w) \<noteq> chr_of 13"
proof -
  have "last w \<in> set w" "last (s @ w) = last w" using assms by (auto simp: is_word_def)
  then show ?thesis using assms is_space_newline(2) unfolding is_word_def by metis
qed

lemma to_string_int_nonempty [simp]: "to_string_int i \<noteq> []"
  using to_string_is_word(2) [of i] by (simp add: is_word_def)

lemma chr_of_10: "newline = CHR 0x0A"
  by (simp add: newline_def chr_of_def char_of_eq_iff)

lemma feed_text_line:
  assumes "feed_ok f"
  shows "newline \<notin> set (feed_text f)" "last (feed_text f) \<noteq> chr_of 13"
proof -
  show "newline \<notin> set (feed_text f)"
  proof (cases f)
    case (Feed_Sample m sid ts v)
    then have "newline \<notin> set m" using assms is_space_newline by (auto simp: is_word_def)
    then show ?thesis
      using Feed_Sample newline_not_in_number by (simp add: sample_line_def) (simp add: chr_of_10)
  next
    case (Feed_Excursion sid ts v)
    then show ?thesis using newline_not_in_number by (simp add: excursion_line_def) (simp add: chr_of_10)
  next
    case (Feed_Offline sid ts)
    then show ?thesis using newline_not_in_number by (simp add: offline_line_def) (simp add: chr_of_10)
  qed
  show "last (feed_text f) \<noteq> chr_of 13"
    using last_word [OF to_string_is_word(2)] last_word [OF to_string_is_word(1)]
    by (cases f) (simp_all add: sample_line_def excursion_line_def offline_line_def)
qed

lemma split_line_bytes:
  assumes "newline \<notin> set l" "last l \<noteq> chr_of 13"
  shows "split_lines [] (line_bytes l @ bs) = (l # fst (split_lines [] bs), snd (split_lines [] bs))"
proof -
  have nl: "10 \<notin> set (bytes_of l)"
    using assms(1) by (auto simp: bytes_of_def newline_def)
  have "bytes_of l \<noteq> [] \<Longrightarrow> last (bytes_of l) \<noteq> 13"
    using assms(2) by (auto simp: bytes_of_def last_map) (metis chr_of_byte_of)
  then have "chomp (bytes_of l) = bytes_of l" by (auto simp: chomp_def)
  moreover have "line_bytes l = bytes_of l @ [10]"
    by (simp add: line_bytes_def bytes_of_def newline_def)
  ultimately show ?thesis using split_lines_line [of "[]" "bytes_of l" bs] nl by simp
qed

lemma split_feed:
  "\<forall>f \<in> set fs. feed_ok f \<Longrightarrow>
   split_lines [] (concat (map (\<lambda>f. line_bytes (feed_text f)) fs)) = (map feed_text fs, [])"
  by (induction fs) (simp_all add: split_line_bytes feed_text_line)

lemma fold_client_feed:
  "\<forall>f \<in> set fs. feed_ok f \<Longrightarrow> fold client_line (map feed_text fs) s =
     s\<lparr>cl_out := cl_out s @ map feed_printed fs,
       cl_valid := cl_valid s + length (filter is_sample fs),
       cl_alerts := cl_alerts s + length (filter (\<lambda>f. \<not> is_sample f) fs)\<rparr>"
  by (induction fs arbitrary: s) (simp_all add: client_line_feed)

subsection \<open>Properties\<close>

text \<open>C20: the dashboard shows what the server published. Whatever samples and alerts a server sends,
  in the exact bytes its subscriber code writes, and however TCP cuts them into chunks, the client
  prints one entry per line with the same metric, session, timestamp and value, in order, counts
  samples and alerts correctly, calls nothing malformed and keeps no leftover bytes.\<close>

theorem client_shows_feed:
  assumes "\<forall>f \<in> set fs. feed_ok f" and "chunks \<noteq> []"
    and "concat chunks = concat (map (\<lambda>f. line_bytes (feed_text f)) fs)"
  shows "fold client_receive chunks new_client =
     \<lparr>cl_buffer = [], cl_valid = length (filter is_sample fs),
      cl_alerts = length (filter (\<lambda>f. \<not> is_sample f) fs), cl_malformed = 0,
      cl_out = map feed_printed fs\<rparr>"
proof -
  have "fold client_receive chunks new_client = client_receive (concat chunks) new_client"
    using client_reader.feed_chunks [of new_client chunks] assms(2)
    by (simp add: fold_res_pure new_client_def)
  also have "\<dots> = client_set_pending [] (fold client_line (map feed_text fs) new_client)"
    using client_receive_lines [of new_client "concat chunks"] split_feed [OF assms(1)] assms(3)
    by (simp add: new_client_def)
  finally show ?thesis
    using fold_client_feed [OF assms(1)] by (simp add: client_set_pending_def new_client_def)
qed

theorem client_shows_feed_witness:
  "cl_out (fold client_receive [bytes_of ''temp 5 10 6'', bytes_of (''000'' @ [newline])] new_client) =
     [Printed_Sample ''temp'' 6000 5 10]"
proof -
  have "to_string 6000 = ''6000''" "to_string 5 = ''5''" "to_string 10 = ''10''"
    by (simp_all add: to_string.simps digit_def char_of_eq_iff)
  then have "concat [bytes_of ''temp 5 10 6'', bytes_of (''000'' @ [newline])] =
      concat (map (\<lambda>f. line_bytes (feed_text f)) [Feed_Sample ''temp'' 5 10 6000])"
    by (simp add: line_bytes_def sample_line_def to_string_int_def bytes_of_def)
  then show ?thesis
    using client_shows_feed [of "[Feed_Sample ''temp'' 5 10 6000]"
        "[bytes_of ''temp 5 10 6'', bytes_of (''000'' @ [newline])]"]
    by (simp add: is_word_def is_space_def in_i32_def)
qed

end
