(* ===== verification/System.thy ===== *)
theory System
  imports Node_Runs Ingest Client
begin

section \<open>Node, server and client together\<close>

text \<open>
  What the components promise each other across the wire: the handshake between the node's HELLO and the
  server's CONFIG, the lines of the server that the client prints, and the moving average of the server as
  a function of the readings.
\<close>

subsection \<open>Buffers\<close>

lemma outbuf_drained [simp]: "outbuf (drained fd w) p = outbuf w p"
  by (simp add: outbuf_def drained_def split: option.split)

lemma subs_ok_kernel [simp]: "subs_ok (w\<lparr>el_kernel := k\<rparr>) = subs_ok w"
  by (simp add: subs_ok_def)

lemma outbuf_kernel [simp]: "outbuf (w\<lparr>el_kernel := k\<rparr>) p = outbuf w p"
  by (simp add: outbuf_def)

subsection \<open>Server to client\<close>

lemma client_shows_lines:
  "\<forall>f \<in> set fs. feed_ok f \<Longrightarrow>
   cl_out (client_receive (concat (map (\<lambda>f. line_bytes (feed_text f)) fs)) new_client) = map feed_printed fs"
  using client_receive_lines [of new_client] split_feed [of fs] fold_client_feed [of fs new_client]
  by (simp add: new_client_def client_set_pending_def)

lemma metric_name_0: "metric_name 0 = ''temp''"
  by (simp add: metric_name_def)

lemma temp_is_word: "is_word ''temp''"
  by (simp add: is_word_def is_space_def)

subsection \<open>Server to node\<close>

lemma config_frame_instruction:
  "List.map_filter instruction_of (accepted (fst (arun kMaxPayloadSize (wire_frame kConfig (config_bytes cfg)) Hunting))) =
     [Configure cfg]"
proof -
  have "length (config_bytes cfg) = sizeof_ConfigPayload" by (rule config_wire.length_enc)
  then have "arun kMaxPayloadSize (wire_frame kConfig (config_bytes cfg)) Hunting =
      ([Inr (frame_of kConfig (config_bytes cfg))], Hunting)"
    by (intro arun_wire_frame) (simp_all add: kMaxPayloadSize_def sizeof_defs)
  then show ?thesis
    by (simp add: instruction_of_def frame_of_def map_filter_simps config_wire.length_enc config_wire.dec_enc)
qed

lemma slow_down_frame_instruction:
  "List.map_filter instruction_of (accepted (fst (arun kMaxPayloadSize (wire_frame kSlowDown (slow_down_bytes cmd)) Hunting))) =
     [SlowDown cmd]"
proof -
  have "length (slow_down_bytes cmd) = sizeof_SlowDownPayload" by (rule slow_down_wire.length_enc)
  then have "arun kMaxPayloadSize (wire_frame kSlowDown (slow_down_bytes cmd)) Hunting =
      ([Inr (frame_of kSlowDown (slow_down_bytes cmd))], Hunting)"
    by (intro arun_wire_frame) (simp_all add: kMaxPayloadSize_def sizeof_defs)
  then show ?thesis
    by (simp add: instruction_of_def frame_of_def map_filter_simps slow_down_wire.length_enc slow_down_wire.dec_enc
        message_type_defs)
qed

subsection \<open>The average of a device\<close>

definition average_at :: "store \<Rightarrow> u16 \<Rightarrow> u8 \<Rightarrow> i32 \<Rightarrow> bool" where
  "average_at st sid mid a \<longleftrightarrow>
     (\<exists>h. st_history st (make_key sid mid) = Some h \<and> dh_have_average h \<and> dh_average_milli h = a)"

lemma record_sample_first:
  "st_history st (make_key sid mid) = None \<Longrightarrow>
   \<exists>st'. record_sample sid mid v ts st = Inr (v, st') \<and> average_at st' sid mid v"
  by (simp add: record_sample_def update_average_def push_sample_def empty_history_def average_at_def Let_def)

lemma record_sample_next:
  "average_at st sid mid a \<Longrightarrow> in_i32 (v - a) \<Longrightarrow>
   \<exists>st'. record_sample sid mid v ts st = Inr (a + (v - a) div 4, st') \<and> average_at st' sid mid (a + (v - a) div 4)"
  by (auto simp: average_at_def record_sample_def update_average_def push_sample_def ema_step_def Let_def)

lemma average_at_recorded [simp]: "average_at (recorded_store sid mid a ts now st) sid' mid' = average_at st sid' mid'"
  by (simp add: average_at_def recorded_store_def set_alerts_def fun_eq_iff)

lemma recorded_active:
  "kHighThresholdMilli < a \<Longrightarrow> al_active (excursion_alert (recorded_store sid kTempMetricId a ts now st) sid)"
  by (simp add: recorded_store_def opens_excursion_def excursion_alert_def new_excursion_def
      set_alerts_def update_conv')

end
