(* ===== verification/Excursions.thy ===== *)
theory Excursions
  imports Store
begin

section \<open>Which readings raise an alert\<close>

text \<open>
  Sequences of calls of the store's \<open>record\<close>, of any mix of devices and metrics: the average of each device and
  metric, and when the excursion alert of a device is raised. The running averages are given as a
  function of the readings alone (\<open>averages\<close>), which the store is shown to follow.
\<close>

subsection \<open>Running averages\<close>

text \<open>The first reading is the average; each later one moves it a quarter of the way, rounded down.\<close>

definition next_average :: "i32 option \<Rightarrow> i32 \<Rightarrow> i32" where
  "next_average average v = (case average of None \<Rightarrow> v | Some a \<Rightarrow> a + (v - a) div 4)"

lemma next_average_eq: "next_average average v = (case average of None \<Rightarrow> v | Some a \<Rightarrow> (3 * a + v) div 4)"
  by (cases average) (simp_all add: next_average_def)

fun averages :: "i32 option \<Rightarrow> i32 list \<Rightarrow> i32 list" where
  "averages average [] = []"
| "averages average (v # vs) = next_average average v # averages (Some (next_average average v)) vs"

lemma length_averages [simp]: "length (averages average vs) = length vs"
  by (induction average vs rule: averages.induct) simp_all

lemma next_average_mono:
  "rel_option (\<le>) a b \<Longrightarrow> v \<le> w \<Longrightarrow> next_average a v \<le> next_average b w"
  by (cases a; cases b) (auto simp: next_average_eq intro: zdiv_mono1)

lemma next_average_step: "a + (v - a) div 4 = next_average (Some a) v"
  by (simp add: next_average_def)

lemma next_average_plausible: "pred_option plausible average \<Longrightarrow> plausible v \<Longrightarrow> plausible (next_average average v)"
  by (cases average) (auto simp: next_average_eq plausible_def)

text \<open>What the lowest average that cannot overflow becomes after \<open>n\<close> readings of 5504.\<close>

definition lowest :: "nat \<Rightarrow> i32" where
  "lowest n = ((\<lambda>a. next_average (Some a) 5504) ^^ n) (- (2 ^ 30))"

lemma lowest_Suc: "lowest (Suc n) = next_average (Some (lowest n)) 5504"
  by (simp add: lowest_def)

lemma lowest_70: "5500 < lowest 70"
  unfolding lowest_def next_average_eq by code_simp

lemma lowest_below: "lowest n \<le> 5504"
proof (induction n)
  case (Suc n)
  then show ?case using next_average_mono [of "Some (lowest n)" "Some 5504" 5504 5504]
    by (simp add: lowest_Suc) (simp add: next_average_eq)
qed (simp add: lowest_def)

lemma averages_above_lowest:
  "pred_option (\<lambda>a. lowest k \<le> a) average \<Longrightarrow> \<forall>v \<in> set vs. 5504 \<le> v \<Longrightarrow> n < length vs \<Longrightarrow>
   lowest (Suc k + n) \<le> averages average vs ! n"
proof (induction vs arbitrary: average k n)
  case (Cons v vs)
  have v: "5504 \<le> v" using Cons.prems(2) by simp
  have "lowest (Suc k) \<le> next_average average v"
  proof (cases average)
    case None
    then show ?thesis using order_trans [OF lowest_below v] by (simp add: next_average_eq)
  next
    case (Some a)
    then show ?thesis using Cons.prems(1) v next_average_mono [of "Some (lowest k)" "Some a" 5504 v] by (simp add: lowest_Suc)
  qed
  then show ?case
    using Cons.IH [of "Suc k" "Some (next_average average v)" "n - 1"] Cons.prems(2,3) by (cases n) simp_all
qed simp

lemma sustained_high:
  assumes "pred_option plausible average" "\<forall>v \<in> set vs. 5504 \<le> v" "70 \<le> length vs"
  shows "\<exists>a \<in> set (averages average vs). 5500 < a"
proof -
  have "pred_option (\<lambda>a. lowest 0 \<le> a) average"
    using assms(1) by (cases average) (simp_all add: lowest_def plausible_def)
  from averages_above_lowest [OF this assms(2), of 69] have "5500 < averages average vs ! 69"
    using lowest_70 assms(3) by simp
  moreover have "averages average vs ! 69 \<in> set (averages average vs)" using assms(3) by (intro nth_mem) simp
  ultimately show ?thesis by blast
qed

lemma sustained_low:
  "pred_option (\<lambda>a. a \<le> 5500) average \<Longrightarrow> \<forall>v \<in> set vs. v \<le> 5503 \<Longrightarrow> average = None \<longrightarrow> vs = [] \<or> hd vs \<le> 5500 \<Longrightarrow>
   \<forall>a \<in> set (averages average vs). a \<le> 5500"
proof (induction vs arbitrary: average)
  case (Cons v vs)
  have "next_average average v \<le> 5500"
  proof (cases average)
    case None
    then show ?thesis using Cons.prems(3) by (simp add: next_average_eq)
  next
    case (Some a)
    then have "next_average average v \<le> next_average (Some 5500) 5503"
      using Cons.prems(1,2) by (intro next_average_mono) simp_all
    then show ?thesis by (simp add: next_average_eq)
  qed
  moreover from this have "\<forall>a \<in> set (averages (Some (next_average average v)) vs). a \<le> 5500"
    using Cons.prems(2) by (intro Cons.IH) simp_all
  ultimately show ?case by simp
qed simp

subsection \<open>The store follows them\<close>

definition average_of :: "store \<Rightarrow> u16 \<Rightarrow> u8 \<Rightarrow> i32 option" where
  "average_of st sid mid =
     (case st_history st (make_key sid mid) of
        None \<Rightarrow> None | Some h \<Rightarrow> if dh_have_average h then Some (dh_average_milli h) else None)"

definition averages_plausible :: "store \<Rightarrow> bool" where
  "averages_plausible st \<longleftrightarrow> (\<forall>sid mid. pred_option plausible (average_of st sid mid))"

lemma average_of_cong: "st_history st = st_history st' \<Longrightarrow> average_of st = average_of st'"
  by (simp add: average_of_def fun_eq_iff)

lemma record_sample_average:
  fixes sid :: u16 and mid :: u8
  assumes "averages_plausible st" "plausible v"
  defines "a \<equiv> next_average (average_of st sid mid) v"
  shows "\<exists>st'. record_sample sid mid v ts st = Inr (a, st') \<and>
     (\<forall>s m. average_of st' s m = (if s = sid \<and> m = mid then Some a else average_of st s m))"
proof -
  let ?h = "push_sample \<lparr>sm_timestamp_ms = ts, sm_value_milli = v\<rparr>
    (case st_history st (make_key sid mid) of None \<Rightarrow> empty_history | Some h \<Rightarrow> h)"
  have p: "pred_option plausible (average_of st sid mid)" using assms(1) by (simp add: averages_plausible_def)
  have h: "(if dh_have_average ?h then Some (dh_average_milli ?h) else None) = average_of st sid mid"
    by (simp add: average_of_def push_sample_def empty_history_def Let_def split: option.split)
  have "\<exists>h'. update_average v ?h = Inr h' \<and> dh_have_average h' \<and> dh_average_milli h' = a"
  proof (cases "average_of st sid mid")
    case None
    then show ?thesis using h by (auto simp: update_average_def a_def next_average_eq split: if_splits)
  next
    case (Some b)
    then have b: "dh_have_average ?h" "dh_average_milli ?h = b" "plausible b" using h p by (auto split: if_splits)
    then show ?thesis
      using plausible_diff [OF b(3) assms(2)] Some
      by (simp add: update_average_def ema_step_def Let_def a_def next_average_step)
  qed
  then obtain h' where "update_average v ?h = Inr h'" "dh_have_average h'" "dh_average_milli h' = a" by blast
  then show ?thesis by (auto simp: record_sample_def Let_def average_of_def make_key_eq)
qed

lemma store_record_average:
  fixes sid :: u16 and mid :: u8
  assumes "subs_ok w" "mod_succeeds os" "averages_plausible (hub_store w)" "plausible v"
  defines "a \<equiv> next_average (average_of (hub_store w) sid mid) v"
  shows "\<exists>w'. store_record os sid mid v ts now w = Inr w' \<and> subs_ok w' \<and> averages_plausible (hub_store w') \<and>
     (\<forall>s m. average_of (hub_store w') s m = (if s = sid \<and> m = mid then Some a else average_of (hub_store w) s m)) \<and>
     (\<forall>s. excursion_alert (hub_store w') s =
        (if s = sid \<and> mid = kTempMetricId \<and> kHighThresholdMilli < a \<and> \<not> al_active (excursion_alert (hub_store w) sid)
         then new_excursion a ts now else excursion_alert (hub_store w) s))"
proof -
  obtain st where st: "record_sample sid mid v ts (hub_store w) = Inr (a, st)"
    "\<And>s m. average_of st s m = (if s = sid \<and> m = mid then Some a else average_of (hub_store w) s m)"
    using record_sample_average [OF assms(3,4)] unfolding a_def by blast
  obtain w' where w': "store_record os sid mid v ts now w = Inr w'" "subs_ok w'"
    using store_record_delivers [OF assms(1,2) st(1)] by blast
  have store: "hub_store w' = recorded_store sid mid a ts now st" using store_record_store [OF w'(1)] st(1) by auto
  have avg: "average_of (hub_store w') = average_of st" unfolding store by (rule average_of_cong) simp
  then have "averages_plausible (hub_store w')"
    using assms(3,4) next_average_plausible [of "average_of (hub_store w) sid mid" v] st(2)
    by (simp add: averages_plausible_def a_def)
  moreover have "alerts_at st = alerts_at (hub_store w)" using record_sample_frame [OF st(1)] alerts_at_cong by blast
  then have "excursion_alert (hub_store w') s =
      (if s = sid \<and> mid = kTempMetricId \<and> kHighThresholdMilli < a \<and> \<not> al_active (excursion_alert (hub_store w) sid)
       then new_excursion a ts now else excursion_alert (hub_store w) s)" for s
    by (simp add: store alert_lookup recorded_store_alerts opens_excursion_def)
  ultimately show ?thesis using w' avg st(2) by (intro exI [of _ w']) simp
qed

subsection \<open>Sequences of readings\<close>

type_synonym recording = "u16 \<times> u8 \<times> i32 \<times> u32 \<times> time_point"

definition reading_value :: "recording \<Rightarrow> i32" where
  "reading_value = (\<lambda>(s, m, v, ts, now). v)"

definition temperatures :: "u16 \<Rightarrow> recording list \<Rightarrow> i32 list" where
  "temperatures sid rs = map reading_value (filter (\<lambda>(s, m, v, ts, now). s = sid \<and> m = kTempMetricId) rs)"

lemma temperatures_simps [simp]:
  "temperatures sid [] = []"
  "temperatures sid ((s, m, v, ts, now) # rs) =
     (if s = sid \<and> m = kTempMetricId then v # temperatures sid rs else temperatures sid rs)"
  by (simp_all add: temperatures_def reading_value_def)

lemma records_average:
  assumes os: "mod_succeeds os"
  shows "subs_ok w \<Longrightarrow> averages_plausible (hub_store w) \<Longrightarrow> \<forall>r \<in> set rs. plausible (reading_value r) \<Longrightarrow>
    \<exists>w'. fold_res (\<lambda>(s, m, v, ts, now). store_record os s m v ts now) rs w = Inr w' \<and>
      (let raised = (\<exists>a \<in> set (averages (average_of (hub_store w) sid kTempMetricId) (temperatures sid rs)). kHighThresholdMilli < a) in
       (al_active (excursion_alert (hub_store w') sid) \<longleftrightarrow> al_active (excursion_alert (hub_store w) sid) \<or> raised) \<and>
       (\<not> raised \<longrightarrow> excursion_alert (hub_store w') sid = excursion_alert (hub_store w) sid))"
proof (induction rs arbitrary: w)
  case (Cons r rs)
  obtain s m v ts now where r: "r = (s, m, v, ts, now)" by (cases r) auto
  let ?a = "next_average (average_of (hub_store w) s m) v"
  have v: "plausible v" using Cons.prems(3) by (simp add: r reading_value_def)
  obtain w1 where w1: "store_record os s m v ts now w = Inr w1" "subs_ok w1" "averages_plausible (hub_store w1)"
    "\<And>s' m'. average_of (hub_store w1) s' m' = (if s' = s \<and> m' = m then Some ?a else average_of (hub_store w) s' m')"
    "\<And>s'. excursion_alert (hub_store w1) s' =
       (if s' = s \<and> m = kTempMetricId \<and> kHighThresholdMilli < ?a \<and> \<not> al_active (excursion_alert (hub_store w) s)
        then new_excursion ?a ts now else excursion_alert (hub_store w) s')"
    using store_record_average [OF Cons.prems(1) os Cons.prems(2) v, of s m ts now] by blast
  have new: "al_active (new_excursion ?a ts now)" by (simp add: new_excursion_def)
  obtain w' where w': "fold_res (\<lambda>(s, m, v, ts, now). store_record os s m v ts now) rs w1 = Inr w'"
    "let raised = (\<exists>a \<in> set (averages (average_of (hub_store w1) sid kTempMetricId) (temperatures sid rs)). kHighThresholdMilli < a) in
     (al_active (excursion_alert (hub_store w') sid) \<longleftrightarrow> al_active (excursion_alert (hub_store w1) sid) \<or> raised) \<and>
     (\<not> raised \<longrightarrow> excursion_alert (hub_store w') sid = excursion_alert (hub_store w1) sid)"
    using Cons.IH [OF w1(2,3)] Cons.prems(3) by auto
  have run: "fold_res (\<lambda>(s, m, v, ts, now). store_record os s m v ts now) (r # rs) w = Inr w'"
    using w1(1) w'(1) by (simp add: r)
  show ?case
    using run w'(2) w1(4) [of sid kTempMetricId] w1(5) [of sid] new
    by (cases "s = sid \<and> m = kTempMetricId") (auto simp: r Let_def)
qed simp

subsection \<open>Properties\<close>

text \<open>C30: which sustained temperatures raise an alert. For any mix of readings of any devices and metrics,
  recorded one after the other, with readings and averages so far within \<open>\<plusminus>2^30\<close> (so that no difference overflows), every
  \<open>record\<close> returns, and a device has an excursion alert afterwards exactly if it had one before or one of
  its running average temperatures has exceeded the threshold of 5500. So 70 readings of 5504 or more are
  enough whatever the average was; one reading above 5500 is, from a device that has none yet; and readings of at
  most 5503 never raise an alert while the average is not above 5500 (and the first reading, if there is no
  average yet, is not), although 5501 to 5503 are above the threshold.\<close>

theorem sustained_excursion:
  assumes "subs_ok w" and "mod_succeeds os" and "averages_plausible (hub_store w)"
    and "\<forall>r \<in> set rs. plausible (reading_value r)"
  shows "\<exists>w'. fold_res (\<lambda>(s, m, v, ts, now). store_record os s m v ts now) rs w = Inr w' \<and>
     (let vs = temperatures sid rs; average = average_of (hub_store w) sid kTempMetricId;
          before = excursion_alert (hub_store w) sid; after = excursion_alert (hub_store w') sid in
      (al_active after \<longleftrightarrow> al_active before \<or> (\<exists>a \<in> set (averages average vs). 5500 < a)) \<and>
      ((\<forall>v \<in> set vs. 5504 \<le> v) \<and> 70 \<le> length vs \<longrightarrow> al_active after) \<and>
      (average = None \<and> vs \<noteq> [] \<and> 5500 < hd vs \<longrightarrow> al_active after) \<and>
      ((\<forall>v \<in> set vs. v \<le> 5503) \<and> (case average of None \<Rightarrow> vs = [] \<or> hd vs \<le> 5500 | Some a \<Rightarrow> a \<le> 5500)
         \<longrightarrow> after = before))"
proof -
  let ?avg = "average_of (hub_store w) sid kTempMetricId" and ?vs = "temperatures sid rs"
  let ?raised = "\<exists>a \<in> set (averages ?avg ?vs). 5500 < a"
  obtain w' where w': "fold_res (\<lambda>(s, m, v, ts, now). store_record os s m v ts now) rs w = Inr w'"
    "al_active (excursion_alert (hub_store w') sid) \<longleftrightarrow> al_active (excursion_alert (hub_store w) sid) \<or> ?raised"
    "\<not> ?raised \<longrightarrow> excursion_alert (hub_store w') sid = excursion_alert (hub_store w) sid"
    using records_average [OF assms(2,1,3,4), of sid] by (auto simp: Let_def kHighThresholdMilli_def)
  have p: "pred_option plausible ?avg" using assms(3) by (simp add: averages_plausible_def)
  have high: "?raised" if "\<forall>v \<in> set ?vs. 5504 \<le> v" "70 \<le> length ?vs" by (rule sustained_high [OF p that])
  have first: "?raised" if "?avg = None" "?vs \<noteq> []" "5500 < hd ?vs"
    using that by (cases ?vs) (auto simp: next_average_eq)
  have low: "\<not> ?raised" if "\<forall>v \<in> set ?vs. v \<le> 5503" "case ?avg of None \<Rightarrow> ?vs = [] \<or> hd ?vs \<le> 5500 | Some a \<Rightarrow> a \<le> 5500"
  proof -
    have "pred_option (\<lambda>a. a \<le> 5500) ?avg" "?avg = None \<longrightarrow> ?vs = [] \<or> hd ?vs \<le> 5500"
      using that(2) by (cases ?avg; simp)+
    from sustained_low [OF this(1) that(1) this(2)] show ?thesis by (meson leD)
  qed
  show ?thesis
    unfolding Let_def using w'(1)
  proof (intro exI [of _ w'] conjI impI)
    show "al_active (excursion_alert (hub_store w') sid) \<longleftrightarrow> al_active (excursion_alert (hub_store w) sid) \<or> ?raised"
      by (rule w'(2))
  qed (use w'(2,3) high first low in blast)+
qed

theorem sustained_excursion_witness:
  "\<exists>w'. fold_res (\<lambda>(s, m, v, ts, now). store_record quiet_os s m v ts now)
       ((9, 0, 9000, 1, 1) # (5, 1, 9000, 2, 2) # (5, 0, 4000, 3, 3) # replicate 70 (5, 0, 5504, 4, 4)) one_subscriber_hub = Inr w' \<and>
     (\<exists>a \<in> set (averages None (4000 # replicate 70 5504)). 5500 < a) \<and> al_active (excursion_alert (hub_store w') 5) \<and>
     (\<exists>w2. fold_res (\<lambda>(s, m, v, ts, now). store_record quiet_os s m v ts now)
        ((5, 0, 5500, 3, 3) # replicate 70 (5, 0, 5503, 4, 4)) one_subscriber_hub = Inr w2 \<and>
        \<not> al_active (excursion_alert (hub_store w2) 5))"
proof -
  let ?rs = "(9, 0, 9000, 1, 1) # (5, 1, 9000, 2, 2) # (5, 0, 4000, 3, 3) # replicate 70 (5, 0, 5504, 4, 4) :: recording list"
  let ?qs = "(5, 0, 5500, 3, 3) # replicate 70 (5, 0, 5503, 4, 4) :: recording list"
  have p: "averages_plausible (hub_store one_subscriber_hub)"
    by (simp add: averages_plausible_def average_of_def one_subscriber_hub_def empty_store_def)
  have none: "average_of (hub_store one_subscriber_hub) 5 0 = None" "\<not> al_active (excursion_alert (hub_store one_subscriber_hub) 5)"
    by (simp_all add: average_of_def excursion_alert_def no_alert_def one_subscriber_hub_def empty_store_def)
  have t: "temperatures 5 ?rs = 4000 # replicate 70 5504" "temperatures 5 ?qs = 5500 # replicate 70 5503"
    by (simp_all add: temperatures_def reading_value_def kTempMetricId_def)
  have v: "\<forall>r \<in> set ?rs. plausible (reading_value r)" "\<forall>r \<in> set ?qs. plausible (reading_value r)"
    by (auto simp: reading_value_def plausible_def)
  have high: "\<exists>a \<in> set (averages (Some 4000) (replicate 70 5504)). 5500 < a"
    by (rule sustained_high) (simp_all add: plausible_def)
  then have high': "\<exists>a \<in> set (averages None (4000 # replicate 70 5504)). 5500 < a" by (simp add: next_average_eq)
  note all = sustained_excursion [OF one_subscriber_ok quiet_mod_succeeds p, unfolded Let_def kTempMetricId_def]
  obtain w' where "fold_res (\<lambda>(s, m, v, ts, now). store_record quiet_os s m v ts now) ?rs one_subscriber_hub = Inr w'"
    "al_active (excursion_alert (hub_store w') 5)"
    using all [OF v(1), of 5] high' none(1) unfolding t by auto
  moreover obtain w2 where "fold_res (\<lambda>(s, m, v, ts, now). store_record quiet_os s m v ts now) ?qs one_subscriber_hub = Inr w2"
    "excursion_alert (hub_store w2) 5 = excursion_alert (hub_store one_subscriber_hub) 5"
    using all [OF v(2), of 5] none(1) unfolding t by auto
  ultimately show ?thesis using high' none(2) by metis
qed

end
