(* ===== verification/Telemetry.thy ===== *)
theory Telemetry
  imports System Excursions
begin

section \<open>From the node's messages to the dashboard\<close>

text \<open>
  What the whole chain promises for one device, as a small machine over messages: which lines a subscriber
  to the temperature is shown for each message the device sends (\<open>show_message\<close>). The server implements
  it, message by message (\<open>dispatch_shows\<close>), however TCP cuts the device's bytes (\<open>chunks_show\<close>); and
  every message the node sends is one of the machine's (\<open>node_messages\<close>).
\<close>

subsection \<open>The specification\<close>

datatype device_message =
    Says_Hello HelloPayload
  | Says_Heartbeat HeartbeatPayload
  | Says_Reading u16 Reading

text \<open>A message as it is framed; the session number in a SAMPLE is what the device believes.\<close>

fun framed :: "device_message \<Rightarrow> MessageType \<times> u8 list" where
  "framed (Says_Hello h) = (kHello, hello_bytes h)"
| "framed (Says_Heartbeat b) = (kHeartbeat, heartbeat_bytes b)"
| "framed (Says_Reading believed rd) = (kSample, sample_payload believed rd)"

text \<open>What matters of a device: whether it has said HELLO, the average of its readings, and whether its
  excursion alert is open.\<close>

record device_view =
  dv_open :: bool
  dv_average :: "i32 option"
  dv_alert :: bool

fun show_message :: "u16 \<Rightarrow> device_message \<Rightarrow> device_view \<Rightarrow> feed_line list \<times> device_view" where
  "show_message sid (Says_Hello h) d = ([], d\<lparr>dv_open := True\<rparr>)"
| "show_message sid (Says_Heartbeat b) d = ([], d)"
| "show_message sid (Says_Reading believed rd) d =
     (if dv_open d then
        let a = next_average (dv_average d) (value_milli rd);
            opens = 5500 < a \<and> \<not> dv_alert d in
        (Feed_Sample ''temp'' sid (timestamp_ms rd) (value_milli rd) #
           (if opens then [Feed_Excursion sid (timestamp_ms rd) a] else []),
         d\<lparr>dv_average := Some a, dv_alert := dv_alert d \<or> opens\<rparr>)
      else ([], d))"

fun show_messages :: "u16 \<Rightarrow> device_message list \<Rightarrow> device_view \<Rightarrow> feed_line list \<times> device_view" where
  "show_messages sid [] d = ([], d)"
| "show_messages sid (m # ms) d =
     (let (fs, d) = show_message sid m d; (gs, d) = show_messages sid ms d in (fs @ gs, d))"

text \<open>Readings strictly within \<open>\<plusminus>2^30\<close> keep the server's arithmetic in range.\<close>

definition small :: "i32 \<Rightarrow> bool" where
  "small v \<longleftrightarrow> \<bar>v\<bar> < 2 ^ 30"

fun message_ok :: "device_message \<Rightarrow> bool" where
  "message_ok (Says_Reading believed rd) \<longleftrightarrow> small (value_milli rd)"
| "message_ok _ \<longleftrightarrow> True"

definition view_ok :: "device_view \<Rightarrow> bool" where
  "view_ok d \<longleftrightarrow> (\<forall>a. dv_average d = Some a \<longrightarrow> small a)"

lemma small_in_i32: "small v \<Longrightarrow> in_i32 v" "small v \<Longrightarrow> small a \<Longrightarrow> in_i32 (v - a)"
  by (auto simp: small_def in_i32_def)

lemma small_next: "small v \<Longrightarrow> view_ok d \<Longrightarrow> small (next_average (dv_average d) v)"
  by (auto simp: small_def view_ok_def next_average_def abs_less_iff split: option.split)

lemma show_messages_append:
  "show_messages sid (ms @ ns) d =
     (let (fs, d) = show_messages sid ms d; (gs, d) = show_messages sid ns d in (fs @ gs, d))"
  by (induction ms arbitrary: d) (simp_all add: Let_def split: prod.split)

lemma show_message_ok:
  assumes "message_ok m" "view_ok d"
  shows "view_ok (snd (show_message sid m d)) \<and> (\<forall>f \<in> set (fst (show_message sid m d)). feed_ok f)"
proof (cases m)
  case (Says_Reading believed rd)
  then show ?thesis
    using assms small_next [of "value_milli rd" d] temp_is_word
    by (auto simp: Let_def view_ok_def dest: small_in_i32(1))
qed (use assms in \<open>simp_all add: view_ok_def\<close>)

lemma show_messages_ok:
  "list_all message_ok ms \<Longrightarrow> view_ok d \<Longrightarrow>
   view_ok (snd (show_messages sid ms d)) \<and> (\<forall>f \<in> set (fst (show_messages sid ms d)). feed_ok f)"
proof (induction ms arbitrary: d)
  case (Cons m ms)
  then show ?case
    using show_message_ok [of m d sid] by (auto simp: Let_def split: prod.splits) fastforce+
qed simp

subsection \<open>The server's state for the device\<close>

fun average_is :: "i32 option \<Rightarrow> store \<Rightarrow> u16 \<Rightarrow> bool" where
  "average_is None st sid \<longleftrightarrow> st_history st (make_key sid kTempMetricId) = None"
| "average_is (Some a) st sid \<longleftrightarrow> average_at st sid kTempMetricId a"

text \<open>The device on \<open>fd\<close> as the server sees it, with one subscriber \<open>p\<close> to the temperature.\<close>

definition sees ::
  "fd \<Rightarrow> fd \<Rightarrow> u16 \<Rightarrow> device_view \<Rightarrow> ingest \<times> ('k, 'cb, 'tcb, 'z) hub_scheme \<Rightarrow> bool" where
  "sees fd p sid d = (\<lambda>(g, w).
     subs_ok w \<and> p \<in> set (st_subscribers (hub_store w)) \<and> p \<noteq> fd \<and> hub_conns w fd \<noteq> None \<and>
     map_option sub_metric (hub_subs w p) = Some ''temp'' \<and>
     ing_session_id g = sid \<and> (dv_open d \<longleftrightarrow> ing_session g \<noteq> None) \<and>
     (\<forall>s. ing_session g = Some s \<longrightarrow> ds_session_id s = sid) \<and>
     average_is (dv_average d) (hub_store w) sid \<and>
     dv_alert d = al_active (excursion_alert (hub_store w) sid))"

definition feed_bytes :: "feed_line list \<Rightarrow> u8 list" where
  "feed_bytes fs = concat (map (\<lambda>f. line_bytes (feed_text f)) fs)"

lemma feed_bytes_simps [simp]: "feed_bytes [] = []" "feed_bytes (fs @ gs) = feed_bytes fs @ feed_bytes gs"
  by (simp_all add: feed_bytes_def)

lemma send_frame_other:
  assumes "send_frame os fd ty pl w = Inr w'" "p \<noteq> fd"
  shows "hub_conns w' p = hub_conns w p"
  using assms by (auto simp: send_frame_def on_conn_def and_then_Inr split: option.splits)

lemma sees_kernel [simp]: "sees fd p sid d (g, w\<lparr>el_kernel := k\<rparr>) = sees fd p sid d (g, w)"
  by (simp add: sees_def)

text \<open>A reading recorded by the store.\<close>

lemma reading_recorded:
  assumes "sees fd p sid d (g, w)" "mod_succeeds os" "view_ok d" "small v"
  defines "a \<equiv> next_average (dv_average d) v"
  defines "opens \<equiv> 5500 < a \<and> \<not> dv_alert d"
  shows "\<exists>w'. store_record os sid kTempMetricId v ts now w = Inr w' \<and>
     sees fd p sid (d\<lparr>dv_average := Some a, dv_alert := dv_alert d \<or> opens\<rparr>) (g, w') \<and>
     outbuf w' p = outbuf w p @ feed_bytes (Feed_Sample ''temp'' sid ts v # (if opens then [Feed_Excursion sid ts a] else []))"
proof -
  have w: "subs_ok w" "p \<in> set (st_subscribers (hub_store w))" "hub_conns w fd \<noteq> None"
    using assms(1) by (simp_all add: sees_def)
  obtain s where s: "hub_subs w p = Some s" "sub_metric s = ''temp''"
    using assms(1) by (auto simp: sees_def)
  obtain st where st: "record_sample sid kTempMetricId v ts (hub_store w) = Inr (a, st)" "average_at st sid kTempMetricId a"
  proof (cases "dv_average d")
    case None
    then show ?thesis
      using that record_sample_first [of "hub_store w" sid kTempMetricId v ts] assms(1)
      by (auto simp: sees_def a_def next_average_def)
  next
    case (Some b)
    then have "small b" using assms(3) by (simp add: view_ok_def)
    then show ?thesis
      using that record_sample_next [of "hub_store w" sid kTempMetricId b v ts] small_in_i32(2) [OF assms(4)] assms(1) Some
      by (auto simp: sees_def a_def next_average_def)
  qed
  have op: "opens_excursion sid kTempMetricId a st = opens"
    using record_sample_frame [OF st(1)] assms(1)
    by (auto simp: opens_excursion_def opens_def sees_def excursion_alert_def kHighThresholdMilli_def)
  have name: "metric_name kTempMetricId = ''temp''" by (simp add: kTempMetricId_def metric_name_0)
  obtain w' where w': "store_record os sid kTempMetricId v ts now w = Inr w'" "subs_ok w'"
    "hub_store w' = recorded_store sid kTempMetricId a ts now st"
    and out: "\<forall>p s. p \<in> set (st_subscribers (hub_store w)) \<longrightarrow> hub_subs w p = Some s \<longrightarrow>
        outbuf w' p = outbuf w p @
          (if ''temp'' = sub_metric s then line_bytes (sample_line ''temp'' sid ts v) else []) @
          (if opens then line_bytes (excursion_line sid ts a) else [])"
    and metric: "\<forall>p. map_option sub_metric (hub_subs w' p) = map_option sub_metric (hub_subs w p)"
    using store_record_delivers [OF w(1) assms(2) st(1), of now] unfolding op name by blast
  have out_p: "outbuf w' p = outbuf w p @ feed_bytes (Feed_Sample ''temp'' sid ts v # (if opens then [Feed_Excursion sid ts a] else []))"
    using out w(2) s by (simp add: feed_bytes_def)
  have k: "keeps w w'" by (rule store_record_keeps [OF w'(1)])
  have alert: "al_active (excursion_alert (hub_store w') sid) \<longleftrightarrow> dv_alert d \<or> opens"
  proof (cases opens)
    case True
    then show ?thesis using recorded_active [of a] w'(3) by (simp add: opens_def kHighThresholdMilli_def)
  next
    case False
    then have "hub_store w' = st" using w'(3) op by (simp add: recorded_store_def)
    then show ?thesis
      using False record_sample_frame [OF st(1)] assms(1) by (simp add: sees_def excursion_alert_def)
  qed
  have metric_p: "\<exists>z. hub_subs w' p = Some z \<and> sub_metric z = ''temp''"
    using metric [rule_format, of p] s by auto
  have conns: "hub_conns w' fd \<noteq> None" using keeps_conn [OF k] w(3) by fastforce
  have subs: "st_subscribers (hub_store w') = st_subscribers (hub_store w)" using k by (simp add: keeps_def)
  have average: "average_at (hub_store w') sid kTempMetricId a" using w'(3) st(2) by simp
  have "sees fd p sid (d\<lparr>dv_average := Some a, dv_alert := dv_alert d \<or> opens\<rparr>) (g, w')"
    using assms(1) w'(2) metric_p average conns subs alert unfolding sees_def by simp
  then show ?thesis using w'(1) out_p by blast
qed

subsection \<open>The server implements the specification\<close>

lemma hello_shows:
  assumes "sees fd p sid d (g, w)" "mod_succeeds os"
  shows "\<exists>g' w'. ing_handle_hello os fd h (g, w) = Inr (g', w') \<and>
     sees fd p sid (d\<lparr>dv_open := True\<rparr>) (g', w') \<and> outbuf w' p = outbuf w p"
proof -
  obtain now k where n: "os_now os (el_kernel w) = (now, k)" by fastforce
  obtain cfg s where cs: "ds_handle_hello h (new_device_session (ing_session_id g) now) = (cfg, s)" by fastforce
  have id: "ds_session_id s = ing_session_id g"
    using cs by (auto simp: ds_handle_hello_def new_device_session_def Let_def)
  let ?w = "w\<lparr>el_kernel := k\<rparr>"
  obtain c where c: "hub_conns ?w fd = Some c" using assms(1) by (auto simp: sees_def)
  have len: "length (config_bytes cfg) \<le> 255" by (simp add: config_wire.length_enc sizeof_defs)
  obtain w1 where w1: "send_frame os fd kConfig (config_bytes cfg) ?w = Inr w1" "hub_store w1 = hub_store w" "hub_subs w1 = hub_subs w"
    using send_frame_ok [OF assms(2) c len, of kConfig] by auto
  have k1: "keeps w w1" by (rule keeps_trans [OF keeps_kernel send_frame_keeps [OF w1(1)]])
  have "hub_conns w1 p = hub_conns w p"
    using send_frame_other [OF w1(1)] assms(1) by (simp add: sees_def)
  moreover have "hub_conns w1 fd \<noteq> None" using keeps_conn [OF k1, of fd c] c by auto
  moreover have "subs_ok w1" using keeps_subs_ok [OF k1] assms(1) by (simp add: sees_def)
  ultimately have "sees fd p sid (d\<lparr>dv_open := True\<rparr>) (g\<lparr>ing_session := Some s\<rparr>, w1) \<and> outbuf w1 p = outbuf w p"
    using assms(1) id w1(2,3) by (simp add: sees_def outbuf_def)
  moreover have "ing_handle_hello os fd h (g, w) = Inr (g\<lparr>ing_session := Some s\<rparr>, w1)"
    using n cs w1(1) by (simp add: ing_handle_hello_def el_now_def)
  ultimately show ?thesis by blast
qed

lemma heartbeat_shows:
  assumes "sees fd p sid d (g, w)"
  shows "\<exists>g' w'. ing_handle_heartbeat os b (g, w) = Inr (g', w') \<and> sees fd p sid d (g', w') \<and> outbuf w' p = outbuf w p"
  using assms
  by (cases "os_now os (el_kernel w)"; cases "ing_session g")
     (auto simp: ing_handle_heartbeat_def el_now_def sees_def note_uptime_def note_activity_def)

lemma reading_shows:
  fixes b :: u16
  assumes "sees fd p sid d (g, w)" "mod_succeeds os" "view_ok d" "small (value_milli rd)"
  defines "r \<equiv> \<lparr>sample_session_id = b, sample_timestamp_ms = timestamp_ms rd, sample_value_milli = value_milli rd,
      sample_metric_id = kTempMetricId\<rparr>"
  shows "\<exists>g' w'. ing_handle_sample os r (g, w) = Inr (g', w') \<and>
     sees fd p sid (snd (show_message sid (Says_Reading b rd) d)) (g', w') \<and>
     outbuf w' p = outbuf w p @ feed_bytes (fst (show_message sid (Says_Reading b rd) d))"
proof (cases "ing_session g")
  case None
  then show ?thesis using assms(1) by (simp add: ing_handle_sample_def sees_def)
next
  case (Some s)
  obtain now k where n: "os_now os (el_kernel w) = (now, k)" by fastforce
  have s: "ds_session_id s = sid" "dv_open d" using Some assms(1) by (simp_all add: sees_def)
  let ?s = "note_uptime (timestamp_ms rd) (note_activity now s)"
  have "sees fd p sid d (g, w\<lparr>el_kernel := k\<rparr>)" using assms(1) by simp
  then obtain w' where w': "store_record os sid kTempMetricId (value_milli rd) (timestamp_ms rd) now (w\<lparr>el_kernel := k\<rparr>) = Inr w'"
    "sees fd p sid (snd (show_message sid (Says_Reading b rd) d)) (g, w')"
    "outbuf w' p = outbuf w p @ feed_bytes (fst (show_message sid (Says_Reading b rd) d))"
    using reading_recorded [OF _ assms(2-4), of fd p sid g "w\<lparr>el_kernel := k\<rparr>" "timestamp_ms rd" now] s(2)
    by (auto simp: Let_def)
  have "sees fd p sid d' (g\<lparr>ing_session := Some ?s\<rparr>, w') = sees fd p sid d' (g, w')" for d'
    using Some s by (simp add: sees_def note_uptime_def note_activity_def)
  moreover have "ing_handle_sample os r (g, w) = Inr (g\<lparr>ing_session := Some ?s\<rparr>, w')"
    using n s Some w'(1) by (simp add: ing_handle_sample_def el_now_def r_def Let_def note_uptime_def note_activity_def)
  ultimately show ?thesis using w'(2,3) by blast
qed

lemma dispatch_shows:
  assumes "sees fd p sid d (g, w)" "mod_succeeds os" "view_ok d" "message_ok m"
  shows "\<exists>g' w'. ing_dispatch os fd (case framed m of (ty, pl) \<Rightarrow> frame_of ty pl) (g, w) = Inr (g', w') \<and>
     sees fd p sid (snd (show_message sid m d)) (g', w') \<and>
     outbuf w' p = outbuf w p @ feed_bytes (fst (show_message sid m d))"
proof (cases m)
  case (Says_Hello h)
  then show ?thesis using hello_shows [OF assms(1,2)] by (simp add: dispatch_simps)
next
  case (Says_Heartbeat b)
  then show ?thesis using heartbeat_shows [OF assms(1)] by (simp add: dispatch_simps)
next
  case (Says_Reading b rd)
  have "small (value_milli rd)" using assms(4) Says_Reading by simp
  then show ?thesis
    using reading_shows [OF assms(1-3), of rd b] small_in_i32(1) Says_Reading
    by (simp add: sample_payload_def dispatch_simps kTempMetricId_def del: show_message.simps)
qed

lemma messages_show:
  assumes "mod_succeeds os"
  shows "sees fd p sid d (g, w) \<Longrightarrow> view_ok d \<Longrightarrow> list_all message_ok ms \<Longrightarrow>
    \<exists>g' w'. fold_res (ing_dispatch os fd) (map (\<lambda>m. case framed m of (ty, pl) \<Rightarrow> frame_of ty pl) ms) (g, w) = Inr (g', w') \<and>
      sees fd p sid (snd (show_messages sid ms d)) (g', w') \<and>
      outbuf w' p = outbuf w p @ feed_bytes (fst (show_messages sid ms d))"
proof (induction ms arbitrary: d g w)
  case (Cons m ms)
  let ?d = "snd (show_message sid m d)"
  have ok: "message_ok m" "list_all message_ok ms" using Cons.prems(3) by simp_all
  obtain g1 w1 where 1: "ing_dispatch os fd (case framed m of (ty, pl) \<Rightarrow> frame_of ty pl) (g, w) = Inr (g1, w1)"
    "sees fd p sid ?d (g1, w1)" "outbuf w1 p = outbuf w p @ feed_bytes (fst (show_message sid m d))"
    using dispatch_shows [OF Cons.prems(1) assms Cons.prems(2) ok(1)] by blast
  have "view_ok ?d" using show_message_ok [OF ok(1) Cons.prems(2)] by simp
  from Cons.IH [OF 1(2) this ok(2)] obtain g2 w2 where
    "fold_res (ing_dispatch os fd) (map (\<lambda>m. case framed m of (ty, pl) \<Rightarrow> frame_of ty pl) ms) (g1, w1) = Inr (g2, w2)"
    "sees fd p sid (snd (show_messages sid ms ?d)) (g2, w2)"
    "outbuf w2 p = outbuf w1 p @ feed_bytes (fst (show_messages sid ms ?d))" by blast
  then show ?case using 1 by (simp add: Let_def case_prod_unfold)
qed simp

subsection \<open>Chunks of the device's stream\<close>

text \<open>The bytes of one read appended to the connection's buffer, then the readable callback.\<close>

definition deliver ::
  "'k os \<Rightarrow> fd \<Rightarrow> u8 list \<Rightarrow> ingest \<times> ('k, 'cb, 'tcb, 'z) hub_scheme
     \<Rightarrow> server_error + ingest \<times> ('k, 'cb, 'tcb, 'z) hub_scheme" where
  "deliver os fd chunk = (\<lambda>(g, w). ing_on_readable os fd (g, w\<lparr>hub_conns := (hub_conns w)(fd :=
     map_option (\<lambda>c. c\<lparr>cn_read_buffer := cn_read_buffer c @ chunk\<rparr>) (hub_conns w fd))\<rparr>))"

definition read_empty :: "fd \<Rightarrow> ('k, 'cb, 'tcb, 'z) hub_scheme \<Rightarrow> bool" where
  "read_empty fd w \<longleftrightarrow> (\<exists>c. hub_conns w fd = Some c \<and> cn_read_buffer c = [])"

lemma on_readable_accepts:
  assumes "parser_ok 255 (ing_parser g)" "hub_conns w fd = Some c" "cn_read_buffer c = bs" "bs \<noteq> []"
    and "arun 255 bs (abs_state (ing_parser g)) = (rs, a)" "fold_res (ing_dispatch os fd) (accepted rs) (g, w) = Inr (g1, w1)"
  shows "\<exists>p'. ing_on_readable os fd (g, w) = Inr (g1\<lparr>ing_parser := p'\<rparr>, drained fd w1) \<and> parser_ok 255 p' \<and> abs_state p' = a"
proof -
  obtain p' where p': "push_bytes 255 (ing_dispatch os fd) bs (ing_parser g) (g, w) = Inr (p', g1, w1)"
    "abs_state p' = a" "parser_ok 255 p'"
    using push_bytes_refines [OF assms(1), of "ing_dispatch os fd" bs "(g, w)"] assms(5,6) by (auto split: sum.splits)
  obtain c' where "hub_conns w1 fd = Some c'" "conn_same c c'"
    using keeps_conn [OF dispatch_all_keeps [OF assms(6)] assms(2)] by blast
  then have "on_conn fd (\<lambda>c k. and_then (consume (length bs) c) (\<lambda>c. Inr (c, k))) w1 = Inr (drained fd w1)"
    using on_conn_consume [of w1 fd c' "length bs"] assms(3) by (simp add: conn_same_def)
  then show ?thesis
    using p' assms(2-4) by (auto simp: ing_on_readable_def kMaxPayloadSize_def Let_def)
qed

lemma sees_buffer:
  "sees fd p sid d (g\<lparr>ing_parser := q\<rparr>, w) = sees fd p sid d (g, w)"
  "sees fd p sid d (g, w\<lparr>hub_conns := (hub_conns w)(fd := map_option f (hub_conns w fd))\<rparr>) = sees fd p sid d (g, w)"
  by (auto simp: sees_def subs_ok_def)

lemma sees_drained [simp]: "sees fd p sid d (g, drained fd w) = sees fd p sid d (g, w)"
  by (simp add: drained_def sees_buffer)

lemma drained_empty: "hub_conns w fd \<noteq> None \<Longrightarrow> read_empty fd (drained fd w)"
  by (auto simp: read_empty_def drained_def)

text \<open>The frames that a prefix of the stream completes are a prefix of the messages.\<close>

lemma accepted_prefix:
  assumes "rs @ rs' = map (\<lambda>m. Inr (f m)) ms"
  shows "\<exists>ms1 ms2. ms = ms1 @ ms2 \<and> accepted rs = map f ms1 \<and> rs' = map (\<lambda>m. Inr (f m)) ms2"
proof -
  obtain us vs where "ms = us @ vs" "rs = map (\<lambda>m. Inr (f m)) us" "rs' = map (\<lambda>m. Inr (f m)) vs"
    using append_eq_map_conv [THEN iffD1, OF assms] by blast
  then show ?thesis by (intro exI [of _ us] exI [of _ vs]) simp
qed

lemma deliver_nothing: "read_empty fd w \<Longrightarrow> deliver os fd [] (g, w) = Inr (g, w)"
  by (auto simp: read_empty_def deliver_def ing_on_readable_def fun_upd_idem)

text \<open>One chunk, which completes the messages \<open>ms\<close>.\<close>

lemma deliver_shows:
  assumes "mod_succeeds os" "sees fd p sid d (g, w)" "view_ok d" "list_all message_ok ms"
    "parser_ok 255 (ing_parser g)" "read_empty fd w"
    and r: "arun 255 bs (abs_state (ing_parser g)) = (rs, a)"
    and acc: "accepted rs = map (\<lambda>m. case framed m of (ty, pl) \<Rightarrow> frame_of ty pl) ms"
  shows "\<exists>g' w'. deliver os fd bs (g, w) = Inr (g', w') \<and> sees fd p sid (snd (show_messages sid ms d)) (g', w') \<and>
      outbuf w' p = outbuf w p @ feed_bytes (fst (show_messages sid ms d)) \<and>
      parser_ok 255 (ing_parser g') \<and> read_empty fd w' \<and> abs_state (ing_parser g') = a"
proof (cases "bs = []")
  case True
  then have "ms = []" "a = abs_state (ing_parser g)" using r acc by auto
  then show ?thesis using True assms(2,5,6) by (simp add: deliver_nothing)
next
  case False
  obtain c where c: "hub_conns w fd = Some c" "cn_read_buffer c = []" using assms(6) by (auto simp: read_empty_def)
  let ?w = "w\<lparr>hub_conns := (hub_conns w)(fd := map_option (\<lambda>c. c\<lparr>cn_read_buffer := cn_read_buffer c @ bs\<rparr>) (hub_conns w fd))\<rparr>"
  have out: "outbuf ?w p = outbuf w p" using assms(2) by (simp add: sees_def outbuf_def)
  have "sees fd p sid d (g, ?w)" using assms(2) by (simp add: sees_buffer)
  from messages_show [OF assms(1) this assms(3,4), folded acc, unfolded out] obtain g1 w1 where
    1: "fold_res (ing_dispatch os fd) (accepted rs) (g, ?w) = Inr (g1, w1)"
      "sees fd p sid (snd (show_messages sid ms d)) (g1, w1)"
      "outbuf w1 p = outbuf w p @ feed_bytes (fst (show_messages sid ms d))"
    by blast
  have "hub_conns ?w fd = Some (c\<lparr>cn_read_buffer := bs\<rparr>)" using c by simp
  from on_readable_accepts [OF assms(5) this _ False r 1(1)] obtain p' where
    "ing_on_readable os fd (g, ?w) = Inr (g1\<lparr>ing_parser := p'\<rparr>, drained fd w1)" "parser_ok 255 p'" "abs_state p' = a"
    by auto
  moreover have "read_empty fd (drained fd w1)" using 1(2) by (simp add: drained_empty sees_def)
  ultimately show ?thesis using 1(2,3) by (simp add: deliver_def sees_buffer)
qed

lemma chunks_show:
  assumes "mod_succeeds os"
  shows "sees fd p sid d (g, w) \<Longrightarrow> view_ok d \<Longrightarrow> list_all message_ok ms \<Longrightarrow>
    parser_ok 255 (ing_parser g) \<Longrightarrow> read_empty fd w \<Longrightarrow>
    arun 255 (concat chunks) (abs_state (ing_parser g)) =
      (map (\<lambda>m. Inr (case framed m of (ty, pl) \<Rightarrow> frame_of ty pl)) ms, a) \<Longrightarrow>
    \<exists>g' w'. fold_res (deliver os fd) chunks (g, w) = Inr (g', w') \<and>
      sees fd p sid (snd (show_messages sid ms d)) (g', w') \<and>
      outbuf w' p = outbuf w p @ feed_bytes (fst (show_messages sid ms d)) \<and>
      parser_ok 255 (ing_parser g') \<and> read_empty fd w' \<and> abs_state (ing_parser g') = a"
proof (induction chunks arbitrary: d g w ms)
  case Nil
  then show ?case by simp
next
  case (Cons bs chunks)
  let ?fr = "\<lambda>m. case framed m of (ty, pl) \<Rightarrow> frame_of ty pl"
  obtain rs a1 where r: "arun 255 bs (abs_state (ing_parser g)) = (rs, a1)" by fastforce
  obtain rs' a2 where r': "arun 255 (concat chunks) a1 = (rs', a2)" by fastforce
  have "rs @ rs' = map (\<lambda>m. Inr (?fr m)) ms" and a2: "a2 = a"
    using Cons.prems(6) r r' by (simp_all add: arun_append)
  then obtain ms1 ms2 where ms: "ms = ms1 @ ms2" "accepted rs = map ?fr ms1" "rs' = map (\<lambda>m. Inr (?fr m)) ms2"
    using accepted_prefix [of rs rs' ?fr ms] by blast
  let ?d = "snd (show_messages sid ms1 d)"
  have ok: "list_all message_ok ms1" "list_all message_ok ms2" using Cons.prems(3) ms(1) by simp_all
  obtain g2 w2 where 2: "deliver os fd bs (g, w) = Inr (g2, w2)" "sees fd p sid ?d (g2, w2)"
    "outbuf w2 p = outbuf w p @ feed_bytes (fst (show_messages sid ms1 d))" "parser_ok 255 (ing_parser g2)"
    "read_empty fd w2" "abs_state (ing_parser g2) = a1"
    using deliver_shows [OF assms Cons.prems(1,2) ok(1) Cons.prems(4,5) r ms(2)] by blast
  have "view_ok ?d" using show_messages_ok [OF ok(1) Cons.prems(2)] by simp
  moreover have "arun 255 (concat chunks) (abs_state (ing_parser g2)) = (map (\<lambda>m. Inr (?fr m)) ms2, a)"
    using 2(6) r' ms(3) a2 by simp
  ultimately obtain g' w' where "fold_res (deliver os fd) chunks (g2, w2) = Inr (g', w')"
    "sees fd p sid (snd (show_messages sid ms2 ?d)) (g', w')"
    "outbuf w' p = outbuf w2 p @ feed_bytes (fst (show_messages sid ms2 ?d))"
    "parser_ok 255 (ing_parser g')" "read_empty fd w'" "abs_state (ing_parser g') = a"
    using Cons.IH [OF 2(2) _ ok(2) 2(4,5)] by blast
  then show ?case
    using 2(1,3) ms(1) by (simp add: show_messages_append Let_def case_prod_unfold)
qed

subsection \<open>What is shown of the readings\<close>

fun is_hello :: "device_message \<Rightarrow> bool" where
  "is_hello (Says_Hello h) = True"
| "is_hello _ = False"

fun readings_of :: "device_message list \<Rightarrow> Reading list" where
  "readings_of [] = []"
| "readings_of (Says_Reading b rd # ms) = rd # readings_of ms"
| "readings_of (m # ms) = readings_of ms"

fun printed_reading :: "client_output \<Rightarrow> (i32 \<times> u32) option" where
  "printed_reading (Printed_Sample m v sid ts) = Some (v, ts)"
| "printed_reading _ = None"

lemma map_filter_of_map: "List.map_filter f (map g xs) = List.map_filter (\<lambda>x. f (g x)) xs"
  by (induction xs) (simp_all add: map_filter_simps split: option.split)

lemma readings_of_append [simp]: "readings_of (ms @ ns) = readings_of ms @ readings_of ns"
  by (induction ms rule: readings_of.induct) simp_all

lemma show_open:
  "dv_open d \<Longrightarrow> List.map_filter (\<lambda>f. printed_reading (feed_printed f)) (fst (show_messages sid ms d)) =
     map (\<lambda>rd. (value_milli rd, timestamp_ms rd)) (readings_of ms)"
proof (induction ms arbitrary: d)
  case (Cons m ms)
  then show ?case
    by (cases m) (simp_all add: Let_def case_prod_unfold map_filter_append map_filter_simps)
qed (simp add: map_filter_simps)

text \<open>Every reading after the HELLO is shown, once and in order; those before it are not.\<close>

lemma show_readings:
  "\<not> dv_open d \<Longrightarrow> List.map_filter (\<lambda>f. printed_reading (feed_printed f)) (fst (show_messages sid ms d)) =
     map (\<lambda>rd. (value_milli rd, timestamp_ms rd)) (readings_of (dropWhile (\<lambda>m. \<not> is_hello m) ms))"
proof (induction ms)
  case (Cons m ms)
  then show ?case
    by (cases m) (simp_all add: Let_def case_prod_unfold map_filter_simps show_open)
qed (simp add: map_filter_simps)

subsection \<open>The node's messages\<close>

lemma step_says:
  assumes "node_step RT B hw s es s'"
  shows "\<exists>ms. map framed ms = all_messages es \<and>
     in_hand (nd_telemetry s) @ received es = readings_of ms @ in_hand (nd_telemetry s')"
  using assms
proof cases
  case sensor
  then have "all_messages es = []"
    by (cases "nd_sensor s") (auto simp: Let_def split: option.splits if_splits)
  then show ?thesis using sensor by (intro exI [of _ "[]"]) (simp add: sensor_frame)
next
  case telemetry
  show ?thesis
  proof (cases "\<exists>rd sid. nd_telemetry s = T_Encode rd sid")
    case True
    then obtain rd sid where "nd_telemetry s = T_Encode rd sid" by blast
    then show ?thesis using telemetry by (intro exI [of _ "[Says_Reading sid rd]"]) (auto simp: Let_def)
  next
    case False
    then show ?thesis
      using telemetry
      by (intro exI [of _ "[]"], cases "(RT, B, nd_telemetry s, s)" rule: telemetry_step.cases)
         (auto split: option.splits if_splits prod.splits)
  qed
next
  case command
  have hand: "in_hand (nd_telemetry s') = in_hand (nd_telemetry s)" "received es = []"
    using command by (simp_all add: command_frame)
  have "all_messages es = [] \<or> (\<exists>h. all_messages es = [(kHello, hello_bytes h)]) \<or>
      (\<exists>b. all_messages es = [(kHeartbeat, heartbeat_bytes b)])"
    using command
    by (cases "(RT, B, nd_command s, s)" rule: command_step.cases)
       (auto simp: Let_def hello_payload_def heartbeat_payload_def
         split: option.splits if_splits prod.splits sending.splits instruction.splits)
  then consider "all_messages es = map framed []" | h where "all_messages es = map framed [Says_Hello h]"
    | b where "all_messages es = map framed [Says_Heartbeat b]" by auto
  then show ?thesis using hand by cases (metis append_Nil append_Nil2 readings_of.simps)+
next
  case tick
  then show ?thesis by (intro exI [of _ "[]"]) simp
next
  case wire
  then show ?thesis by (intro exI [of _ "[]"]) simp
qed

lemma run_says:
  assumes "node_run RT B hw (booted k h m q u) tr s"
  shows "\<exists>ms. map framed ms = all_messages tr \<and> received tr = readings_of ms @ in_hand (nd_telemetry s)"
  using assms
proof (induction rule: node_run.induct)
  case start
  then show ?case by (intro exI [of _ "[]"]) (simp add: booted_def)
next
  case (more tr s es s')
  then obtain ms where "map framed ms = all_messages tr" "received tr = readings_of ms @ in_hand (nd_telemetry s)" by blast
  moreover obtain ns where "map framed ns = all_messages es"
    "in_hand (nd_telemetry s) @ received es = readings_of ns @ in_hand (nd_telemetry s')"
    using step_says [OF more.hyps(2)] by blast
  ultimately show ?case by (intro exI [of _ "ms @ ns"]) simp
qed

text \<open>The messages of a run from main, with readings that are among those sampled.\<close>

lemma node_messages:
  assumes "rtos_ok RT V" "node_run RT B hw (snd (node_main RT B k h c)) tr s"
  shows "\<exists>ms rest. map framed ms = all_messages tr \<and> sampled tr = readings_of ms @ rest \<and> list_all message_ok ms"
proof -
  obtain k' h' m q u where b: "snd (node_main RT B k h c) = booted k' h' m q u"
    using node_main_booted [OF assms(1), of B k h c] by auto
  obtain ms where ms: "map framed ms = all_messages tr" "received tr = readings_of ms @ in_hand (nd_telemetry s)"
    using run_says [OF assms(2) [unfolded b]] by blast
  have inv: "readings_inv V tr s" "values_inv tr s" using main_run_inv [OF assms] by (simp_all add: node_inv_def)
  then obtain rest where rest: "sampled tr = readings_of ms @ rest"
    using ms(2) by (auto simp: readings_inv_def Let_def)
  have "small v" if "v \<in> value_milli ` set (sampled tr)" for v
  proof -
    have "set (map value_milli (sampled tr)) =
        set (map (\<lambda>n. FakeReadingMilli (of_nat n)) [0..<length (sampled tr)])"
      using inv(2) by (simp only: values_inv_def)
    with that have "v \<in> set (map (\<lambda>n. FakeReadingMilli (of_nat n)) [0..<length (sampled tr)])" by simp
    then obtain n where "v = FakeReadingMilli n" by auto
    then show ?thesis by (auto simp: FakeReadingMilli_eq Let_def small_def)
  qed
  then have "\<forall>rd \<in> set (readings_of ms). small (value_milli rd)" using rest by auto
  then have "list_all message_ok ms" by (induction ms rule: readings_of.induct) simp_all
  then show ?thesis using ms(1) rest by blast
qed

subsection \<open>A run in which the node says HELLO and sends a reading\<close>

text \<open>On a UART that is always free, a task writes its frame out undisturbed.\<close>

definition free_bus :: "sim_uart bus" where
  "free_bus = sim_bus CMSDK_UART0_BASE 0"

lemma free_bus_steps [simp]:
  "su_busy h = 0 \<Longrightarrow> tx_full free_bus CMSDK_UART0_BASE h = (False, h)"
  "su_busy h = 0 \<Longrightarrow> tx_put free_bus CMSDK_UART0_BASE b h = h\<lparr>su_sent := su_sent h @ [b]\<rparr>"
  by (simp_all add: free_bus_def sim_bus_def tx_full_def tx_put_def sim_read_def sim_write_def TXBF_Msk_def bit_simps)

lemma command_writes:
  "exclusive_run sim_rtos free_bus hw s0 tr s \<Longrightarrow> nd_command s = C_Poll m bs \<Longrightarrow> t_left (nd_telemetry s) = [] \<Longrightarrow>
   su_busy (nd_hw s) = 0 \<Longrightarrow> pl_uart (nd_pipeline s) = CMSDK_UART0_BASE \<Longrightarrow>
   exclusive_run sim_rtos free_bus hw s0 (tr @ map (Put Command) bs)
     (s\<lparr>nd_command := C_Poll m [], nd_hw := (nd_hw s)\<lparr>su_sent := su_sent (nd_hw s) @ bs\<rparr>\<rparr>)"
proof (induction bs arbitrary: tr s)
  case Nil
  then show ?case by (cases s) simp
next
  case (Cons b bs)
  let ?s1 = "s\<lparr>nd_command := C_Put m b bs\<rparr>"
  let ?s2 = "s\<lparr>nd_command := C_Poll m bs, nd_hw := (nd_hw s)\<lparr>su_sent := su_sent (nd_hw s) @ [b]\<rparr>\<rparr>"
  have "node_step sim_rtos free_bus hw s [] ?s1"
    by (rule node_step.command) (use Cons.prems in \<open>simp\<close>)
  from ex_more [OF Cons.prems(1) this] have r1: "exclusive_run sim_rtos free_bus hw s0 tr ?s1"
    using Cons.prems(3) by (simp add: both_writing_def)
  have "node_step sim_rtos free_bus hw ?s1 [Put Command b] ?s2"
    by (rule node_step.command) (use Cons.prems in \<open>simp\<close>)
  from ex_more [OF r1 this] have "exclusive_run sim_rtos free_bus hw s0 (tr @ [Put Command b]) ?s2"
    using Cons.prems(3) by (simp add: both_writing_def)
  from Cons.IH [OF this] show ?case using Cons.prems by simp
qed

lemma telemetry_writes:
  "exclusive_run sim_rtos free_bus hw s0 tr s \<Longrightarrow> nd_telemetry s = T_Poll bs \<Longrightarrow> c_left (nd_command s) = [] \<Longrightarrow>
   su_busy (nd_hw s) = 0 \<Longrightarrow> pl_uart (nd_pipeline s) = CMSDK_UART0_BASE \<Longrightarrow>
   exclusive_run sim_rtos free_bus hw s0 (tr @ map (Put Telemetry) bs)
     (s\<lparr>nd_telemetry := T_Poll [], nd_hw := (nd_hw s)\<lparr>su_sent := su_sent (nd_hw s) @ bs\<rparr>\<rparr>)"
proof (induction bs arbitrary: tr s)
  case Nil
  then show ?case by (cases s) simp
next
  case (Cons b bs)
  let ?s1 = "s\<lparr>nd_telemetry := T_Put b bs\<rparr>"
  let ?s2 = "s\<lparr>nd_telemetry := T_Poll bs, nd_hw := (nd_hw s)\<lparr>su_sent := su_sent (nd_hw s) @ [b]\<rparr>\<rparr>"
  have "node_step sim_rtos free_bus hw s [] ?s1"
    by (rule node_step.telemetry) (use Cons.prems in \<open>simp\<close>)
  from ex_more [OF Cons.prems(1) this] have r1: "exclusive_run sim_rtos free_bus hw s0 tr ?s1"
    using Cons.prems(3) by (simp add: both_writing_def)
  have "node_step sim_rtos free_bus hw ?s1 [Put Telemetry b] ?s2"
    by (rule node_step.telemetry) (use Cons.prems in \<open>simp\<close>)
  from ex_more [OF r1 this] have "exclusive_run sim_rtos free_bus hw s0 (tr @ [Put Telemetry b]) ?s2"
    using Cons.prems(3) by (simp add: both_writing_def)
  from Cons.IH [OF this] show ?case using Cons.prems by simp
qed

lemma puts_quiet: "sampled (map (Put t) bs) = []" "all_messages (map (Put t) bs) = []"
  by (induction bs) (simp_all add: sampled_def all_messages_def map_filter_simps)

lemma events_Cons:
  "sampled (e # es) = (case e of Sampled rd \<Rightarrow> [rd] | _ \<Rightarrow> []) @ sampled es"
  "all_messages (e # es) = (case e of Sends t ty pl \<Rightarrow> [(ty, pl)] | _ \<Rightarrow> []) @ all_messages es"
  by (cases e; simp add: sampled_def all_messages_def map_filter_simps)+

lemma hello_then_reading:
  "\<exists>tr s. exclusive_run sim_rtos free_bus (=) (snd (node_main sim_rtos free_bus sim_kernel0 sim_uart0 [])) tr s \<and>
     t_left (nd_telemetry s) = [] \<and> c_left (nd_command s) = [] \<and> sampled tr = [\<lparr>value_milli = 1000, timestamp_ms = 0\<rparr>] \<and>
     map fst (all_messages tr) = [kHello, kSample]"
proof -
  let ?s0 = "booted (sim_kernel0\<lparr>sk_length := 8\<rparr>) sim_uart0 1 0 CMSDK_UART0_BASE"
  let ?hello = "hello_payload (nd_pipeline ?s0)"
  let ?rd = "\<lparr>value_milli = 1000, timestamp_ms = 0\<rparr>"
  let ?run = "exclusive_run sim_rtos free_bus (=) ?s0"
  have s0: "snd (node_main sim_rtos free_bus sim_kernel0 sim_uart0 []) = ?s0"
    by (simp add: node_main_def Pipeline_new_def Mutex_new_def Queue_new_def Task_new_def UartCmsdk_def
      booted_def free_bus_def sim_defs fun_upd_idem)
  let ?s1 = "?s0\<lparr>nd_command := C_Poll Hello (message_frame kHello ?hello)\<rparr>"
  let ?s2 = "?s0\<lparr>nd_command := C_Poll Hello [], nd_hw := (nd_hw ?s0)\<lparr>su_sent := message_frame kHello ?hello\<rparr>\<rparr>"
  have "exclusive_schedule sim_rtos free_bus [Run Command] ?s0 = Some ([Sends Command kHello ?hello], ?s1)"
    by (simp add: booted_def both_writing_def Let_def)
  from exclusive_schedule_run [OF this ex_start] have "?run [Sends Command kHello ?hello] ?s1" by simp
  from command_writes [OF this]
  have r2: "?run (Sends Command kHello ?hello # map (Put Command) (message_frame kHello ?hello)) ?s2"
    by (simp add: booted_def sim_uart0_def)
  obtain s3 where s3: "exclusive_schedule sim_rtos free_bus
      [Run Sensor, Run Sensor, Run Sensor, Run Sensor, Run Sensor, Run Telemetry, Run Telemetry, Run Telemetry, Run Telemetry, Run Telemetry] ?s2 =
      Some ([Sampled ?rd, Received ?rd, Sends Telemetry kSample (sample_payload 0 ?rd)], s3)"
    "nd_telemetry s3 = T_Poll (message_frame kSample (sample_payload 0 ?rd))" "c_left (nd_command s3) = []"
    "su_busy (nd_hw s3) = 0" "pl_uart (nd_pipeline s3) = CMSDK_UART0_BASE"
    by (simp add: booted_def both_writing_def sim_defs)
  note telemetry_writes [OF exclusive_schedule_run [OF s3(1) r2] s3(2-5)]
  then show ?thesis unfolding s0
    by (intro exI conjI, assumption) (simp_all add: puts_quiet events_Cons s3(3))
qed

subsection \<open>Streams of frames, and a server for them\<close>

lemma framed_short: "length (snd (framed m)) \<le> 255"
  by (cases m) (auto simp: hello_wire.length_enc heartbeat_wire.length_enc sizeof_defs)

lemma framed_stream:
  assumes "fp_state p = kHunting" "bs = concat (map (\<lambda>m. case framed m of (ty, pl) \<Rightarrow> message_frame ty pl) ms)"
  shows "arun 255 bs (abs_state p) = (map (\<lambda>m. Inr (case framed m of (ty, pl) \<Rightarrow> frame_of ty pl)) ms, Hunting)"
proof -
  have short: "\<forall>(ty, pl) \<in> set (map framed ms). length pl \<le> 255"
    using framed_short by (simp add: case_prod_unfold)
  have "bs = concat (map (\<lambda>(ty, pl). wire_frame ty pl) (map framed ms))"
    using frames_bytes_wire [OF short] assms(2) by (simp add: frames_bytes_def comp_def)
  then show ?thesis
    using arun_wire_frames [of "map framed ms" 255] short assms(1)
    by (simp add: abs_state_hunting [THEN iffD2] comp_def case_prod_unfold)
qed

lemma client_shows_feed_bytes:
  assumes "list_all message_ok ms" "view_ok d"
  shows "cl_out (client_receive (feed_bytes (fst (show_messages sid ms d))) new_client) =
     map feed_printed (fst (show_messages sid ms d))"
  using client_shows_lines show_messages_ok [OF assms] by (simp add: feed_bytes_def)

lemma exclusive_puts:
  assumes "rtos_ok RT V" "uart_ok B CMSDK_UART0_BASE U" "idle_ok U hw"
    "exclusive_run RT B hw (snd (node_main RT B k h c)) tr s"
  shows "puts tr @ t_left (nd_telemetry s) @ c_left (nd_command s) = frames_bytes (all_messages tr)"
proof -
  obtain k' h' m q where b: "snd (node_main RT B k h c) = booted k' h' m q CMSDK_UART0_BASE"
    using node_main_booted [OF assms(1), of B k h c] by auto
  show ?thesis using exclusive_wire_inv [OF assms(2,3) assms(4) [unfolded b]] by (simp add: wire_inv_def)
qed

lemma new_ingest_ok: "parser_ok 255 (ing_parser (new_ingest sid))" "fp_state (ing_parser (new_ingest sid)) = kHunting"
  using new_parser_ok [of kMaxPayloadSize] by (simp_all add: new_ingest_def kMaxPayloadSize_def new_frame_parser_def)

definition device_hub :: "(int, unit, unit) hub" where
  "device_hub = one_subscriber_hub\<lparr>hub_conns := [7 \<mapsto> new_connection 7, 4 \<mapsto> new_connection 4]\<rparr>"

lemma device_hub_sees:
  "sees 4 7 3 \<lparr>dv_open = False, dv_average = None, dv_alert = False\<rparr> (new_ingest 3, device_hub)"
  by (simp add: sees_def device_hub_def one_subscriber_hub_def subs_ok_def new_ingest_def empty_store_def
      excursion_alert_def no_alert_def)

lemma device_hub_read_empty: "read_empty 4 device_hub"
  by (simp add: read_empty_def device_hub_def new_connection_def)

lemma device_hub_out: "outbuf device_hub 7 = []"
  by (simp add: device_hub_def outbuf_def new_connection_def)

lemma free_bus_ok: "uart_ok free_bus CMSDK_UART0_BASE sim_view"
  by (simp add: free_bus_def sim_uart_ok)

lemma hello_sample_shape:
  assumes "map (fst \<circ> framed) ms = [kHello, kSample]"
  obtains h b rd where "ms = [Says_Hello h, Says_Reading b rd]"
proof -
  obtain m n where ms: "ms = [m, n]" "fst (framed m) = kHello" "fst (framed n) = kSample"
    using assms by (auto simp: map_eq_Cons_conv)
  then show thesis using that by (cases m; cases n) (auto simp: message_type_defs)
qed

end
