(* ===== verification/Outages.thy ===== *)
theory Outages
  imports Telemetry Server_Steps
begin

section \<open>From a silent device to the dashboard\<close>

text \<open>
  What one run of the server's housekeeping tells the subscribers. The devices that are gone and had a session
  are its outages; each opens an alert unless one is open for its session already, and the new alerts are
  sent to every subscriber that stays, in the order of the devices.
\<close>

subsection \<open>Outages and the alerts they open\<close>

definition outage :: "time_point \<Rightarrow> 'k server \<Rightarrow> fd \<Rightarrow> (u16 \<times> u32) list" where
  "outage now w fd =
     (if device_gone now w fd then
        case Option.bind (map_of (srv_devices w) fd) ing_session of
          None \<Rightarrow> [] | Some s \<Rightarrow> [(ds_session_id s, ds_last_uptime_ms s)]
      else [])"

definition outages :: "time_point \<Rightarrow> 'k server \<Rightarrow> (u16 \<times> u32) list" where
  "outages now w = concat (map (outage now w) (map fst (srv_devices w)))"

definition offline_at :: "('k, 'cb, 'tcb, 'z) hub_scheme \<Rightarrow> u16 \<Rightarrow> bool" where
  "offline_at w sid = al_active (offline_alert (hub_store w) sid)"

fun offline_feed :: "(u16 \<Rightarrow> bool) \<Rightarrow> (u16 \<times> u32) list \<Rightarrow> feed_line list" where
  "offline_feed known [] = []"
| "offline_feed known ((sid, ts) # outs) =
     (if known sid then offline_feed known outs else Feed_Offline sid ts # offline_feed (known(sid := True)) outs)"

definition opened :: "(u16 \<Rightarrow> bool) \<Rightarrow> (u16 \<times> u32) list \<Rightarrow> u16 \<Rightarrow> bool" where
  "opened known outs sid \<longleftrightarrow> known sid \<or> sid \<in> fst ` set outs"

lemma opened_simps [simp]:
  "opened known [] = known" "opened known ((sid, ts) # outs) = opened (known(sid := True)) outs"
  "opened (opened known outs) outs' = opened known (outs @ outs')"
  by (auto simp: opened_def fun_eq_iff)

lemma offline_feed_append: "offline_feed known (outs @ outs') = offline_feed known outs @ offline_feed (opened known outs) outs'"
proof (induction known outs rule: offline_feed.induct)
  case (2 known sid ts outs)
  have "known(sid := True) = known" if "known sid" using that by (simp add: fun_upd_idem)
  then show ?case using 2 by (auto simp: fun_upd_def)
qed simp

lemma offline_feed_ok: "\<forall>f \<in> set (offline_feed known outs). feed_ok f"
  by (induction known outs rule: offline_feed.induct) (auto simp: fun_upd_def)

text \<open>Outages of different sessions without an open alert are all told.\<close>

lemma offline_feed_fresh:
  "distinct (map fst outs) \<Longrightarrow> \<forall>sid \<in> fst ` set outs. \<not> known sid \<Longrightarrow>
   offline_feed known outs = map (\<lambda>(sid, ts). Feed_Offline sid ts) outs"
proof (induction known outs rule: offline_feed.induct)
  case (2 known sid ts outs)
  then have "\<forall>s \<in> fst ` set outs. \<not> (known(sid := True)) s" by auto
  then show ?case using 2 by (simp add: fun_upd_def)
qed simp

subsection \<open>One device\<close>

lemma latch_offline_delivers:
  assumes "subs_ok w" "mod_succeeds os" "latch_offline os sid ts now w = Inr w'" "p \<in> set (st_subscribers (hub_store w))"
  shows "outbuf w' p = outbuf w p @ feed_bytes (offline_feed (offline_at w) [(sid, ts)]) \<and>
     offline_at w' = opened (offline_at w) [(sid, ts)]"
proof (cases "offline_at w sid")
  case True
  then have "w' = w" using assms(3) by (simp add: latch_offline_def offline_at_def alert_lookup Let_def)
  then show ?thesis using True by (auto simp: fun_upd_idem)
next
  case False
  have "offline_at w' = opened (offline_at w) [(sid, ts)]"
    using latch_offline_store [OF assms(3)] False by (auto simp: offline_at_def alert_lookup fun_eq_iff)
  let ?w = "w\<lparr>hub_store := set_alerts sid ((alerts_at (hub_store w) sid)\<lparr>da_offline :=
      \<lparr>al_active = True, al_value_milli = 0, al_timestamp_ms = ts, al_triggered_at = now\<rparr>\<rparr>) (hub_store w)\<rparr>"
  have "subs_ok ?w" using assms(1) by (simp add: subs_ok_def)
  moreover have "fan_out (publish_offline_alert os sid ts) ?w = Inr w'"
    using assms(3) False by (simp add: latch_offline_def notify_offline_def offline_at_def alert_lookup Let_def)
  ultimately have d: "delivered (\<lambda>s. line_bytes (offline_line sid ts)) (\<lambda>s. s) (st_subscribers (hub_store w)) ?w w'"
    using fan_out_delivered [OF alerts_deliver(2) [OF assms(2), of sid ts], of ?w] by auto
  obtain s where "hub_subs w p = Some s" using assms(1,4) by (auto simp: subs_ok_def)
  then have "outbuf w' p = outbuf w p @ line_bytes (offline_line sid ts)"
    using d assms(4) by (simp add: delivered_def outbuf_def)
  then show ?thesis
    using \<open>offline_at w' = _\<close> False by (simp add: feed_bytes_def)
qed

lemma send_frame_store: "send_frame os fd ty pl w = Inr w' \<Longrightarrow> hub_store w' = hub_store w"
  by (auto simp: send_frame_def on_conn_def and_then_Inr split: option.splits)

lemma sweep_device_tells:
  assumes "srv_ok w" "mod_succeeds os" "sweep_device os now b fd w = Inr w'" "p \<in> set (srv_subscribers w)"
  shows "outbuf w' p = outbuf w p @ feed_bytes (offline_feed (offline_at w) (outage now w fd)) \<and>
     offline_at w' = opened (offline_at w) (outage now w fd)"
proof -
  obtain g c where gc: "map_of (srv_devices w) fd = Some g" "hub_conns w fd = Some c"
    using assms(3) by (auto simp: sweep_device_def split: option.splits)
  then have "fd \<in> fst ` set (srv_devices w)" by (metis map_of_eq_None_iff option.distinct(1))
  then have p: "p \<noteq> fd" "p \<in> set (st_subscribers (hub_store w))"
    using assms(1,4) unfolding srv_ok_def links_def by auto
  show ?thesis
  proof (cases "device_gone now w fd")
    case True
    obtain w1 where w1: "(case ing_session g of None \<Rightarrow> Inr w
        | Some s \<Rightarrow> latch_offline os (ds_session_id s) (ds_last_uptime_ms s) now w) = Inr w1"
      "destroy_connection os fd (w1\<lparr>srv_devices := AList.delete fd (srv_devices w1)\<rparr>) = Inr w'"
      using assms(3) gc True by (auto simp: sweep_device_def device_gone_def Let_def and_then_Inr)
    have "outbuf w' p = outbuf w1 p" "offline_at w' = offline_at w1"
      using destroy_connection_ok(2) [OF w1(2)] p(1) by (auto simp: outbuf_def offline_at_def fun_eq_iff)
    moreover have "outbuf w1 p = outbuf w p @ feed_bytes (offline_feed (offline_at w) (outage now w fd)) \<and>
        offline_at w1 = opened (offline_at w) (outage now w fd)"
      using w1(1) latch_offline_delivers [OF srv_ok_subs [OF assms(1)] assms(2) _ p(2)] True gc
      by (cases "ing_session g") (auto simp: outage_def)
    ultimately show ?thesis by simp
  next
    case False
    then have none: "outage now w fd = []" by (simp add: outage_def)
    show ?thesis
    proof (cases "\<exists>s. ing_session g = Some s \<and> b")
      case True
      then obtain s where s: "ing_session g = Some s" "b" by blast
      then obtain pl w1 where w1: "send_frame os fd kSlowDown pl w = Inr w1"
        and w': "hub_conns w' = hub_conns w1" "hub_store w' = hub_store w1"
        using assms(3) gc False
        by (auto simp: sweep_device_def device_gone_def send_slow_down_def Let_def and_then_Inr split: prod.splits)
      then show ?thesis
        using none send_frame_other [OF w1 p(1)] send_frame_store [OF w1]
        by (simp add: outbuf_def offline_at_def fun_eq_iff)
    next
      case no: False
      then have "w' = w"
        using assms(3) gc False by (auto simp: sweep_device_def device_gone_def Let_def split: option.splits)
      then show ?thesis using none by simp
    qed
  qed
qed

subsection \<open>All devices\<close>

lemma others_same_outage: "others_same fd w w' \<Longrightarrow> q \<noteq> fd \<Longrightarrow> outage now w' q = outage now w q"
  using others_same_gone(1) [of fd w w' q now] by (simp add: outage_def others_same_def)

lemma sweep_devices_tell:
  assumes "mod_succeeds os"
  shows "srv_ok w \<Longrightarrow> distinct fds \<Longrightarrow> set fds \<subseteq> fst ` set (srv_devices w) \<Longrightarrow> p \<in> set (srv_subscribers w) \<Longrightarrow>
    fold_res (sweep_device os now b) fds w = Inr w' \<Longrightarrow>
    (let outs = concat (map (outage now w) fds) in
     outbuf w' p = outbuf w p @ feed_bytes (offline_feed (offline_at w) outs) \<and>
     offline_at w' = opened (offline_at w) outs)"
proof (induction fds arbitrary: w)
  case (Cons fd fds)
  obtain w1 where w1: "sweep_device os now b fd w = Inr w1" "fold_res (sweep_device os now b) fds w1 = Inr w'"
    using Cons.prems(5) by (auto simp: and_then_Inr)
  note one = sweep_device_tells [OF Cons.prems(1) assms w1(1) Cons.prems(4)]
  have e: "others_same fd w w1" "srv_subscribers w1 = srv_subscribers w" using sweep_device_effect [OF w1(1)] by auto
  have "map (outage now w1) fds = map (outage now w) fds"
    using others_same_outage [OF e(1)] Cons.prems(2) by (intro map_cong refl) (metis distinct.simps(2))
  then show ?case
    using Cons.IH [of w1] sweep_device_ok [OF Cons.prems(1-3)] w1 Cons.prems(4) e(2) one
    by (simp add: Let_def offline_feed_append cong: map_cong)
qed (simp add: feed_bytes_def)

text \<open>The sweep over the subscribers sends nothing and keeps the alerts.\<close>

lemma sweep_subscriber_quiet:
  assumes "sweep_subscriber os fd (b, w) = Inr (b', w')" "\<not> subscriber_gone w p"
  shows "\<not> subscriber_gone w' p \<and> outbuf w' p = outbuf w p \<and> offline_at w' = offline_at w"
proof (cases "subscriber_gone w fd")
  case True
  then have p: "p \<noteq> fd" using assms(2) by blast
  obtain c where c: "hub_conns w fd = Some c" "cn_closed c"
    using assms(1) True by (auto simp: sweep_subscriber_def subscriber_gone_def split: option.splits)
  then have "destroy_connection os fd ((remove_subscriber fd w)\<lparr>srv_subscribers := filter (\<lambda>q. q \<noteq> fd) (srv_subscribers w),
        hub_subs := (hub_subs w)(fd := None)\<rparr>) = Inr w'"
    using assms(1) by (auto simp: sweep_subscriber_def Let_def and_then_Inr remove_subscriber_def)
  then show ?thesis
    using destroy_connection_ok(2) p assms(2)
    by (fastforce simp: remove_subscriber_def subscriber_gone_def outbuf_def offline_at_def offline_alert_def)
next
  case False
  then have "w' = w" using assms(1) by (auto simp: sweep_subscriber_def subscriber_gone_def split: option.splits)
  then show ?thesis using assms(2) by simp
qed

lemma sweep_subscribers_quiet:
  assumes "fold_res (sweep_subscriber os) fds (b, w) = Inr (b', w')" "\<not> subscriber_gone w p"
  shows "outbuf w' p = outbuf w p \<and> offline_at w' = offline_at w"
proof -
  have "\<not> subscriber_gone (snd (b', w')) p \<and> outbuf (snd (b', w')) p = outbuf w p \<and> offline_at (snd (b', w')) = offline_at w"
    by (rule fold_res_invariant [OF assms(1)])
      (use assms(2) sweep_subscriber_quiet in \<open>fastforce split: prod.splits\<close>)+
  then show ?thesis by simp
qed

lemma housekeeping_tells:
  assumes "srv_ok w" "mod_succeeds os" "housekeeping os w = Inr w'" "os_now os (el_kernel w) = (now, k)"
    "p \<in> set (srv_subscribers w)" "\<not> subscriber_gone w p"
  shows "outbuf w' p = outbuf w p @ feed_bytes (offline_feed (offline_at w) (outages now w)) \<and>
     offline_at w' = opened (offline_at w) (outages now w)"
proof -
  let ?w = "w\<lparr>el_kernel := k\<rparr>"
  obtain b w1 w2 where run: "fold_res (sweep_subscriber os) (srv_subscribers ?w) (False, ?w) = Inr (b, w1)"
    "fold_res (sweep_device os now b) (map fst (srv_devices w1)) w1 = Inr w2"
    "w' = add_timer os kHousekeepingInterval Tcb_Housekeeping w2"
    using assms(3,4) by (auto simp: housekeeping_def el_now_def and_then_Inr)
  note subs = sweep_subscribers [OF run(1), of now]
  have gone: "device_gone now ?w = device_gone now w" by (auto simp: device_gone_def fun_eq_iff)
  have q: "q \<notin> set (srv_subscribers w)" if "q \<in> fst ` set (srv_devices w)" for q
    using assms(1) that unfolding srv_ok_def links_def by blast
  have 1: "srv_devices w1 = srv_devices w" "p \<in> set (srv_subscribers w1)"
    "\<And>q. q \<notin> set (srv_subscribers w) \<Longrightarrow> device_gone now w1 q = device_gone now w q"
    using subs srv_ok_distinct [OF assms(1)] gone assms(5,6) by (auto simp: subscriber_gone_def)
  have outs: "concat (map (outage now w1) (map fst (srv_devices w1))) = outages now w"
    unfolding outages_def 1(1) using 1 q by (intro arg_cong [of _ _ concat] map_cong refl) (auto simp: outage_def)
  have quiet: "outbuf w1 p = outbuf w p" "offline_at w1 = offline_at w"
    using sweep_subscribers_quiet [OF run(1), of p] assms(6)
    by (auto simp: subscriber_gone_def offline_at_def fun_eq_iff)
  have ok1: "srv_ok w1" using sweep_subscribers_ok [of ?w os False] assms(1) run(1) by auto
  then have "distinct (map fst (srv_devices w1))" by (simp add: srv_ok_def)
  then have "outbuf w2 p = outbuf w p @ feed_bytes (offline_feed (offline_at w) (outages now w)) \<and>
      offline_at w2 = opened (offline_at w) (outages now w)"
    using sweep_devices_tell [OF assms(2) ok1 _ _ 1(2) run(2)] outs quiet by (simp add: Let_def)
  then show ?thesis
    using run(3) by (simp add: add_timer_def el_now_def outbuf_def offline_at_def fun_eq_iff split: prod.split)
qed

subsection \<open>Housekeeping completes\<close>

text \<open>With a kernel that refuses no change of registration, housekeeping of a well-formed server returns.\<close>

definition ctl_succeeds :: "'k os \<Rightarrow> bool" where
  "ctl_succeeds os \<longleftrightarrow> (\<forall>op fd ev k. \<exists>k'. os_epoll_ctl os op fd ev k = (Inr (), k'))"

lemma ctl_mod_succeeds: "ctl_succeeds os \<Longrightarrow> mod_succeeds os"
  by (simp add: ctl_succeeds_def mod_succeeds_def)

lemma destroy_connection_succeeds: "ctl_succeeds os \<Longrightarrow> \<exists>w'. destroy_connection os fd w = Inr w'"
proof -
  assume "ctl_succeeds os"
  then obtain k where "os_epoll_ctl os EPOLL_CTL_DEL fd 0 (el_kernel w) = (Inr (), k)" unfolding ctl_succeeds_def by blast
  then show ?thesis by (simp add: destroy_connection_def el_remove_def el_epoll_ctl_def)
qed

lemma sweep_subscriber_succeeds:
  "ctl_succeeds os \<Longrightarrow> hub_conns w fd \<noteq> None \<Longrightarrow> \<exists>r. sweep_subscriber os fd (b, w) = Inr r"
  using destroy_connection_succeeds [of os fd "(remove_subscriber fd w)\<lparr>srv_subscribers :=
      filter (\<lambda>q. q \<noteq> fd) (srv_subscribers w), hub_subs := (hub_subs w)(fd := None)\<rparr>"]
  by (auto simp: sweep_subscriber_def Let_def remove_subscriber_def)

lemma latch_offline_succeeds: "mod_succeeds os \<Longrightarrow> subs_ok w \<Longrightarrow> \<exists>w'. latch_offline os sid ts now w = Inr w'"
proof -
  let ?w = "w\<lparr>hub_store := set_alerts sid ((alerts_at (hub_store w) sid)\<lparr>da_offline :=
      \<lparr>al_active = True, al_value_milli = 0, al_timestamp_ms = ts, al_triggered_at = now\<rparr>\<rparr>) (hub_store w)\<rparr>"
  assume os: "mod_succeeds os" and "subs_ok w"
  then have "subs_ok ?w" by (simp add: subs_ok_def)
  then obtain w' where "fan_out (publish_offline_alert os sid ts) ?w = Inr w'"
    using fan_out_delivered [OF alerts_deliver(2) [OF os, of sid ts], of ?w] by auto
  then show ?thesis by (simp add: latch_offline_def notify_offline_def Let_def)
qed

lemma sweep_device_succeeds:
  assumes "ctl_succeeds os" "srv_ok w" "fd \<in> fst ` set (srv_devices w)"
  shows "\<exists>w'. sweep_device os now b fd w = Inr w'"
proof -
  obtain g c where gc: "map_of (srv_devices w) fd = Some g" "hub_conns w fd = Some c"
    using srv_ok_has_conn [OF assms(2)] assms(3) by (metis UnCI map_of_eq_None_iff option.exhaust)
  have m: "mod_succeeds os" by (rule ctl_mod_succeeds [OF assms(1)])
  obtain w1 where w1: "(case ing_session g of None \<Rightarrow> Inr w
      | Some s \<Rightarrow> latch_offline os (ds_session_id s) (ds_last_uptime_ms s) now w) = Inr w1"
    using latch_offline_succeeds [OF m srv_ok_subs [OF assms(2)]] by (cases "ing_session g") fastforce+
  obtain w2 where w2: "destroy_connection os fd (w1\<lparr>srv_devices := AList.delete fd (srv_devices w1)\<rparr>) = Inr w2"
    using destroy_connection_succeeds [OF assms(1)] by blast
  have slow: "\<exists>g' w'. send_slow_down os fd rate (g, w) = Inr (g', w')" for rate
  proof (cases "ing_session g")
    case (Some s)
    obtain pl s' where pl: "slow_down rate s = (pl, s')" by fastforce
    have "length (slow_down_bytes pl) \<le> 255" by (simp add: slow_down_wire.length_enc sizeof_defs)
    then obtain w1 where "send_frame os fd kSlowDown (slow_down_bytes pl) w = Inr w1"
      using send_frame_ok [OF m gc(2)] by blast
    then show ?thesis using Some pl by (simp add: send_slow_down_def)
  qed (simp add: send_slow_down_def)
  show ?thesis
  proof (cases "ing_session g")
    case None
    then show ?thesis using gc w1 w2 by (simp add: sweep_device_def Let_def)
  next
    case (Some s)
    then show ?thesis
      using gc w1 w2 slow [of "slower_rate (ds_current_rate_hz s)"] by (auto simp: sweep_device_def Let_def)
  qed
qed

lemma sweep_completes:
  assumes "\<And>x xs s. P (x # xs) s \<Longrightarrow> \<exists>s'. f x s = Inr s' \<and> P xs s'"
  shows "P xs s \<Longrightarrow> \<exists>s'. fold_res f xs s = Inr s' \<and> P [] s'"
proof (induction xs arbitrary: s)
  case (Cons x xs)
  then show ?case using assms [OF Cons.prems] by fastforce
qed simp

lemma housekeeping_completes:
  assumes "ctl_succeeds os" "srv_ok w"
  shows "\<exists>w'. housekeeping os w = Inr w'"
proof -
  obtain now w0 where w0: "el_now os w = (now, w0)" by fastforce
  then have ok0: "srv_ok w0" using assms(2) by (auto simp: el_now_def split: prod.splits)
  let ?P = "\<lambda>fds (b :: bool, w). srv_ok w \<and> distinct fds \<and> set fds \<subseteq> set (srv_subscribers w)"
  let ?Q = "\<lambda>fds w. srv_ok w \<and> distinct fds \<and> set fds \<subseteq> fst ` set (srv_devices w)"
  have "\<exists>s'. sweep_subscriber os fd s = Inr s' \<and> ?P fds s'" if "?P (fd # fds) s" for fd fds s
  proof -
    obtain b v where s: "s = (b, v)" by fastforce
    then have v: "srv_ok v" "distinct (fd # fds)" "set (fd # fds) \<subseteq> set (srv_subscribers v)" using that by simp_all
    then have "hub_conns v fd \<noteq> None" using srv_ok_has_conn [of v fd] by auto
    then obtain b' v' where "sweep_subscriber os fd (b, v) = Inr (b', v')"
      using sweep_subscriber_succeeds [OF assms(1)] by fastforce
    then show ?thesis using s sweep_subscriber_ok [OF v] by auto
  qed
  from sweep_completes [where P = ?P and f = "sweep_subscriber os" and xs = "srv_subscribers w0" and s = "(False, w0)", OF this]
  obtain b w1 where 1: "fold_res (sweep_subscriber os) (srv_subscribers w0) (False, w0) = Inr (b, w1)" "srv_ok w1"
    using ok0 srv_ok_distinct [OF ok0] by auto
  have "\<exists>s'. sweep_device os now b fd s = Inr s' \<and> ?Q fds s'" if "?Q (fd # fds) s" for fd fds s
  proof -
    have v: "srv_ok s" "distinct (fd # fds)" "set (fd # fds) \<subseteq> fst ` set (srv_devices s)" using that by simp_all
    then obtain s' where "sweep_device os now b fd s = Inr s'" using sweep_device_succeeds [OF assms(1)] by fastforce
    then show ?thesis using sweep_device_ok [OF v] by blast
  qed
  from sweep_completes [where P = ?Q and f = "sweep_device os now b" and xs = "map fst (srv_devices w1)" and s = w1, OF this]
  obtain w2 where "fold_res (sweep_device os now b) (map fst (srv_devices w1)) w1 = Inr w2"
    using 1(2) by (auto simp: srv_ok_def)
  then show ?thesis using w0 1(1) by (simp add: housekeeping_def)
qed

subsection \<open>A server whose only device has fallen silent\<close>

definition silent_server :: "int server" where
  "silent_server = session_server\<lparr>el_kernel := ns_of_ms 60000,
     el_callbacks := [3 \<mapsto> Cb_Ingest_Listener, 4 \<mapsto> Cb_Subscribe_Listener, 7 \<mapsto> Cb_Conn 7, 9 \<mapsto> Cb_Conn 9],
     hub_conns := (hub_conns session_server)(9 \<mapsto> (new_connection 9)\<lparr>cn_on_readable := Subscriber_Hook\<rparr>),
     hub_subs := [9 \<mapsto> new_subscriber], hub_store := empty_store\<lparr>st_subscribers := [9]\<rparr>, srv_subscribers := [9]\<rparr>"

lemmas silent_defs = silent_server_def session_server_def device_server_def started_server_def initial_server_def

lemma silent_server_ok: "srv_ok silent_server"
  using new_parser_ok [of kMaxPayloadSize]
  by (auto simp: srv_ok_def links_def silent_defs new_ingest_def kMaxPayloadSize_def new_connection_def)

lemma silent_server_outages:
  "outages (ns_of_ms 60000) silent_server = [(1, 0)]" "\<not> subscriber_gone silent_server 9"
  "\<not> offline_at silent_server sid" "outbuf silent_server 9 = []"
  by (simp_all add: outages_def outage_def device_gone_def subscriber_gone_def offline_at_def offline_alert_def outbuf_def
      empty_store_def no_alert_def silent_defs new_connection_def new_device_session_def new_ingest_def timed_out_def ns_of_ms_def
      kDeviceTimeout_def)

lemma quiet_ctl_succeeds: "ctl_succeeds quiet_os"
  by (simp add: ctl_succeeds_def quiet_os_def)

end
