(* ===== verification/Back_Pressure.thy ===== *)
theory Back_Pressure
  imports Outages
begin

section \<open>From a slow subscriber to the devices\<close>

text \<open>
  What one run of the server's housekeeping tells the devices. The sweep over the subscribers finds out whether one
  that stays has more to be sent than the high-water mark; the sweep over the devices then sends
  every device that stays and has a session half its rate, or leaves it alone.
\<close>

subsection \<open>Congestion\<close>

definition congested :: "('k, 'cb, 'tcb, 'z) hub_scheme \<Rightarrow> fd \<Rightarrow> bool" where
  "congested w p \<longleftrightarrow> (case hub_conns w p of None \<Rightarrow> False | Some c \<Rightarrow> \<not> cn_closed c \<and> write_congested c)"

definition any_congested :: "'k server \<Rightarrow> bool" where
  "any_congested w \<longleftrightarrow> list_ex (congested w) (srv_subscribers w)"

lemma sweep_subscriber_flag:
  assumes "sweep_subscriber os fd (b, w) = Inr (b', w')"
  shows "b' \<longleftrightarrow> b \<or> congested w fd" "q \<noteq> fd \<Longrightarrow> hub_conns w' q = hub_conns w q"
proof -
  obtain c where c: "hub_conns w fd = Some c"
    using assms by (auto simp: sweep_subscriber_def split: option.splits)
  have "(b' \<longleftrightarrow> b \<or> congested w fd) \<and> (q \<noteq> fd \<longrightarrow> hub_conns w' q = hub_conns w q)"
  proof (cases "cn_closed c")
    case True
    then have "b' = b" "destroy_connection os fd ((remove_subscriber fd w)\<lparr>srv_subscribers :=
        filter (\<lambda>q. q \<noteq> fd) (srv_subscribers w), hub_subs := (hub_subs w)(fd := None)\<rparr>) = Inr w'"
      using assms c by (auto simp: sweep_subscriber_def Let_def and_then_Inr remove_subscriber_def)
    then show ?thesis
      using True c destroy_connection_ok(2) by (fastforce simp: congested_def remove_subscriber_def)
  next
    case False
    then show ?thesis using assms c by (auto simp: sweep_subscriber_def congested_def)
  qed
  then show "b' \<longleftrightarrow> b \<or> congested w fd" "q \<noteq> fd \<Longrightarrow> hub_conns w' q = hub_conns w q" by auto
qed

lemma sweep_subscribers_flag:
  "distinct fds \<Longrightarrow> fold_res (sweep_subscriber os) fds (b, w) = Inr (b', w') \<Longrightarrow>
   (b' \<longleftrightarrow> b \<or> list_ex (congested w) fds) \<and> (\<forall>q. q \<notin> set fds \<longrightarrow> hub_conns w' q = hub_conns w q)"
proof (induction fds arbitrary: b w)
  case (Cons fd fds)
  obtain b1 w1 where 1: "sweep_subscriber os fd (b, w) = Inr (b1, w1)"
    "fold_res (sweep_subscriber os) fds (b1, w1) = Inr (b', w')"
    using Cons.prems(2) by (auto simp: and_then_Inr)
  have "congested w1 q = congested w q" if "q \<noteq> fd" for q
    using sweep_subscriber_flag(2) [OF 1(1) that] by (simp add: congested_def)
  then have "list_ex (congested w1) fds = list_ex (congested w) fds"
    using Cons.prems(1) unfolding list_ex_iff by (metis distinct.simps(2))
  then show ?case using Cons.IH [of b1 w1] Cons.prems(1) 1(2) sweep_subscriber_flag [OF 1(1)] by auto
qed simp

subsection \<open>One device\<close>

lemma latch_offline_others:
  assumes "subs_ok w" "mod_succeeds os" "latch_offline os sid ts now w = Inr w'" "q \<notin> set (st_subscribers (hub_store w))"
  shows "hub_conns w' q = hub_conns w q"
proof (cases "al_active (da_offline (alerts_at (hub_store w) sid))")
  case True
  then show ?thesis using assms(3) by (simp add: latch_offline_def)
next
  case False
  let ?w = "w\<lparr>hub_store := set_alerts sid ((alerts_at (hub_store w) sid)\<lparr>da_offline :=
      \<lparr>al_active = True, al_value_milli = 0, al_timestamp_ms = ts, al_triggered_at = now\<rparr>\<rparr>) (hub_store w)\<rparr>"
  have "subs_ok ?w" using assms(1) by (simp add: subs_ok_def)
  moreover have "fan_out (publish_offline_alert os sid ts) ?w = Inr w'"
    using assms(3) False by (simp add: latch_offline_def notify_offline_def Let_def)
  ultimately have "delivered (\<lambda>s. line_bytes (offline_line sid ts)) (\<lambda>s. s) (st_subscribers (hub_store w)) ?w w'"
    using fan_out_delivered [OF alerts_deliver(2) [OF assms(2), of sid ts], of ?w] by auto
  then show ?thesis using assms(4) by (simp add: delivered_def)
qed

lemma sweep_device_others:
  assumes "srv_ok w" "mod_succeeds os" "sweep_device os now b fd w = Inr w'"
    and "q \<in> fst ` set (srv_devices w)" "q \<noteq> fd"
  shows "hub_conns w' q = hub_conns w q \<and> map_of (srv_devices w') q = map_of (srv_devices w) q"
proof -
  obtain g c where gc: "map_of (srv_devices w) fd = Some g" "hub_conns w fd = Some c"
    using assms(3) by (auto simp: sweep_device_def split: option.splits)
  have q: "q \<notin> set (st_subscribers (hub_store w))" using assms(1,4) unfolding srv_ok_def links_def by blast
  have "hub_conns w' q = hub_conns w q"
  proof (cases "device_gone now w fd")
    case True
    obtain w1 where w1: "(case ing_session g of None \<Rightarrow> Inr w
        | Some s \<Rightarrow> latch_offline os (ds_session_id s) (ds_last_uptime_ms s) now w) = Inr w1"
      "destroy_connection os fd (w1\<lparr>srv_devices := AList.delete fd (srv_devices w1)\<rparr>) = Inr w'"
      using assms(3) gc True by (auto simp: sweep_device_def device_gone_def Let_def and_then_Inr)
    have "hub_conns w1 q = hub_conns w q"
      using w1(1) latch_offline_others [OF srv_ok_subs [OF assms(1)] assms(2) _ q] by (cases "ing_session g") auto
    then show ?thesis using destroy_connection_ok(2) [OF w1(2)] assms(5) by auto
  next
    case False
    then consider "w' = w" | pl w1 where "send_frame os fd kSlowDown pl w = Inr w1" "hub_conns w' = hub_conns w1"
      using assms(3) gc
      by (auto simp: sweep_device_def device_gone_def send_slow_down_def Let_def and_then_Inr
          split: prod.splits option.splits if_splits)
    then show ?thesis by cases (use send_frame_other assms(5) in auto)
  qed
  then show ?thesis using sweep_device_effect [OF assms(3)] assms(5) by (simp add: others_same_def)
qed

text \<open>What a device with session \<open>s\<close> finds after housekeeping, and what is on record for it.\<close>

definition slowed :: "bool \<Rightarrow> device_session \<Rightarrow> device_session" where
  "slowed b s = (if b then s\<lparr>ds_current_rate_hz := slower_rate (ds_current_rate_hz s)\<rparr> else s)"

definition slow_down_for :: "bool \<Rightarrow> device_session \<Rightarrow> u8 list" where
  "slow_down_for b s = (if b then wire_frame kSlowDown (slow_down_bytes
     \<lparr>slow_down_session_id = ds_session_id s, slow_down_new_rate_hz = slower_rate (ds_current_rate_hz s)\<rparr>) else [])"

text \<open>The instruction a node finds in these bytes keeps its configuration in step with the record.\<close>

lemma slow_down_found:
  "List.map_filter instruction_of (accepted (fst (arun kMaxPayloadSize (slow_down_for b s) Hunting))) =
     (if b then [SlowDown \<lparr>slow_down_session_id = ds_session_id s, slow_down_new_rate_hz = slower_rate (ds_current_rate_hz s)\<rparr>]
      else [])"
  by (simp add: slow_down_for_def slow_down_frame_instruction map_filter_simps)

lemma slowed_agrees:
  "fold obey (List.map_filter instruction_of (accepted (fst (arun kMaxPayloadSize (slow_down_for b s) Hunting))))
     (ds_current_rate_hz s, ds_session_id s, True) =
   (ds_current_rate_hz (slowed b s), ds_session_id (slowed b s), True)"
  by (simp add: slow_down_found slowed_def)

lemma sweep_device_slows:
  assumes "mod_succeeds os" "sweep_device os now b fd w = Inr w'"
    and "map_of (srv_devices w) fd = Some g" "ing_session g = Some s" "\<not> device_gone now w fd"
  shows "outbuf w' fd = outbuf w fd @ slow_down_for b s \<and>
     Option.bind (map_of (srv_devices w') fd) ing_session = Some (slowed b s)"
proof -
  obtain c where c: "hub_conns w fd = Some c"
    using assms(2) by (auto simp: sweep_device_def split: option.splits)
  show ?thesis
  proof (cases b)
    case True
    then show ?thesis
      using congestion_slows_device [OF assms(3,4) c assms(5,1)] assms(2) by (auto simp: slowed_def slow_down_for_def)
  next
    case False
    then have "w' = w"
      using assms c by (auto simp: sweep_device_def device_gone_def Let_def split: option.splits)
    then show ?thesis using False assms(3,4) by (simp add: slowed_def slow_down_for_def)
  qed
qed

subsection \<open>All devices\<close>

lemma sweep_devices_others:
  assumes os: "mod_succeeds os"
  shows "srv_ok w \<Longrightarrow> distinct fds \<Longrightarrow> set fds \<subseteq> fst ` set (srv_devices w) \<Longrightarrow>
    fold_res (sweep_device os now b) fds w = Inr w' \<Longrightarrow> q \<in> fst ` set (srv_devices w) \<Longrightarrow> q \<notin> set fds \<Longrightarrow>
    hub_conns w' q = hub_conns w q \<and> map_of (srv_devices w') q = map_of (srv_devices w) q"
proof (induction fds arbitrary: w)
  case (Cons d ds)
  obtain w1 where w1: "sweep_device os now b d w = Inr w1" "fold_res (sweep_device os now b) ds w1 = Inr w'"
    using Cons.prems(4) by (auto simp: and_then_Inr)
  have same: "hub_conns w1 q = hub_conns w q" "map_of (srv_devices w1) q = map_of (srv_devices w) q"
    using sweep_device_others [OF Cons.prems(1) os w1(1) Cons.prems(5)] Cons.prems(6) by auto
  then have "q \<in> fst ` set (srv_devices w1)" using Cons.prems(5) by (metis map_of_eq_None_iff)
  then show ?case
    using Cons.IH [of w1] sweep_device_ok [OF Cons.prems(1-3)] w1 Cons.prems(6) same by auto
qed simp

lemma sweep_devices_slow:
  assumes os: "mod_succeeds os"
  shows "srv_ok w \<Longrightarrow> distinct fds \<Longrightarrow> set fds \<subseteq> fst ` set (srv_devices w) \<Longrightarrow>
    fold_res (sweep_device os now b) fds w = Inr w' \<Longrightarrow>
    map_of (srv_devices w) fd = Some g \<Longrightarrow> ing_session g = Some s \<Longrightarrow> \<not> device_gone now w fd \<Longrightarrow>
    outbuf w' fd = outbuf w fd @ slow_down_for (b \<and> fd \<in> set fds) s \<and>
    Option.bind (map_of (srv_devices w') fd) ing_session = Some (slowed (b \<and> fd \<in> set fds) s)"
proof (induction fds arbitrary: w g s)
  case (Cons d ds)
  obtain w1 where w1: "sweep_device os now b d w = Inr w1" "fold_res (sweep_device os now b) ds w1 = Inr w'"
    using Cons.prems(4) by (auto simp: and_then_Inr)
  have ok1: "srv_ok w1" "distinct ds" "set ds \<subseteq> fst ` set (srv_devices w1)"
    using sweep_device_ok [OF Cons.prems(1-3)] w1(1) by auto
  have fd: "fd \<in> fst ` set (srv_devices w)" using Cons.prems(5) by (metis map_of_eq_None_iff option.distinct(1))
  show ?case
  proof (cases "fd = d")
    case True
    then have "fd \<notin> set ds" using Cons.prems(2) by simp
    have slow: "outbuf w1 fd = outbuf w fd @ slow_down_for b s"
      "Option.bind (map_of (srv_devices w1) fd) ing_session = Some (slowed b s)"
      using sweep_device_slows [OF os w1(1)] Cons.prems(5-7) True by auto
    then have fd1: "fd \<in> fst ` set (srv_devices w1)" by (metis bind.bind_lzero map_of_eq_None_iff option.distinct(1))
    then show ?thesis
      using sweep_devices_others [OF os ok1 w1(2) fd1 \<open>fd \<notin> set ds\<close>] slow True by (simp add: outbuf_def)
  next
    case False
    have same: "hub_conns w1 fd = hub_conns w fd" "map_of (srv_devices w1) fd = map_of (srv_devices w) fd"
      using sweep_device_others [OF Cons.prems(1) os w1(1) fd False] by auto
    then have "\<not> device_gone now w1 fd" using Cons.prems(7) by (simp add: device_gone_def)
    then show ?thesis
      using Cons.IH [OF ok1 w1(2), of g s] Cons.prems(5,6) same False by (simp add: outbuf_def)
  qed
qed (simp add: slowed_def slow_down_for_def)

lemma housekeeping_slows:
  assumes "srv_ok w" "mod_succeeds os" "housekeeping os w = Inr w'" "os_now os (el_kernel w) = (now, k)"
    and "map_of (srv_devices w) fd = Some g" "ing_session g = Some s" "\<not> device_gone now w fd"
  shows "outbuf w' fd = outbuf w fd @ slow_down_for (any_congested w) s \<and>
     Option.bind (map_of (srv_devices w') fd) ing_session = Some (slowed (any_congested w) s)"
proof -
  let ?w = "w\<lparr>el_kernel := k\<rparr>"
  obtain b w1 w2 where run: "fold_res (sweep_subscriber os) (srv_subscribers ?w) (False, ?w) = Inr (b, w1)"
    "fold_res (sweep_device os now b) (map fst (srv_devices w1)) w1 = Inr w2"
    "w' = add_timer os kHousekeepingInterval Tcb_Housekeeping w2"
    using assms(3,4) by (auto simp: housekeeping_def el_now_def and_then_Inr)
  have fd: "fd \<in> fst ` set (srv_devices w)" using assms(5) by (metis map_of_eq_None_iff option.distinct(1))
  then have "fd \<notin> set (srv_subscribers w)" using assms(1) unfolding srv_ok_def links_def by blast
  then have b: "b \<longleftrightarrow> any_congested w" "hub_conns w1 fd = hub_conns w fd"
    using sweep_subscribers_flag [OF _ run(1)] srv_ok_distinct [OF assms(1)]
    by (auto simp: any_congested_def list_ex_iff congested_def)
  have devs: "srv_devices w1 = srv_devices w"
    using sweep_subscribers [OF run(1)] srv_ok_distinct [OF assms(1)] by simp
  have ok1: "srv_ok w1" using sweep_subscribers_ok [of ?w os False] assms(1) run(1) by auto
  then have "distinct (map fst (srv_devices w1))" by (simp add: srv_ok_def)
  moreover have "\<not> device_gone now w1 fd" using assms(7) b(2) devs by (simp add: device_gone_def)
  ultimately have "outbuf w2 fd = outbuf w1 fd @ slow_down_for b s \<and>
      Option.bind (map_of (srv_devices w2) fd) ing_session = Some (slowed b s)"
    using sweep_devices_slow [OF assms(2) ok1 _ _ run(2), of fd g s] assms(5,6) devs fd by simp
  then show ?thesis
    using run(3) b by (simp add: add_timer_def el_now_def outbuf_def split: prod.split)
qed

subsection \<open>A server with a subscriber that does not keep up\<close>

definition congested_server :: "int server" where
  "congested_server = silent_server\<lparr>el_kernel := 0, hub_conns := (hub_conns silent_server)(9 \<mapsto>
     (new_connection 9)\<lparr>cn_on_readable := Subscriber_Hook, cn_write_buffer := replicate kWriteHighWaterMark 0\<rparr>)\<rparr>"

lemma congested_server_ok: "srv_ok congested_server"
  using new_parser_ok [of kMaxPayloadSize]
  by (auto simp: srv_ok_def links_def congested_server_def silent_defs new_ingest_def kMaxPayloadSize_def new_connection_def)

lemma congested_server_facts:
  "any_congested congested_server" "\<not> device_gone 0 congested_server 7" "outbuf congested_server 7 = []"
  "map_of (srv_devices congested_server) 7 =
     Some ((new_ingest 1)\<lparr>ing_session := Some ((new_device_session 1 0)\<lparr>ds_current_rate_hz := 10\<rparr>)\<rparr>)"
  by (simp_all add: any_congested_def congested_def write_congested_def congested_server_def silent_defs new_connection_def
      device_gone_def new_device_session_def timed_out_def ns_of_ms_def kDeviceTimeout_def outbuf_def)

end
