(* ===== verification/Node_Priority.thy ===== *)
theory Node_Priority
  imports Node_Runs
begin

section \<open>The node under its scheduler (node/main.cpp, node/FreeRTOSConfig.h)\<close>

text \<open>
  The runs that a preemptive priority scheduler allows (\<open>configUSE_PREEMPTION\<close>): a task takes a step only while
  no more urgent task could. The priorities are those of \<open>node_main\<close>, raised for the holder of the configuration
  mutex to that of the most urgent task waiting for it, as FreeRTOS mutexes do. These runs are
  among the interleavings of \<open>node_run\<close>, so everything shown of all runs holds of them too; here is what holds
  because of the priorities.
\<close>

subsection \<open>Priorities\<close>

fun task_step :: "'k rtos \<Rightarrow> 'h bus \<Rightarrow> task \<Rightarrow> ('k, 'h) node \<Rightarrow> (event list \<times> ('k, 'h) node) option" where
  "task_step RT B Sensor s = sensor_step RT (nd_sensor s) s"
| "task_step RT B Telemetry s = telemetry_step RT B (nd_telemetry s) s"
| "task_step RT B Command s = command_step RT B (nd_command s) s"

text \<open>A task at the construction of its guard, and the tasks inside their critical sections.\<close>

fun wants_mutex :: "task \<Rightarrow> ('k, 'h) node \<Rightarrow> bool" where
  "wants_mutex Sensor s = (case nd_sensor s of S_Guard _ \<Rightarrow> True | _ \<Rightarrow> False)"
| "wants_mutex Telemetry s = (case nd_telemetry s of T_Guard _ \<Rightarrow> True | _ \<Rightarrow> False)"
| "wants_mutex Command s = (case nd_command s of C_Guard _ _ \<Rightarrow> True | _ \<Rightarrow> False)"

fun holds_mutex :: "task \<Rightarrow> ('k, 'h) node \<Rightarrow> bool" where
  "holds_mutex Sensor s = sensor_locked (nd_sensor s)"
| "holds_mutex Telemetry s = telemetry_locked (nd_telemetry s)"
| "holds_mutex Command s = command_locked (nd_command s)"

definition current_priority :: "('k, 'h) node \<Rightarrow> task \<Rightarrow> nat" where
  "current_priority s t =
     (if holds_mutex t s
      then foldr max (map task_priority (filter (\<lambda>t'. wants_mutex t' s) [Sensor, Command, Telemetry])) (task_priority t)
      else task_priority t)"

definition may_run :: "'k rtos \<Rightarrow> 'h bus \<Rightarrow> ('k, 'h) node \<Rightarrow> task \<Rightarrow> bool" where
  "may_run RT B s t \<longleftrightarrow>
     list_all (\<lambda>t'. task_step RT B t' s = None \<or> current_priority s t' \<le> current_priority s t)
       [Sensor, Command, Telemetry]"

inductive priority_step ::
  "'k rtos \<Rightarrow> 'h bus \<Rightarrow> ('h \<Rightarrow> 'h \<Rightarrow> bool) \<Rightarrow> ('k, 'h) node \<Rightarrow> event list \<Rightarrow> ('k, 'h) node \<Rightarrow> bool"
  for RT :: "'k rtos" and B :: "'h bus" and hw :: "'h \<Rightarrow> 'h \<Rightarrow> bool" where
  scheduled: "may_run RT B s t \<Longrightarrow> task_step RT B t s = Some (es, s') \<Longrightarrow> priority_step RT B hw s es s'"
| ticked: "priority_step RT B hw s [] (s\<lparr>nd_kernel := tick_interrupt RT (nd_kernel s)\<rparr>)"
| wired: "hw (nd_hw s) h \<Longrightarrow> priority_step RT B hw s [] (s\<lparr>nd_hw := h\<rparr>)"

inductive priority_run ::
  "'k rtos \<Rightarrow> 'h bus \<Rightarrow> ('h \<Rightarrow> 'h \<Rightarrow> bool) \<Rightarrow> ('k, 'h) node \<Rightarrow> event list \<Rightarrow> ('k, 'h) node \<Rightarrow> bool"
  for RT :: "'k rtos" and B :: "'h bus" and hw :: "'h \<Rightarrow> 'h \<Rightarrow> bool" and s0 :: "('k, 'h) node" where
  pr_start: "priority_run RT B hw s0 [] s0"
| pr_more: "priority_run RT B hw s0 tr s \<Longrightarrow> priority_step RT B hw s es s' \<Longrightarrow> priority_run RT B hw s0 (tr @ es) s'"

lemma priority_step_is_step: "priority_step RT B hw s es s' \<Longrightarrow> node_step RT B hw s es s'"
proof (induction rule: priority_step.induct)
  case (scheduled s t es s')
  then show ?case by (cases t) (auto intro: node_step.intros)
qed (auto intro: node_step.intros)

lemma priority_run_is_run: "priority_run RT B hw s0 tr s \<Longrightarrow> node_run RT B hw s0 tr s"
  by (induction rule: priority_run.induct) (auto intro: node_run.intros priority_step_is_step)

subsection \<open>Telemetry waits for the command task's messages\<close>

text \<open>The command task never waits while it has a message to start or to finish.\<close>

lemma command_writing_runs:
  assumes "nd_command s = C_Hello \<or> c_left (nd_command s) \<noteq> []"
  shows "command_step RT B (nd_command s) s \<noteq> None"
  using assms
  by (cases "(RT, B, nd_command s, s)" rule: command_step.cases) (auto simp: Let_def split: prod.splits)

lemma command_writing_unlocked:
  "nd_command s = C_Hello \<or> c_left (nd_command s) \<noteq> [] \<Longrightarrow> current_priority s Command = 2"
  by (cases "nd_command s") (auto simp: current_priority_def)

lemma telemetry_put_priority: "nd_telemetry s = T_Put b bs \<Longrightarrow> current_priority s Telemetry = 1"
  by (simp add: current_priority_def)

lemma telemetry_put_alone:
  assumes "may_run RT B s Telemetry" "nd_telemetry s = T_Put b bs"
  shows "nd_command s \<noteq> C_Hello" "c_left (nd_command s) = []"
proof -
  have "\<not> (nd_command s = C_Hello \<or> c_left (nd_command s) \<noteq> [])"
  proof
    assume writing: "nd_command s = C_Hello \<or> c_left (nd_command s) \<noteq> []"
    show False
      using assms(1) command_writing_runs [OF writing, of RT B] command_writing_unlocked [OF writing]
        telemetry_put_priority [OF assms(2)] by (simp add: may_run_def)
  qed
  then show "nd_command s \<noteq> C_Hello" "c_left (nd_command s) = []" by simp_all
qed

text \<open>So the bytes stored fall into pieces: what the telemetry task stored in between, then a whole message of the
  command task.\<close>

type_synonym piece = "u8 list \<times> MessageType \<times> u8 list"

definition pieces_bytes :: "piece list \<Rightarrow> u8 list" where
  "pieces_bytes ps = concat (map (\<lambda>(x, ty, pl). x @ message_frame ty pl) ps)"

lemma pieces_bytes_simps [simp]:
  "pieces_bytes [] = []" "pieces_bytes (ps @ [(x, ty, pl)]) = pieces_bytes ps @ x @ message_frame ty pl"
  by (simp_all add: pieces_bytes_def)

definition pieces_inv :: "piece list \<Rightarrow> u8 list \<Rightarrow> event list \<Rightarrow> ('k, 'h) node \<Rightarrow> bool" where
  "pieces_inv ps rest tr s \<longleftrightarrow>
     map snd ps = messages_of Command tr \<and>
     puts tr @ c_left (nd_command s) = pieces_bytes ps @ rest \<and>
     bytes_of_task Telemetry tr = concat (map fst ps) @ rest \<and>
     (c_left (nd_command s) \<noteq> [] \<longrightarrow> rest = []) \<and>
     (if ps = [] then nd_command s = C_Hello \<and> rest = [] else nd_command s \<noteq> C_Hello \<and> fst (hd ps) = [])"

lemma pieces_inv_command:
  assumes "pieces_inv ps rest tr s" and st: "command_step RT B (nd_command s) s = Some (es, s')"
  shows "\<exists>ps rest. pieces_inv ps rest (tr @ es) s'"
proof (cases "messages_of Command es")
  case Nil
  then have "pieces_inv ps rest (tr @ es) s'"
    using assms command_frame(6) [OF st]
    by (cases "(RT, B, nd_command s, s)" rule: command_step.cases)
       (auto simp: pieces_inv_def Let_def split: option.splits if_splits prod.splits sending.splits instruction.splits)
  then show ?thesis by blast
next
  case (Cons m ms)
  then obtain ty pl where "pieces_inv (ps @ [(rest, ty, pl)]) [] (tr @ es) s'"
    using assms command_frame(6) [OF st]
    by (cases "(RT, B, nd_command s, s)" rule: command_step.cases)
       (auto simp: pieces_inv_def hd_append Let_def
         split: option.splits if_splits prod.splits sending.splits instruction.splits)
  then show ?thesis by blast
qed

lemma pieces_inv_telemetry:
  assumes "pieces_inv ps rest tr s" and st: "telemetry_step RT B (nd_telemetry s) s = Some (es, s')"
    and run: "may_run RT B s Telemetry"
  shows "\<exists>ps rest. pieces_inv ps rest (tr @ es) s'"
proof (cases "\<exists>b bs. nd_telemetry s = T_Put b bs")
  case True
  then obtain b bs where pc: "nd_telemetry s = T_Put b bs" by blast
  then have "pieces_inv ps (rest @ [b]) (tr @ es) s'"
    using assms(1) st telemetry_put_alone [OF run pc] by (auto simp: pieces_inv_def)
  then show ?thesis by blast
next
  case False
  then have "puts es = []" "bytes_of_task Telemetry es = []"
    using st by (cases "(RT, B, nd_telemetry s, s)" rule: telemetry_step.cases;
      auto simp: Let_def split: option.splits if_splits prod.splits)+
  then have "pieces_inv ps rest (tr @ es) s'"
    using assms(1) by (simp add: pieces_inv_def telemetry_frame [OF st])
  then show ?thesis by blast
qed

lemma pieces_inv_run:
  assumes "priority_run RT B hw (booted k h m q u) tr s"
  shows "\<exists>ps rest. pieces_inv ps rest tr s"
  using assms
proof (induction rule: priority_run.induct)
  case pr_start
  have "pieces_inv [] [] [] (booted k h m q u)" by (simp add: pieces_inv_def booted_def)
  then show ?case by blast
next
  case (pr_more tr s es s')
  then obtain ps rest where inv: "pieces_inv ps rest tr s" by blast
  from pr_more.hyps(2) show ?case
  proof cases
    case (scheduled t)
    show ?thesis
    proof (cases t)
      case Sensor
      then have "pieces_inv ps rest (tr @ es) s'"
        using scheduled inv by (simp add: pieces_inv_def sensor_frame)
      then show ?thesis by blast
    next
      case Command
      then show ?thesis using scheduled pieces_inv_command [OF inv] by simp
    next
      case Telemetry
      then show ?thesis using scheduled pieces_inv_telemetry [OF inv] by simp
    qed
  next
    case ticked
    then have "pieces_inv ps rest (tr @ es) s'" using inv by (simp add: pieces_inv_def)
    then show ?thesis by blast
  next
    case (wired h)
    then have "pieces_inv ps rest (tr @ es) s'" using inv by (simp add: pieces_inv_def)
    then show ?thesis by blast
  qed
qed

lemma run_command_short:
  assumes "node_run RT B hw s0 tr s" "(ty, pl) \<in> set (messages_of t tr)"
  shows "length pl \<le> 11"
proof -
  have "set (messages_of t tr) \<subseteq> set (all_messages tr)"
  proof (induction tr)
    case (Cons e tr)
    then show ?case using events_append(3) [of t "[e]" tr] all_messages_simps(2) [of "[e]" tr] by (cases e) auto
  qed simp
  then show ?thesis using run_messages_short [OF assms(1)] assms(2) by blast
qed

text \<open>A schedule for concrete runs, refused where a more urgent task could run.\<close>

fun priority_schedule ::
  "'k rtos \<Rightarrow> 'h bus \<Rightarrow> task list \<Rightarrow> ('k, 'h) node \<Rightarrow> (event list \<times> ('k, 'h) node) option" where
  "priority_schedule RT B [] s = Some ([], s)"
| "priority_schedule RT B (t # ts) s =
     (if may_run RT B s t then
        case task_step RT B t s of
          None \<Rightarrow> None
        | Some (es, s) \<Rightarrow> map_option (apfst ((@) es)) (priority_schedule RT B ts s)
      else None)"

lemma priority_schedule_run:
  "priority_schedule RT B ts s = Some (tr, s') \<Longrightarrow> priority_run RT B hw s0 tr0 s \<Longrightarrow>
   priority_run RT B hw s0 (tr0 @ tr) s'"
proof (induction ts arbitrary: s tr tr0)
  case (Cons t ts)
  then obtain es s1 tr1 where "may_run RT B s t" "task_step RT B t s = Some (es, s1)"
    "priority_schedule RT B ts s1 = Some (tr1, s')" "tr = es @ tr1"
    by (auto split: option.splits if_splits)
  then show ?case
    using Cons.IH [of s1 tr1 "tr0 @ es"] Cons.prems(2) priority_run.pr_more priority_step.scheduled
    by (metis append.assoc)
qed simp

subsection \<open>Properties\<close>

text \<open>C14: the priorities keep the command task's messages whole, and HELLO comes first. In every run that the
  scheduler allows, on a kernel with the documented behaviour and whatever the UART does, the bytes stored to the UART, with those the command
  task has yet to store of its current message, are pieces of the telemetry task's bytes with a whole frame of
  the command task after each: nothing is ever stored inside a HELLO or a HEARTBEAT and nothing before
  HELLO, while nothing of the telemetry task's bytes is left out or moved. Once HELLO has been stored, it is the
  first thing a parser fed with these bytes delivers.\<close>

theorem command_frames_whole:
  assumes "rtos_ok RT V" and "priority_run RT B hw (snd (node_main RT B k h c)) tr s"
  shows "let hello = hello_payload (nd_pipeline (snd (node_main RT B k h c))) in
     (\<exists>pieces rest. map snd pieces = messages_of Command tr \<and>
        puts tr @ c_left (nd_command s) = concat (map (\<lambda>(x, ty, pl). x @ wire_frame ty pl) pieces) @ rest \<and>
        bytes_of_task Telemetry tr = concat (map fst pieces) @ rest \<and>
        (c_left (nd_command s) \<noteq> [] \<longrightarrow> rest = []) \<and>
        (\<forall>x m ps. pieces = (x, m) # ps \<longrightarrow> x = []) \<and> (pieces = [] \<longrightarrow> rest = [])) \<and>
     (messages_of Command tr = [] \<or>
        (\<exists>beats. messages_of Command tr = (kHello, hello) # map (Pair kHeartbeat) beats)) \<and>
     (messages_of Command tr \<noteq> [] \<and> c_left (nd_command s) = [] \<longrightarrow>
        (\<exists>rs. fst (arun kMaxPayloadSize (puts tr) Hunting) = Inr (frame_of kHello hello) # rs))"
proof -
  let ?hello = "hello_payload (nd_pipeline (snd (node_main RT B k h c)))"
  note run = priority_run_is_run [OF assms(2)]
  obtain ps rest where inv: "pieces_inv ps rest tr s"
    using node_main_booted [OF assms(1), of B k h c] assms(2) pieces_inv_run by metis
  have "wire_frame ty pl = message_frame ty pl" if "(x, ty, pl) \<in> set ps" for x ty pl
  proof -
    have "(ty, pl) \<in> set (map snd ps)" using that by force
    then have "(ty, pl) \<in> set (messages_of Command tr)" using inv by (metis pieces_inv_def)
    then have "length pl \<le> 11" by (rule run_command_short [OF run])
    then show ?thesis by (simp add: message_frame_wire)
  qed
  then have bytes: "concat (map (\<lambda>(x, ty, pl). x @ wire_frame ty pl) ps) = pieces_bytes ps"
    unfolding pieces_bytes_def by (intro arg_cong [of _ _ concat] map_cong) auto
  have first: "messages_of Command tr = [] \<or> (\<exists>beats. messages_of Command tr = (kHello, ?hello) # map (Pair kHeartbeat) beats)"
    using main_run_inv [OF assms(1) run] by (auto simp: node_inv_def hello_inv_def split: if_splits)
  have "\<exists>rs. fst (arun kMaxPayloadSize (puts tr) Hunting) = Inr (frame_of kHello ?hello) # rs"
    if sent: "messages_of Command tr \<noteq> []" "c_left (nd_command s) = []"
  proof -
    obtain x ty pl ps' where ps: "ps = (x, ty, pl) # ps'" using sent inv by (cases ps) (auto simp: pieces_inv_def)
    then have h: "x = []" "(ty, pl) = (kHello, ?hello)" using inv first sent(1) by (auto simp: pieces_inv_def)
    then have "puts tr = wire_frame kHello ?hello @ concat (map (\<lambda>(x, ty, pl). x @ wire_frame ty pl) ps') @ rest"
      using inv sent(2) bytes ps by (simp add: pieces_inv_def)
    moreover have "length ?hello \<le> 255" using run_command_short [OF run, of ty pl Command] h(2) inv ps
      by (force simp: pieces_inv_def)
    ultimately show ?thesis
      by (simp add: arun_append arun_wire_frame kMaxPayloadSize_def split: prod.splits)
  qed
  moreover have "\<forall>x m ps'. ps = (x, m) # ps' \<longrightarrow> x = []" "ps = [] \<longrightarrow> rest = []"
    using inv by (auto simp: pieces_inv_def)
  ultimately show ?thesis
    unfolding Let_def using inv bytes first by (intro conjI exI [of _ ps] exI [of _ rest]) (auto simp: pieces_inv_def)
qed

theorem command_frames_whole_witness:
  "\<exists>tr s b bs. priority_run sim_rtos (sim_bus CMSDK_UART0_BASE 2) (=) sim_node tr s \<and>
     sampled tr \<noteq> [] \<and> puts tr = [b] \<and> nd_command s = C_Poll Hello bs \<and> bytes_of_task Telemetry tr = [] \<and>
     b # bs = wire_frame kHello (hello_payload (nd_pipeline sim_node))"
proof -
  let ?pl = "hello_payload (nd_pipeline sim_node)"
  obtain b bs where f: "message_frame kHello ?pl = b # bs" using message_frame_Cons [of ?pl kHello] by auto
  obtain tr s where sch: "priority_schedule sim_rtos (sim_bus CMSDK_UART0_BASE 2)
      [Sensor, Sensor, Sensor, Sensor, Sensor, Sensor, Command, Command, Command] sim_node = Some (tr, s)"
    and tr: "messages_of Command tr = [(kHello, ?pl)]" "puts tr = [b]" "nd_command s = C_Poll Hello bs" "sampled tr \<noteq> []"
    using f by (simp add: sim_node_eq booted_def sim_defs may_run_def current_priority_def sample_period_ms_eq
        puts_def sampled_def messages_of_def map_filter_simps)
  have run: "priority_run sim_rtos (sim_bus CMSDK_UART0_BASE 2) (=) sim_node tr s"
    using priority_schedule_run [OF sch priority_run.pr_start] by simp
  obtain x rest where "[b] @ bs = x @ wire_frame kHello ?pl @ rest" "bytes_of_task Telemetry tr = x @ rest" "x = []"
    "bs \<noteq> [] \<longrightarrow> rest = []"
    using command_frames_whole [OF sim_rtos_ok run [unfolded sim_node_def], folded sim_node_def] tr
    by (auto simp: Let_def)
  then show ?thesis using run tr f
    by (intro exI [of _ tr] exI [of _ s] exI [of _ b] exI [of _ bs]) (auto simp: message_frame_wire)
qed

end
