(* ===== verification/Bench.thy ===== *)
theory Bench
  imports Client Frame_Encoder
begin

section \<open>The benchmark programs (bench/load_generator.cpp, bench/latency_subscriber.cpp)\<close>

text \<open>
  The load generator, which plays a device at a fixed rate, and the latency meter, which subscribes like a
  client and compares the timestamps in the lines with its own clock. Two calls that only they make are
  parameters besides \<open>os\<close>: \<open>nanosleep\<close> and the option that gives a socket a receive timeout. The interval
  between two samples is computed in floating point and is an argument here.
\<close>

subsection \<open>Shared\<close>

text \<open>\<open>std::string::find\<close> for a blank from a position on, and \<open>std::strtoul\<close> (64 bits, saturating).\<close>

definition find_blank :: "string \<Rightarrow> nat \<Rightarrow> nat option" where
  "find_blank s pos =
     (let r = takeWhile (\<lambda>c. c \<noteq> CHR '' '') (drop pos s) in
      if pos + length r < length s then Some (pos + length r) else None)"

definition strtoul :: "string \<Rightarrow> nat" where
  "strtoul s =
     (case read_number s of
        None \<Rightarrow> 0
      | Some (neg, v, r) \<Rightarrow>
          if v > 2 ^ 64 - 1 then 2 ^ 64 - 1 else if neg then (2 ^ 64 - v) mod 2 ^ 64 else v)"

text \<open>\<open>std::stoll\<close>; \<open>None\<close> is the exception, for no number or one outside 64 bits.\<close>

definition stoll :: "string \<Rightarrow> int option" where
  "stoll s =
     (case read_number s of
        None \<Rightarrow> None
      | Some (neg, v, r) \<Rightarrow>
          let i = (if neg then - int v else int v) in
          if - (2 ^ 63) \<le> i \<and> i < 2 ^ 63 then Some i else None)"

text \<open>\<open>--connect host:port\<close>; \<open>None\<close> where \<open>atoi\<close> is undefined.\<close>

definition endpoint :: "string \<Rightarrow> (string \<times> u16) option option" where
  "endpoint val =
     (let host = takeWhile (\<lambda>c. c \<noteq> CHR '':'') val in
      if CHR '':'' \<in> set val then map_option (\<lambda>p. Some (host, word_of_int p)) (atoi (drop (length host + 1) val))
      else Some None)"

subsection \<open>The load generator\<close>

text \<open>\<open>connect_to_server\<close> is the client's, line for line.\<close>

definition gen_connect :: "'k os \<Rightarrow> (string \<Rightarrow> u32 option) \<Rightarrow> string \<Rightarrow> u16 \<Rightarrow> 'k \<Rightarrow> fd option \<times> 'k" where
  "gen_connect os inet_pton host port k = connect_to_server os inet_pton host port k"

definition gen_now_ms :: "time_point \<Rightarrow> u32" where
  "gen_now_ms t = word_of_int (t div 1000000)"

definition sleep_until :: "'k os \<Rightarrow> (int \<Rightarrow> int \<Rightarrow> 'k \<Rightarrow> 'k) \<Rightarrow> time_point \<Rightarrow> 'k \<Rightarrow> 'k" where
  "sleep_until os nanosleep deadline k =
     (case os_now os k of (now, k) \<Rightarrow>
        let remaining = deadline - now in
        if remaining \<le> 0 then k else nanosleep (remaining div 1000000000) (remaining mod 1000000000) k)"

definition gen_hello :: "u32 \<Rightarrow> HelloPayload" where
  "gen_hello device_id =
     \<lparr>hello_device_id = device_id, hello_fw_version = kProtocolVersion, hello_metric_count = 1,
      hello_offered_rate_hz = 100\<rparr>"

definition gen_sample :: "u8 \<Rightarrow> u32 \<Rightarrow> i32 \<Rightarrow> SamplePayload" where
  "gen_sample metric_id ts v =
     \<lparr>sample_session_id = 0, sample_timestamp_ms = ts, sample_value_milli = v, sample_metric_id = metric_id\<rparr>"

text \<open>Encode and send; whether the kernel took the whole frame.\<close>

definition send_whole :: "'k os \<Rightarrow> fd \<Rightarrow> MessageType \<Rightarrow> u8 list \<Rightarrow> 'k \<Rightarrow> bool \<times> 'k" where
  "send_whole os fd type payload k =
     (case encoded_frame type payload (max_encoded_frame_size (length payload)) of
        None \<Rightarrow> (False, k)
      | Some frame \<Rightarrow>
          (case os_send os fd frame k of
             (Inr n, k) \<Rightarrow> (n = length frame, k)
           | (Inl e, k) \<Rightarrow> (False, k)))"

partial_function (option) load_loop ::
  "'k os \<Rightarrow> (int \<Rightarrow> int \<Rightarrow> 'k \<Rightarrow> 'k) \<Rightarrow> fd \<Rightarrow> u8 \<Rightarrow> time_point \<Rightarrow> u32 \<Rightarrow> int \<Rightarrow> time_point \<Rightarrow> nat \<Rightarrow> i32 \<Rightarrow> 'k
     \<Rightarrow> (server_error + nat \<times> 'k) option" where
  "load_loop os nanosleep fd metric_id deadline rate_hz interval next_send sent_frames value_milli k =
     (case os_now os k of (now, k) \<Rightarrow>
        if now < deadline then
          let k = (if rate_hz > 0 then sleep_until os nanosleep next_send k else k);
              next_send = (if rate_hz > 0 then next_send + interval else next_send)
          in case os_now os k of (t, k) \<Rightarrow>
             case send_whole os fd kSample (sample_bytes (gen_sample metric_id (gen_now_ms t) value_milli)) k of (ok, k) \<Rightarrow>
             let sent_frames = (if ok then sent_frames + 1 else sent_frames) in
             if in_i32 (value_milli + 1)
             then load_loop os nanosleep fd metric_id deadline rate_hz interval next_send sent_frames (value_milli + 1) k
             else Some (Inl Signed_Overflow)
        else Some (Inr (sent_frames, k)))"

definition run_load ::
  "'k os \<Rightarrow> (int \<Rightarrow> int \<Rightarrow> 'k \<Rightarrow> 'k) \<Rightarrow> fd \<Rightarrow> u32 \<Rightarrow> u8 \<Rightarrow> int \<Rightarrow> u32 \<Rightarrow> int \<Rightarrow> 'k
     \<Rightarrow> (server_error + nat \<times> 'k) option" where
  "run_load os nanosleep fd device_id metric_id seconds rate_hz interval k =
     (case send_whole os fd kHello (hello_bytes (gen_hello device_id)) k of (_, k) \<Rightarrow>
      case os_now os k of (now, k) \<Rightarrow>
      let deadline = now + seconds * 1000000000 in
      case os_now os k of (next_send, k) \<Rightarrow>
        load_loop os nanosleep fd metric_id deadline rate_hz interval next_send 0 0 k)"

record generator_options =
  go_host :: string
  go_port :: u16
  go_device_id :: u32
  go_metric_id :: u8
  go_seconds :: int
  go_rate_hz :: u32

definition default_generator_options :: generator_options where
  "default_generator_options =
     \<lparr>go_host = ''127.0.0.1'', go_port = 6000, go_device_id = 999, go_metric_id = 1, go_seconds = 5, go_rate_hz = 10\<rparr>"

fun generator_args :: "string list \<Rightarrow> generator_options \<Rightarrow> generator_options option" where
  "generator_args [] opt = Some opt"
| "generator_args [arg] opt = Some opt"
| "generator_args (arg # val # rest) opt =
     (if arg = ''--connect'' then
        (case endpoint val of
           None \<Rightarrow> None
         | Some None \<Rightarrow> generator_args rest opt
         | Some (Some (host, port)) \<Rightarrow> generator_args rest (opt\<lparr>go_host := host, go_port := port\<rparr>))
      else if arg = ''--device-id'' then generator_args rest (opt\<lparr>go_device_id := of_nat (strtoul val)\<rparr>)
      else if arg = ''--metric'' then
        (case atoi val of None \<Rightarrow> None | Some n \<Rightarrow> generator_args rest (opt\<lparr>go_metric_id := word_of_int n\<rparr>))
      else if arg = ''--seconds'' then
        (case atoi val of None \<Rightarrow> None | Some n \<Rightarrow> generator_args rest (opt\<lparr>go_seconds := n\<rparr>))
      else if arg = ''--rate-hz'' then generator_args rest (opt\<lparr>go_rate_hz := of_nat (strtoul val)\<rparr>)
      else generator_args (val # rest) opt)"

text \<open>The exit status and the count printed.\<close>

definition generator_main ::
  "'k os \<Rightarrow> (string \<Rightarrow> u32 option) \<Rightarrow> (int \<Rightarrow> int \<Rightarrow> 'k \<Rightarrow> 'k) \<Rightarrow> (u32 \<Rightarrow> int) \<Rightarrow> generator_options \<Rightarrow> 'k
     \<Rightarrow> (server_error + int \<times> nat option \<times> 'k) option" where
  "generator_main os inet_pton nanosleep interval opt k =
     (case gen_connect os inet_pton (go_host opt) (go_port opt) k of
        (None, k) \<Rightarrow> Some (Inr (1, None, k))
      | (Some fd, k) \<Rightarrow>
          run_then (run_load os nanosleep fd (go_device_id opt) (go_metric_id opt) (go_seconds opt) (go_rate_hz opt)
              (interval (go_rate_hz opt)) k)
            (\<lambda>(n, k). Some (Inr (0, Some n, os_close os fd k))))"

subsection \<open>The latency meter\<close>

record 'k meter =
  me_buffer :: "u8 list"
  me_latencies :: "int list"
  me_count :: nat
  me_kernel :: 'k

definition meter_now_ms :: "time_point \<Rightarrow> int" where
  "meter_now_ms t = t div 1000000"

text \<open>The third field of a line whose first is the metric.\<close>

definition timestamp_field :: "string \<Rightarrow> string \<Rightarrow> string option" where
  "timestamp_field metric line =
     (case find_blank line 0 of
        None \<Rightarrow> None
      | Some first_space \<Rightarrow>
          if take first_space line \<noteq> metric then None
          else
            (case find_blank line (first_space + 1) of
               None \<Rightarrow> None
             | Some second_space \<Rightarrow>
                 (case find_blank line (second_space + 1) of
                    None \<Rightarrow> Some (drop (second_space + 1) line)
                  | Some third_space \<Rightarrow>
                      Some (take (third_space - second_space - 1) (drop (second_space + 1) line)))))"

definition meter_line :: "'k os \<Rightarrow> string \<Rightarrow> string \<Rightarrow> 'k meter \<Rightarrow> 'k meter" where
  "meter_line os metric line s =
     (case Option.bind (timestamp_field metric line) stoll of
        None \<Rightarrow> s
      | Some timestamp_ms \<Rightarrow>
          (case os_now os (me_kernel s) of (t, k) \<Rightarrow>
             s\<lparr>me_latencies := me_latencies s @ [meter_now_ms t - timestamp_ms], me_count := me_count s + 1,
               me_kernel := k\<rparr>))"

definition process_lines :: "'k os \<Rightarrow> string \<Rightarrow> 'k meter \<Rightarrow> 'k meter" where
  "process_lines os metric s =
     (case line_loop (\<lambda>line s. (Inr (meter_line os metric line s) :: unit + 'k meter)) (me_buffer s) 0 0 s of
        Inr (line_start, s) \<Rightarrow> s\<lparr>me_buffer := drop line_start (me_buffer s)\<rparr>
      | Inl _ \<Rightarrow> s)"

definition meter_receive :: "'k os \<Rightarrow> string \<Rightarrow> u8 list \<Rightarrow> 'k meter \<Rightarrow> 'k meter" where
  "meter_receive os metric chunk s = process_lines os metric (s\<lparr>me_buffer := me_buffer s @ chunk\<rparr>)"

text \<open>\<open>llround (p / 100 * (n - 1))\<close> for the two percentages asked for, 50 and 99: the nearest integer, halves
  upwards.\<close>

definition percentile_rank :: "nat \<Rightarrow> nat \<Rightarrow> nat" where
  "percentile_rank p n = (2 * p * (n - 1) + 100) div 200"

definition percentile :: "int list \<Rightarrow> nat \<Rightarrow> int" where
  "percentile latencies_ms p = sort latencies_ms ! percentile_rank p (length latencies_ms)"

definition kMeterChunk :: nat where "kMeterChunk = 4096"

partial_function (option) meter_loop :: "'k os \<Rightarrow> fd \<Rightarrow> string \<Rightarrow> time_point \<Rightarrow> 'k meter \<Rightarrow> 'k meter option" where
  "meter_loop os fd metric deadline s =
     (case os_now os (me_kernel s) of (now, k) \<Rightarrow>
        if now < deadline then
          (case os_recv os fd kMeterChunk k of
             (Inl e, k) \<Rightarrow> meter_loop os fd metric deadline (s\<lparr>me_kernel := k\<rparr>)
           | (Inr chunk, k) \<Rightarrow>
               if chunk = [] then Some (s\<lparr>me_kernel := k\<rparr>)
               else meter_loop os fd metric deadline (meter_receive os metric chunk (s\<lparr>me_kernel := k\<rparr>)))
        else Some (s\<lparr>me_kernel := k\<rparr>))"

record meter_options =
  mo_host :: string
  mo_port :: u16
  mo_metric :: string
  mo_seconds :: int

definition default_meter_options :: meter_options where
  "default_meter_options = \<lparr>mo_host = ''127.0.0.1'', mo_port = 7000, mo_metric = ''pressure'', mo_seconds = 5\<rparr>"

fun meter_args :: "string list \<Rightarrow> meter_options \<Rightarrow> meter_options option" where
  "meter_args [] opt = Some opt"
| "meter_args [arg] opt = Some opt"
| "meter_args (arg # val # rest) opt =
     (if arg = ''--connect'' then
        (case endpoint val of
           None \<Rightarrow> None
         | Some None \<Rightarrow> meter_args rest opt
         | Some (Some (host, port)) \<Rightarrow> meter_args rest (opt\<lparr>mo_host := host, mo_port := port\<rparr>))
      else if arg = ''--metric'' then meter_args rest (opt\<lparr>mo_metric := val\<rparr>)
      else if arg = ''--seconds'' then
        (case atoi val of None \<Rightarrow> None | Some n \<Rightarrow> meter_args rest (opt\<lparr>mo_seconds := n\<rparr>))
      else meter_args (val # rest) opt)"

text \<open>\<open>connect_to_server\<close> of this program also sets the receive timeout, in microseconds.\<close>

definition meter_connect ::
  "'k os \<Rightarrow> (string \<Rightarrow> u32 option) \<Rightarrow> (fd \<Rightarrow> nat \<Rightarrow> 'k \<Rightarrow> 'k) \<Rightarrow> string \<Rightarrow> u16 \<Rightarrow> 'k \<Rightarrow> fd option \<times> 'k" where
  "meter_connect os inet_pton rcvtimeo host port k =
     (case connect_to_server os inet_pton host port k of
        (None, k) \<Rightarrow> (None, k)
      | (Some fd, k) \<Rightarrow> (Some fd, rcvtimeo fd 200000 k))"

text \<open>The exit status and what is printed: the count, and the two percentiles when there is one.\<close>

definition meter_main ::
  "'k os \<Rightarrow> (string \<Rightarrow> u32 option) \<Rightarrow> (fd \<Rightarrow> nat \<Rightarrow> 'k \<Rightarrow> 'k) \<Rightarrow> meter_options \<Rightarrow> 'k
     \<Rightarrow> (int \<times> (nat \<times> (int \<times> int) option) option \<times> 'k) option" where
  "meter_main os inet_pton rcvtimeo opt k =
     (case meter_connect os inet_pton rcvtimeo (mo_host opt) (mo_port opt) k of
        (None, k) \<Rightarrow> Some (1, None, k)
      | (Some fd, k) \<Rightarrow>
          (case os_send os fd (bytes_of (''SUBSCRIBE '' @ mo_metric opt @ [newline])) k of (_, k) \<Rightarrow>
           case os_now os k of (now, k) \<Rightarrow>
             map_option (\<lambda>s. (0,
                 Some (me_count s, if me_count s > 0
                       then Some (percentile (me_latencies s) 50, percentile (me_latencies s) 99) else None),
                 os_close os fd (me_kernel s)))
               (meter_loop os fd (mo_metric opt) (now + mo_seconds opt * 1000000000)
                  \<lparr>me_buffer = [], me_latencies = [], me_count = 0, me_kernel = k\<rparr>)))"

subsection \<open>The reader contract\<close>

definition meter_set_pending :: "u8 list \<Rightarrow> 'k meter \<Rightarrow> 'k meter" where
  "meter_set_pending r s = s\<lparr>me_buffer := r\<rparr>"

lemma meter_line_set_pending:
  "meter_line os metric l (meter_set_pending r s) = meter_set_pending r (meter_line os metric l s)"
  by (simp add: meter_line_def meter_set_pending_def split: option.split prod.split)

interpretation meter_reader: line_reader "\<lambda>chunk s. Inr (meter_receive os metric chunk s)"
  "\<lambda>line s. Inr (meter_line os metric line s)" me_buffer meter_set_pending
  for os :: "'k os" and metric :: string
proof (unfold_locales, goal_cases)
  case (1 s bs ls r)
  let ?h = "\<lambda>line s. (Inr (meter_line os metric line s) :: unit + 'k meter)" and ?X = "me_buffer s @ bs"
  have rest: "r = drop (length ?X - length r) ?X" using split_lines_rest [OF 1] by simp
  have "fold_res ?h ls (meter_set_pending ?X s) =
      and_then (fold_res ?h ls s) (\<lambda>s. Inr (meter_set_pending ?X s))"
    by (rule fold_res_commute) (simp add: meter_line_set_pending)
  then have "line_loop ?h ?X 0 0 (meter_set_pending ?X s) =
      Inr (length ?X - length r, meter_set_pending ?X (fold (meter_line os metric) ls s))"
    using line_loop_lines [OF 1, of ?h "meter_set_pending ?X s"] by (simp add: fold_res_pure)
  then have "meter_receive os metric bs s = meter_set_pending r (fold (meter_line os metric) ls s)"
    using rest by (simp add: meter_receive_def process_lines_def meter_set_pending_def)
  then show ?case by (simp add: fold_res_pure)
next
  case (4 l r s)
  show ?case by (simp add: meter_line_set_pending)
qed (simp_all add: meter_set_pending_def)

subsection \<open>The server's lines\<close>

lemma find_blank_word:
  "CHR '' '' \<notin> set w \<Longrightarrow> find_blank (p @ w @ CHR '' '' # r) (length p) = Some (length p + length w)"
proof -
  assume "CHR '' '' \<notin> set w"
  then have "takeWhile (\<lambda>c. c \<noteq> CHR '' '') (w @ CHR '' '' # r) = w" by (subst takeWhile_append2) auto
  then show ?thesis by (simp add: find_blank_def)
qed

lemma no_blank_to_string: "CHR '' '' \<notin> set (to_string n)"
  using to_string_is_word(1) [of n] by (auto simp: is_word_def is_space_def)

lemma timestamp_field_sample_line:
  assumes "is_word m"
  shows "timestamp_field m (sample_line m sid ts v) = Some (to_string (unat ts))"
proof -
  let ?a = "to_string (unat sid)" and ?b = "to_string (unat ts)" and ?c = "to_string_int v"
  let ?l = "m @ CHR '' '' # ?a @ CHR '' '' # ?b @ CHR '' '' # ?c"
  have m: "CHR '' '' \<notin> set m" using assms by (auto simp: is_word_def is_space_def)
  have l: "sample_line m sid ts v = ?l" by (simp add: sample_line_def)
  have 1: "find_blank ?l 0 = Some (length m)" using find_blank_word [OF m, of "[]"] by simp
  have 2: "find_blank ?l (Suc (length m)) = Some (Suc (length m + length ?a))"
    using find_blank_word [OF no_blank_to_string, of "m @ [CHR '' '']" "unat sid"] by simp
  have 3: "find_blank ?l (Suc (Suc (length m + length ?a))) = Some (Suc (Suc (length m + length ?a + length ?b)))"
    using find_blank_word [OF no_blank_to_string, of "m @ CHR '' '' # ?a @ [CHR '' '']" "unat ts"] by simp
  show ?thesis unfolding l timestamp_field_def by (simp add: 1 2 3)
qed

lemma stoll_to_string: "n < 2 ^ 63 \<Longrightarrow> stoll (to_string n) = Some (int n)"
  using read_number_to_string [of "[]" n] by (simp add: stoll_def)

lemma meter_line_sample:
  assumes "is_word m" "os_now os (me_kernel s) = (t, k)"
  shows "meter_line os m (sample_line m sid ts v) s =
     s\<lparr>me_latencies := me_latencies s @ [meter_now_ms t - uint ts], me_count := me_count s + 1, me_kernel := k\<rparr>"
proof -
  have "unat ts < 2 ^ 32" using unsigned_less [of ts] by simp
  then have "unat ts < 2 ^ 63" by simp
  then show ?thesis
    using assms by (simp add: meter_line_def timestamp_field_sample_line stoll_to_string)
qed

subsection \<open>The generator's stream\<close>








subsection \<open>Properties\<close>

text \<open>C37: what the latency meter measures. For a sample that the load generator stamped at time \<open>t0\<close> and the
  server passed on, and however the line is cut into chunks, the meter that reads its clock at \<open>t1\<close> records the
  difference of the two times in milliseconds, with the first taken modulo \<open>2^32\<close>: it is the latency exactly when
  the clock had not yet reached \<open>2^32\<close> ms (50 days of uptime) at \<open>t0\<close>.\<close>

theorem meter_latency:
  assumes "is_word m" and "in_i32 v" and "os_now os k = (t1, k')" and "0 \<le> t0" and "chunks \<noteq> []"
    and "concat chunks = line_bytes (sample_line m sid (gen_now_ms t0) v)"
  shows "let s = fold (meter_receive os m) chunks \<lparr>me_buffer = [], me_latencies = [], me_count = 0, me_kernel = k\<rparr> in
     me_buffer s = [] \<and> me_count s = 1 \<and>
     me_latencies s = [t1 div 1000000 - (t0 div 1000000) mod 2 ^ 32] \<and>
     (me_latencies s = [t1 div 1000000 - t0 div 1000000] \<longleftrightarrow> t0 div 1000000 < 2 ^ 32)"
proof -
  let ?s0 = "\<lparr>me_buffer = [], me_latencies = [], me_count = 0, me_kernel = k\<rparr>"
  let ?l = "sample_line m sid (gen_now_ms t0) v"
  have l: "split_lines [] (line_bytes ?l) = ([?l], [])"
    using split_feed [of "[Feed_Sample m sid (gen_now_ms t0) v]"] assms(1,2) by simp
  have "fold_res (\<lambda>c s. (Inr (meter_receive os m c s) :: unit + 'a meter)) chunks ?s0 = Inr (meter_receive os m (concat chunks) ?s0)"
    using meter_reader.feed_chunks [of ?s0 chunks os m] assms(5) by simp
  then have "fold (meter_receive os m) chunks ?s0 = meter_receive os m (line_bytes ?l) ?s0"
    by (simp add: fold_res_pure assms(6))
  also have "\<dots> = meter_set_pending [] (meter_line os m ?l ?s0)"
    using meter_reader.feed_lines [of ?s0 "line_bytes ?l" "[?l]" "[]" os m] l by simp
  finally have s: "fold (meter_receive os m) chunks ?s0 =
      \<lparr>me_buffer = [], me_latencies = [meter_now_ms t1 - uint (gen_now_ms t0)], me_count = 1, me_kernel = k'\<rparr>"
    using meter_line_sample [OF assms(1), of os ?s0 t1 k'] assms(3) by (simp add: meter_set_pending_def)
  have u: "uint (gen_now_ms t0) = (t0 div 1000000) mod 2 ^ 32"
    by (simp add: gen_now_ms_def uint_word_of_int)
  have "0 \<le> t0 div 1000000" using assms(4) by simp
  then have "(t0 div 1000000) mod 2 ^ 32 = t0 div 1000000 \<longleftrightarrow> t0 div 1000000 < 2 ^ 32"
    by (metis mod_pos_pos_trivial pos_mod_bound zero_less_numeral zero_less_power)
  then show ?thesis using s u by (simp add: meter_now_ms_def)
qed

theorem meter_latency_witness:
  "let s = fold (meter_receive quiet_os ''temp'') [take 7 (line_bytes (sample_line ''temp'' 3 (gen_now_ms (2 ^ 32 * 1000000)) 5)),
         drop 7 (line_bytes (sample_line ''temp'' 3 (gen_now_ms (2 ^ 32 * 1000000)) 5))]
       \<lparr>me_buffer = [], me_latencies = [], me_count = 0, me_kernel = 0\<rparr> in
     me_count s = 1 \<and> me_latencies s = [0 - (2 ^ 32) mod 2 ^ 32]"
  using meter_latency [of "''temp''" 5 quiet_os 0 0 0 "2 ^ 32 * 1000000"
      "[take 7 (line_bytes (sample_line ''temp'' 3 (gen_now_ms (2 ^ 32 * 1000000)) 5)),
        drop 7 (line_bytes (sample_line ''temp'' 3 (gen_now_ms (2 ^ 32 * 1000000)) 5))]" 3]
  by (simp add: Let_def quiet_os_def in_i32_def is_word_def is_space_def)

text \<open>The percentiles are measured latencies, between the smallest and the largest, and the 50th is at most
  the 99th.\<close>

lemma percentile_rank_less: "0 < n \<Longrightarrow> p \<le> 100 \<Longrightarrow> percentile_rank p n < n"
proof -
  assume "0 < n" "p \<le> 100"
  then have "2 * p * (n - 1) + 100 \<le> 200 * (n - 1) + 100" by simp
  also have "\<dots> < 200 * n" using \<open>0 < n\<close> by (cases n) simp_all
  finally show ?thesis by (simp add: percentile_rank_def div_less_iff_less_mult)
qed

lemma percentile_rank_mono: "p \<le> q \<Longrightarrow> percentile_rank p n \<le> percentile_rank q n"
  by (simp add: percentile_rank_def div_le_mono)

lemma percentiles_sound:
  assumes "ls \<noteq> []"
  shows "percentile ls 50 \<in> set ls" "percentile ls 99 \<in> set ls" "percentile ls 50 \<le> percentile ls 99"
proof -
  have r: "percentile_rank p (length ls) < length ls" if "p \<le> 100" for p
    using percentile_rank_less [of "length ls" p] assms that by simp
  show "percentile ls 50 \<in> set ls" "percentile ls 99 \<in> set ls"
    using r [of 50] r [of 99] nth_mem [of _ "sort ls"] by (simp_all add: percentile_def)
  show "percentile ls 50 \<le> percentile ls 99"
    using r [of 99] percentile_rank_mono [of 50 99 "length ls"]
    by (simp add: percentile_def sorted_nth_mono)
qed





end
