(* ===== verification/Core_Functions.thy ===== *)
theory Core_Functions
  imports Mmio Core_Cm3 Cmsdk_Device
begin

section \<open>Interrupt controller, system timer and trace functions (node/cmsis/core_cm3.h)\<close>

text \<open>
  The inline functions of core_cm3.h over the register bus, with the register blocks and bit-field macros
  of \<open>Core_Cm3\<close> and three priority bits (CMSDK_CM3.h). An interrupt number is an \<open>int\<close>, negative for
  a processor exception; \<open>(uint32_t)IRQn\<close> is \<open>word_of_int\<close>. An index outside its register array is
  \<open>None\<close>. The barriers order memory accesses, which the bus performs in program order anyway.
\<close>

subsection \<open>Register arrays and macros\<close>

fun array_of :: "c_member list \<Rightarrow> string \<Rightarrow> (c_type \<times> nat) option" where
  "array_of [] x = None"
| "array_of (Member y t n # ms) x = (if x = y then Some (t, n) else array_of ms x)"
| "array_of (Union ts n # ms) x = array_of ms x"

definition reg_elem :: "nat \<Rightarrow> c_member list \<Rightarrow> string \<Rightarrow> nat \<Rightarrow> nat option" where
  "reg_elem base s x i =
     (case array_of s x of
        Some (t, n) \<Rightarrow> if i < n then Some (reg_at base s x t i) else None
      | None \<Rightarrow> None)"

definition field_in :: "register_fields list \<Rightarrow> string \<Rightarrow> string \<Rightarrow> (nat \<times> u32 option) option" where
  "field_in fs r x = Option.bind (map_of fs r) (\<lambda>f. map_of f x)"

definition Pos :: "register_fields list \<Rightarrow> string \<Rightarrow> string \<Rightarrow> nat" where
  "Pos fs r x = (case field_in fs r x of Some (p, m) \<Rightarrow> p | None \<Rightarrow> 0)"

definition Msk :: "register_fields list \<Rightarrow> string \<Rightarrow> string \<Rightarrow> u32" where
  "Msk fs r x = (case field_in fs r x of Some (p, Some m) \<Rightarrow> m | _ \<Rightarrow> 0)"

definition NVIC_USER_IRQ_OFFSET :: int where "NVIC_USER_IRQ_OFFSET = 16"

subsection \<open>Enabling, pending and active interrupts\<close>

text \<open>\<open>IRQn >> 5\<close> and \<open>1 << (IRQn & 0x1F)\<close>.\<close>

definition irq_index :: "int \<Rightarrow> nat" where
  "irq_index IRQn = unat (drop_bit 5 (word_of_int IRQn :: u32))"

definition irq_bit :: "int \<Rightarrow> u32" where
  "irq_bit IRQn = push_bit (unat ((word_of_int IRQn :: u32) AND 0x1F)) 1"

text \<open>The shape that the seven functions share: a store of the interrupt's bit to its word of the array,
  nothing for a processor exception; and a load that yields 1 when the bit is set, 0 for an exception.\<close>

definition nvic_store :: "string \<Rightarrow> 'h bus \<Rightarrow> int \<Rightarrow> 'h \<Rightarrow> 'h option" where
  "nvic_store x B IRQn h =
     (if IRQn \<ge> 0 then
        map_option (\<lambda>a. bus_write B a (irq_bit IRQn) h) (reg_elem NVIC_BASE NVIC_Type x (irq_index IRQn))
      else Some h)"

definition nvic_load :: "string \<Rightarrow> 'h bus \<Rightarrow> int \<Rightarrow> 'h \<Rightarrow> (u32 \<times> 'h) option" where
  "nvic_load x B IRQn h =
     (if IRQn \<ge> 0 then
        map_option (\<lambda>a. let (v, h) = bus_read B a h in (if v AND irq_bit IRQn \<noteq> 0 then 1 else 0, h))
          (reg_elem NVIC_BASE NVIC_Type x (irq_index IRQn))
      else Some (0, h))"

definition NVIC_EnableIRQ :: "'h bus \<Rightarrow> int \<Rightarrow> 'h \<Rightarrow> 'h option" where
  "NVIC_EnableIRQ = nvic_store ''ISER''"

definition NVIC_GetEnableIRQ :: "'h bus \<Rightarrow> int \<Rightarrow> 'h \<Rightarrow> (u32 \<times> 'h) option" where
  "NVIC_GetEnableIRQ = nvic_load ''ISER''"

definition NVIC_DisableIRQ :: "'h bus \<Rightarrow> int \<Rightarrow> 'h \<Rightarrow> 'h option" where
  "NVIC_DisableIRQ = nvic_store ''ICER''"

definition NVIC_GetPendingIRQ :: "'h bus \<Rightarrow> int \<Rightarrow> 'h \<Rightarrow> (u32 \<times> 'h) option" where
  "NVIC_GetPendingIRQ = nvic_load ''ISPR''"

definition NVIC_SetPendingIRQ :: "'h bus \<Rightarrow> int \<Rightarrow> 'h \<Rightarrow> 'h option" where
  "NVIC_SetPendingIRQ = nvic_store ''ISPR''"

definition NVIC_ClearPendingIRQ :: "'h bus \<Rightarrow> int \<Rightarrow> 'h \<Rightarrow> 'h option" where
  "NVIC_ClearPendingIRQ = nvic_store ''ICPR''"

definition NVIC_GetActive :: "'h bus \<Rightarrow> int \<Rightarrow> 'h \<Rightarrow> (u32 \<times> 'h) option" where
  "NVIC_GetActive = nvic_load ''IABR''"

subsection \<open>Priorities\<close>

definition NVIC_SetPriorityGrouping :: "'h bus \<Rightarrow> u32 \<Rightarrow> 'h \<Rightarrow> 'h" where
  "NVIC_SetPriorityGrouping B PriorityGroup h =
     (let PriorityGroupTmp = PriorityGroup AND 7;
          (reg_value, h) = bus_read B (reg SCB_BASE SCB_Type ''AIRCR'') h;
          reg_value = reg_value AND
            NOT (Msk SCB_control_fields ''AIRCR'' ''VECTKEY'' OR Msk SCB_control_fields ''AIRCR'' ''PRIGROUP'');
          reg_value = reg_value OR push_bit (Pos SCB_control_fields ''AIRCR'' ''VECTKEY'') 0x5FA
            OR push_bit (Pos SCB_control_fields ''AIRCR'' ''PRIGROUP'') PriorityGroupTmp in
      bus_write B (reg SCB_BASE SCB_Type ''AIRCR'') reg_value h)"

definition NVIC_GetPriorityGrouping :: "'h bus \<Rightarrow> 'h \<Rightarrow> u32 \<times> 'h" where
  "NVIC_GetPriorityGrouping B h =
     (let (v, h) = bus_read B (reg SCB_BASE SCB_Type ''AIRCR'') h in
      (drop_bit (Pos SCB_control_fields ''AIRCR'' ''PRIGROUP'')
         (v AND Msk SCB_control_fields ''AIRCR'' ''PRIGROUP''), h))"

text \<open>The byte that holds an interrupt's priority, and the byte's value for a priority.\<close>

definition priority_reg :: "int \<Rightarrow> nat option" where
  "priority_reg IRQn =
     (if IRQn \<ge> 0 then reg_elem NVIC_BASE NVIC_Type ''IP'' (unat (word_of_int IRQn :: u32))
      else reg_elem SCB_BASE SCB_Type ''SHP'' (unat (((word_of_int IRQn :: u32) AND 0xF) - 4)))"

definition priority_byte :: "u32 \<Rightarrow> u8" where
  "priority_byte priority = ucast (push_bit (8 - NVIC_PRIO_BITS) priority AND 0xFF)"

definition NVIC_SetPriority :: "'h bus \<Rightarrow> int \<Rightarrow> u32 \<Rightarrow> 'h \<Rightarrow> 'h option" where
  "NVIC_SetPriority B IRQn priority h =
     map_option (\<lambda>a. bus_write8 B a (priority_byte priority) h) (priority_reg IRQn)"

definition NVIC_GetPriority :: "'h bus \<Rightarrow> int \<Rightarrow> 'h \<Rightarrow> (u32 \<times> 'h) option" where
  "NVIC_GetPriority B IRQn h =
     map_option (\<lambda>a. let (b, h) = bus_read8 B a h in (drop_bit (8 - NVIC_PRIO_BITS) (ucast b), h))
       (priority_reg IRQn)"

text \<open>How many bits of a priority are for pre-emption and how many for the sub-priority.\<close>

definition PreemptPriorityBits :: "u32 \<Rightarrow> u32" where
  "PreemptPriorityBits g = (if 7 - g > of_nat NVIC_PRIO_BITS then of_nat NVIC_PRIO_BITS else 7 - g)"

definition SubPriorityBits :: "u32 \<Rightarrow> u32" where
  "SubPriorityBits g = (if g + of_nat NVIC_PRIO_BITS < 7 then 0 else (g - 7) + of_nat NVIC_PRIO_BITS)"

definition low_bits :: "u32 \<Rightarrow> u32" where
  "low_bits n = push_bit (unat n) 1 - 1"

definition NVIC_EncodePriority :: "u32 \<Rightarrow> u32 \<Rightarrow> u32 \<Rightarrow> u32" where
  "NVIC_EncodePriority PriorityGroup PreemptPriority SubPriority =
     (let g = PriorityGroup AND 7 in
      push_bit (unat (SubPriorityBits g)) (PreemptPriority AND low_bits (PreemptPriorityBits g)) OR
      (SubPriority AND low_bits (SubPriorityBits g)))"

definition NVIC_DecodePriority :: "u32 \<Rightarrow> u32 \<Rightarrow> u32 \<times> u32" where
  "NVIC_DecodePriority Priority PriorityGroup =
     (let g = PriorityGroup AND 7 in
      (drop_bit (unat (SubPriorityBits g)) Priority AND low_bits (PreemptPriorityBits g),
       Priority AND low_bits (SubPriorityBits g)))"

subsection \<open>Vectors and reset\<close>

text \<open>The table is memory at the address in VTOR.\<close>

definition vector_slot :: "u32 \<Rightarrow> int \<Rightarrow> nat" where
  "vector_slot vtor IRQn = nat (uint vtor + 4 * (IRQn + NVIC_USER_IRQ_OFFSET))"

definition NVIC_SetVector :: "'h bus \<Rightarrow> int \<Rightarrow> u32 \<Rightarrow> 'h \<Rightarrow> 'h" where
  "NVIC_SetVector B IRQn vector h =
     (let (vectors, h) = bus_read B (reg SCB_BASE SCB_Type ''VTOR'') h in
      bus_write B (vector_slot vectors IRQn) vector h)"

definition NVIC_GetVector :: "'h bus \<Rightarrow> int \<Rightarrow> 'h \<Rightarrow> u32 \<times> 'h" where
  "NVIC_GetVector B IRQn h =
     (let (vectors, h) = bus_read B (reg SCB_BASE SCB_Type ''VTOR'') h in
      bus_read B (vector_slot vectors IRQn) h)"

text \<open>The state in which the endless loop waits for the reset.\<close>

definition NVIC_SystemReset :: "'h bus \<Rightarrow> 'h \<Rightarrow> 'h" where
  "NVIC_SystemReset B h =
     (let (v, h) = bus_read B (reg SCB_BASE SCB_Type ''AIRCR'') h in
      bus_write B (reg SCB_BASE SCB_Type ''AIRCR'')
        (push_bit (Pos SCB_control_fields ''AIRCR'' ''VECTKEY'') 0x5FA OR
         (v AND Msk SCB_control_fields ''AIRCR'' ''PRIGROUP'') OR
         Msk SCB_control_fields ''AIRCR'' ''SYSRESETREQ'') h)"

definition SCB_GetFPUType :: u32 where "SCB_GetFPUType = 0"

subsection \<open>System timer\<close>

definition SysTick_IRQn :: int where "SysTick_IRQn = -1"

definition SysTick_Config :: "'h bus \<Rightarrow> u32 \<Rightarrow> 'h \<Rightarrow> (u32 \<times> 'h) option" where
  "SysTick_Config B ticks h =
     (if ticks - 1 > Msk SysTick_fields ''LOAD'' ''RELOAD'' then Some (1, h)
      else
        let h = bus_write B (reg SysTick_BASE SysTick_Type ''LOAD'') (ticks - 1) h in
        map_option (\<lambda>h.
          let h = bus_write B (reg SysTick_BASE SysTick_Type ''VAL'') 0 h;
              h = bus_write B (reg SysTick_BASE SysTick_Type ''CTRL'')
                (Msk SysTick_fields ''CTRL'' ''CLKSOURCE'' OR Msk SysTick_fields ''CTRL'' ''TICKINT''
                 OR Msk SysTick_fields ''CTRL'' ''ENABLE'') h in
          (0, h))
        (NVIC_SetPriority B SysTick_IRQn (push_bit (NVIC_PRIO_BITS) 1 - 1) h))"

subsection \<open>Debug input and output\<close>

partial_function (option) itm_wait :: "'h bus \<Rightarrow> 'h \<Rightarrow> 'h option" where
  "itm_wait B h =
     (case bus_read B (reg ITM_BASE ITM_Type ''u32'') h of (v, h) \<Rightarrow>
        if v = 0 then itm_wait B h else Some h)"

definition ITM_SendChar :: "'h bus \<Rightarrow> u32 \<Rightarrow> 'h \<Rightarrow> (u32 \<times> 'h) option" where
  "ITM_SendChar B ch h =
     (let (tcr, h) = bus_read B (reg ITM_BASE ITM_Type ''TCR'') h in
      if tcr AND Msk ITM_fields ''TCR'' ''ITMENA'' \<noteq> 0 then
        let (ter, h) = bus_read B (reg ITM_BASE ITM_Type ''TER'') h in
        if ter AND 1 \<noteq> 0 then
          map_option (\<lambda>h. (ch, bus_write8 B (reg ITM_BASE ITM_Type ''u8'') (ucast ch) h)) (itm_wait B h)
        else Some (ch, h)
      else Some (ch, h))"

text \<open>\<open>ITM_RxBuffer\<close> as the 32 bits it holds; the results as signed integers.\<close>

definition ITM_RXBUFFER_EMPTY :: u32 where "ITM_RXBUFFER_EMPTY = 0x5AA55AA5"

definition ITM_ReceiveChar :: "u32 \<Rightarrow> i32 \<times> u32" where
  "ITM_ReceiveChar ITM_RxBuffer =
     (if ITM_RxBuffer \<noteq> ITM_RXBUFFER_EMPTY then (sint ITM_RxBuffer, ITM_RXBUFFER_EMPTY)
      else (-1, ITM_RxBuffer))"

definition ITM_CheckChar :: "u32 \<Rightarrow> i32" where
  "ITM_CheckChar ITM_RxBuffer = (if ITM_RxBuffer = ITM_RXBUFFER_EMPTY then 0 else 1)"

subsection \<open>Addresses and masks, evaluated\<close>

lemma core_offsets:
  "offset_of NVIC_Type ''ISER'' = Some 0" "offset_of NVIC_Type ''ICER'' = Some 0x80"
  "offset_of NVIC_Type ''ISPR'' = Some 0x100" "offset_of NVIC_Type ''ICPR'' = Some 0x180"
  "offset_of NVIC_Type ''IABR'' = Some 0x200" "offset_of NVIC_Type ''IP'' = Some 0x300"
  "offset_of SCB_Type ''VTOR'' = Some 8" "offset_of SCB_Type ''AIRCR'' = Some 0xC"
  "offset_of SCB_Type ''SHP'' = Some 0x18" "offset_of SysTick_Type ''CTRL'' = Some 0"
  "offset_of SysTick_Type ''LOAD'' = Some 4" "offset_of SysTick_Type ''VAL'' = Some 8"
  by code_simp+

lemma core_regs [simp]:
  "reg SCB_BASE SCB_Type ''VTOR'' = 0xE000ED08" "reg SCB_BASE SCB_Type ''AIRCR'' = 0xE000ED0C"
  "reg SysTick_BASE SysTick_Type ''CTRL'' = 0xE000E010" "reg SysTick_BASE SysTick_Type ''LOAD'' = 0xE000E014"
  "reg SysTick_BASE SysTick_Type ''VAL'' = 0xE000E018"
  by (simp_all add: reg_def core_offsets SCB_BASE_def SysTick_BASE_def SCS_BASE_def)

lemma core_arrays:
  "array_of NVIC_Type ''ISER'' = Some (U32, 8)" "array_of NVIC_Type ''ICER'' = Some (U32, 8)"
  "array_of NVIC_Type ''ISPR'' = Some (U32, 8)" "array_of NVIC_Type ''ICPR'' = Some (U32, 8)"
  "array_of NVIC_Type ''IABR'' = Some (U32, 8)" "array_of NVIC_Type ''IP'' = Some (U8, 240)"
  "array_of SCB_Type ''SHP'' = Some (U8, 12)"
  by (simp_all add: NVIC_Type_def SCB_Type_def)

lemma reg_elem_NVIC [simp]:
  "reg_elem NVIC_BASE NVIC_Type ''ISER'' i = (if i < 8 then Some (0xE000E100 + 4 * i) else None)"
  "reg_elem NVIC_BASE NVIC_Type ''ICER'' i = (if i < 8 then Some (0xE000E180 + 4 * i) else None)"
  "reg_elem NVIC_BASE NVIC_Type ''ISPR'' i = (if i < 8 then Some (0xE000E200 + 4 * i) else None)"
  "reg_elem NVIC_BASE NVIC_Type ''ICPR'' i = (if i < 8 then Some (0xE000E280 + 4 * i) else None)"
  "reg_elem NVIC_BASE NVIC_Type ''IABR'' i = (if i < 8 then Some (0xE000E300 + 4 * i) else None)"
  "reg_elem NVIC_BASE NVIC_Type ''IP'' i = (if i < 240 then Some (0xE000E400 + i) else None)"
  "reg_elem SCB_BASE SCB_Type ''SHP'' i = (if i < 12 then Some (0xE000ED18 + i) else None)"
  by (simp_all add: reg_elem_def core_arrays reg_at_def reg_def core_offsets
      NVIC_BASE_def SCB_BASE_def SCS_BASE_def)

lemma core_masks [simp]:
  "Msk SCB_control_fields ''AIRCR'' ''VECTKEY'' = 0xFFFF0000"
  "Pos SCB_control_fields ''AIRCR'' ''VECTKEY'' = 16"
  "Msk SCB_control_fields ''AIRCR'' ''PRIGROUP'' = 0x700"
  "Pos SCB_control_fields ''AIRCR'' ''PRIGROUP'' = 8"
  "Msk SCB_control_fields ''AIRCR'' ''SYSRESETREQ'' = 4"
  "Msk SysTick_fields ''LOAD'' ''RELOAD'' = 0xFFFFFF"
  "Msk SysTick_fields ''CTRL'' ''CLKSOURCE'' = 4" "Msk SysTick_fields ''CTRL'' ''TICKINT'' = 2"
  "Msk SysTick_fields ''CTRL'' ''ENABLE'' = 1"
  by (simp_all add: Msk_def Pos_def field_in_def SCB_control_fields_def SysTick_fields_def
      shifted_def unshifted_def)

subsection \<open>Priority arithmetic\<close>

lemma and_seven_cases:
  fixes g :: u32
  obtains "g AND 7 = 0" | "g AND 7 = 1" | "g AND 7 = 2" | "g AND 7 = 3" | "g AND 7 = 4" | "g AND 7 = 5"
  | "g AND 7 = 6" | "g AND 7 = 7"
proof -
  have "g AND 7 = take_bit 3 g" by (simp add: take_bit_eq_mask mask_eq_exp_minus_1)
  then have "unat (g AND 7) < 8" using take_bit_nat_less_exp [of 3 "unat g"] by (simp add: unsigned_take_bit_eq)
  then have "unat (g AND 7) \<in> set [0, 1, 2, 3, 4, 5, 6, 7]" by auto
  then have "of_nat (unat (g AND 7)) \<in> (set [0, 1, 2, 3, 4, 5, 6, 7] :: u32 set)"
    by (auto simp del: of_nat_unat)
  then have "g AND 7 \<in> set [0, 1, 2, 3, 4, 5, 6, 7]" by simp
  then show thesis using that by auto
qed

text \<open>Of the three priority bits, group 7 to 4 leaves none to three for pre-emption; below that all three.\<close>

lemma priority_bits:
  "unat (PreemptPriorityBits (g AND 7)) + unat (SubPriorityBits (g AND 7)) = 3"
  by (cases rule: and_seven_cases [of g]) (simp_all add: PreemptPriorityBits_def SubPriorityBits_def NVIC_PRIO_BITS_def)

lemma low_bits_mask: "low_bits n = mask (unat n)"
  by (simp add: low_bits_def mask_eq_exp_minus_1 push_bit_eq_mult)

lemma encode_bits:
  "bit (NVIC_EncodePriority g p s) i \<longleftrightarrow> i < 3 \<and>
     (if i < unat (SubPriorityBits (g AND 7)) then bit s i else bit p (i - unat (SubPriorityBits (g AND 7))))"
  using priority_bits [of g]
  by (auto simp: NVIC_EncodePriority_def Let_def low_bits_mask bit_simps)

lemma encode_in_range: "take_bit 3 (NVIC_EncodePriority g p s) = NVIC_EncodePriority g p s"
  by (rule bit_word_eqI) (auto simp: bit_simps encode_bits)

lemma decode_encode:
  "NVIC_DecodePriority (NVIC_EncodePriority g p s) g =
     (take_bit (unat (PreemptPriorityBits (g AND 7))) p, take_bit (unat (SubPriorityBits (g AND 7))) s)"
  using priority_bits [of g]
  by (auto simp: NVIC_DecodePriority_def Let_def low_bits_mask bit_simps encode_bits intro!: bit_word_eqI)

subsection \<open>The interrupt controller\<close>

text \<open>What the functions rely on, for the interrupts of this device: a one written to a bit of ISER or
  ICER enables or disables that interrupt and a zero changes nothing; reading ISER reports them; a priority
  byte keeps the three implemented bits of what is written and reads them back.\<close>

record 'h nvic_view =
  enabled :: "'h \<Rightarrow> int \<Rightarrow> bool"
  prio :: "'h \<Rightarrow> int \<Rightarrow> u8"

definition device_irq :: "int \<Rightarrow> bool" where
  "device_irq n \<longleftrightarrow> 0 \<le> n \<and> n \<in> snd ` set IRQn_Type"

text \<open>The non-maskable interrupt and the hard fault have fixed priorities.\<close>

definition has_priority :: "int \<Rightarrow> bool" where
  "has_priority n \<longleftrightarrow> -12 \<le> n \<and> n \<in> snd ` set IRQn_Type"

definition same_view :: "'h nvic_view \<Rightarrow> 'h \<Rightarrow> 'h \<Rightarrow> bool" where
  "same_view V h h' \<longleftrightarrow>
     (\<forall>n. device_irq n \<longrightarrow> enabled V h' n = enabled V h n) \<and> (\<forall>n. has_priority n \<longrightarrow> prio V h' n = prio V h n)"

definition nvic_ok :: "'h bus \<Rightarrow> 'h nvic_view \<Rightarrow> bool" where
  "nvic_ok B V \<longleftrightarrow>
     (\<forall>a w h n. reg_elem NVIC_BASE NVIC_Type ''ISER'' 0 = Some a \<longrightarrow> device_irq n \<longrightarrow>
        (enabled V (bus_write B a w h) n \<longleftrightarrow> enabled V h n \<or> bit w (nat n))) \<and>
     (\<forall>a w h n. reg_elem NVIC_BASE NVIC_Type ''ICER'' 0 = Some a \<longrightarrow> device_irq n \<longrightarrow>
        (enabled V (bus_write B a w h) n \<longleftrightarrow> enabled V h n \<and> \<not> bit w (nat n))) \<and>
     (\<forall>a h v h' n. reg_elem NVIC_BASE NVIC_Type ''ISER'' 0 = Some a \<longrightarrow> bus_read B a h = (v, h') \<longrightarrow>
        same_view V h h' \<and> (device_irq n \<longrightarrow> bit v (nat n) = enabled V h n)) \<and>
     (\<forall>n a b h m. has_priority n \<longrightarrow> priority_reg n = Some a \<longrightarrow> has_priority m \<longrightarrow>
        prio V (bus_write8 B a b h) m = (if m = n then b AND 0xE0 else prio V h m)) \<and>
     (\<forall>n a h b h'. has_priority n \<longrightarrow> priority_reg n = Some a \<longrightarrow> bus_read8 B a h = (b, h') \<longrightarrow>
        same_view V h h' \<and> b = prio V h n)"

lemma device_irq_iff: "device_irq n \<longleftrightarrow> 0 \<le> n \<and> n < 32"
proof -
  have "list_all (\<lambda>i. i \<in> set (map snd IRQn_Type)) [0..31]" by code_simp
  then have "n \<in> snd ` set IRQn_Type" if "0 \<le> n" "n < 32" using that by (auto simp: list_all_iff)
  then show ?thesis by (auto simp: device_irq_def IRQn_Type_def)
qed

lemma has_priority_iff: "has_priority n \<longleftrightarrow> n \<in> {-12, -11, -10, -5, -4, -2, -1} \<or> device_irq n"
  by (auto simp: has_priority_def device_irq_def IRQn_Type_def)

lemma word_of_small: "0 \<le> n \<Longrightarrow> n < 32 \<Longrightarrow> unat (word_of_int n :: u32) = nat n"
  by (simp add: unsigned_of_int take_bit_int_eq_self)

lemma irq_word: "device_irq n \<Longrightarrow> irq_index n = 0 \<and> irq_bit n = push_bit (nat n) 1"
proof -
  assume "device_irq n"
  then have n: "0 \<le> n" "n < 32" by (simp_all add: device_irq_iff)
  have "unat ((word_of_int n :: u32) AND 0x1F) = unat (take_bit 5 (word_of_int n :: u32))"
    by (simp add: take_bit_eq_mask mask_eq_exp_minus_1)
  also have "\<dots> = nat n"
    using n by (simp add: unsigned_take_bit_eq word_of_small take_bit_nat_eq_self nat_less_iff)
  finally show ?thesis
    using n by (simp add: irq_index_def irq_bit_def unat_drop_bit_eq word_of_small drop_bit_nat_def)
qed

lemma and_irq_bit: "device_irq n \<Longrightarrow> v AND irq_bit n \<noteq> 0 \<longleftrightarrow> bit v (nat n)"
proof -
  assume d: "device_irq n"
  then have "v AND irq_bit n = push_bit (nat n) (of_bool (bit v (nat n)))"
    by (intro bit_word_eqI) (auto simp: irq_word bit_simps)
  moreover have "push_bit (nat n) (of_bool (bit v (nat n)) :: u32) \<noteq> 0 \<longleftrightarrow> bit v (nat n)"
    using d by (auto simp: device_irq_iff push_bit_eq_mult)
  ultimately show ?thesis by simp
qed

lemma bit_irq_bit: "device_irq n \<Longrightarrow> device_irq m \<Longrightarrow> bit (irq_bit n) (nat m) \<longleftrightarrow> m = n"
  by (auto simp: irq_word bit_simps device_irq_iff)

text \<open>Every interrupt whose priority can be set has a byte; the other two exceptions have none.\<close>

lemma priority_reg_defined: "has_priority n \<Longrightarrow> \<exists>a. priority_reg n = Some a"
  by (auto simp: has_priority_iff priority_reg_def device_irq_iff word_of_small)

lemma priority_reg_fixed: "priority_reg (-14) = None" "priority_reg (-13) = None"
  by (simp_all add: priority_reg_def unsigned_minus_1_eq_mask mask_eq_exp_minus_1)

lemma priority_byte_back: "drop_bit 5 (ucast (priority_byte p AND 0xE0) :: u32) = take_bit 3 p"
proof -
  have masks: "(0xE0 :: u8) = push_bit 5 (mask 3)" "(0xFF :: u32) = mask 8"
    by (simp_all add: mask_eq_exp_minus_1 push_bit_eq_mult)
  show ?thesis unfolding priority_byte_def masks
    by (intro bit_word_eqI) (auto simp: NVIC_PRIO_BITS_def bit_simps)
qed

subsection \<open>The functions on the controller\<close>

lemma enable_ok:
  assumes "nvic_ok B V" and "device_irq n"
  shows "\<exists>h'. NVIC_EnableIRQ B n h = Some h' \<and> (\<forall>m. device_irq m \<longrightarrow> enabled V h' m = (m = n \<or> enabled V h m))"
  using assms by (auto simp: NVIC_EnableIRQ_def nvic_store_def irq_word [OF assms(2)] nvic_ok_def
      device_irq_iff bit_simps)

lemma disable_ok:
  assumes "nvic_ok B V" and "device_irq n"
  shows "\<exists>h'. NVIC_DisableIRQ B n h = Some h' \<and> (\<forall>m. device_irq m \<longrightarrow> enabled V h' m = (m \<noteq> n \<and> enabled V h m))"
  using assms by (auto simp: NVIC_DisableIRQ_def nvic_store_def irq_word [OF assms(2)] nvic_ok_def
      device_irq_iff bit_simps)

lemma get_enable_ok:
  assumes "nvic_ok B V" and "device_irq n"
  shows "\<exists>h'. NVIC_GetEnableIRQ B n h = Some (of_bool (enabled V h n), h') \<and> same_view V h h'"
proof -
  obtain v h' where r: "bus_read B 0xE000E100 h = (v, h')" by fastforce
  then have "same_view V h h'" "bit v (nat n) = enabled V h n"
    using assms unfolding nvic_ok_def by auto
  then show ?thesis
    using assms(2) r and_irq_bit [OF assms(2), of v]
    by (simp add: NVIC_GetEnableIRQ_def nvic_load_def irq_word device_irq_iff)
qed

lemma set_priority_ok:
  assumes "nvic_ok B V" and "has_priority n"
  shows "\<exists>h'. NVIC_SetPriority B n p h = Some h' \<and>
    (\<forall>m. has_priority m \<longrightarrow> prio V h' m = (if m = n then priority_byte p AND 0xE0 else prio V h m))"
proof -
  obtain a where "priority_reg n = Some a" using priority_reg_defined [OF assms(2)] by blast
  then show ?thesis using assms by (auto simp: NVIC_SetPriority_def nvic_ok_def)
qed

lemma get_priority_ok:
  assumes "nvic_ok B V" and "has_priority n"
  shows "\<exists>h'. NVIC_GetPriority B n h = Some (drop_bit 5 (ucast (prio V h n)), h') \<and> same_view V h h'"
proof -
  obtain a where a: "priority_reg n = Some a" using priority_reg_defined [OF assms(2)] by blast
  obtain b h' where r: "bus_read8 B a h = (b, h')" by fastforce
  have "same_view V h h' \<and> b = prio V h n"
    using assms a r unfolding nvic_ok_def by blast
  then show ?thesis using a r by (simp add: NVIC_GetPriority_def NVIC_PRIO_BITS_def)
qed

text \<open>\<open>SysTick_Config\<close> refuses exactly the periods that do not fit the 24-bit reload register; otherwise it
  sets the reload value, the lowest priority, a fresh count, and then starts the timer with its interrupt.\<close>

lemma systick_refuses: "SysTick_Config B ticks h = Some (1, h) \<or> 0 < ticks \<and> ticks \<le> 0x1000000"
proof -
  have "ticks - 1 \<le> 0xFFFFFF \<Longrightarrow> 0 < ticks \<and> ticks \<le> 0x1000000"
  proof -
    assume le: "ticks - 1 \<le> 0xFFFFFF"
    then have "ticks \<noteq> 0" by (auto simp: word_le_nat_alt unsigned_minus_1_eq_mask mask_eq_exp_minus_1)
    then have "0 < ticks" by (simp add: word_neq_0_conv)
    moreover have "unat (ticks - 1) = unat ticks - 1" using \<open>0 < ticks\<close> by (simp add: unat_minus_one \<open>ticks \<noteq> 0\<close>)
    ultimately show ?thesis using le by (simp add: word_le_nat_alt)
  qed
  then show ?thesis by (cases "ticks - 1 > 0xFFFFFF") (auto simp: SysTick_Config_def not_less)
qed

lemma systick_starts:
  assumes "0 < ticks" and "ticks \<le> 0x1000000"
  shows "SysTick_Config B ticks h =
     Some (0, bus_write B 0xE000E010 7 (bus_write B 0xE000E018 0
       (bus_write8 B 0xE000ED23 0xE0 (bus_write B 0xE000E014 (ticks - 1) h))))"
proof -
  have "ticks \<noteq> 0" using assms(1) by auto
  then have "unat (ticks - 1) = unat ticks - 1" by (rule unat_minus_one)
  then have "\<not> 0xFFFFFF < ticks - 1" using assms by (simp add: word_less_nat_alt word_le_nat_alt)
  moreover have "priority_reg SysTick_IRQn = Some 0xE000ED23" by (simp add: priority_reg_def SysTick_IRQn_def)
  moreover have "priority_byte (push_bit (NVIC_PRIO_BITS) 1 - 1) = 0xE0"
    by (simp add: priority_byte_def NVIC_PRIO_BITS_def)
  ultimately show ?thesis by (simp add: SysTick_Config_def NVIC_SetPriority_def Let_def)
qed

text \<open>A received character is handed out once.\<close>

lemma itm_receive_once:
  "ITM_CheckChar w = 1 \<Longrightarrow> ITM_ReceiveChar w = (sint w, w') \<Longrightarrow> ITM_CheckChar w' = 0 \<and> ITM_ReceiveChar w' = (-1, w')"
  by (auto simp: ITM_CheckChar_def ITM_ReceiveChar_def split: if_splits)

text \<open>\<open>ITM_SendChar\<close> waits only as long as the port is busy.\<close>

lemma itm_wait_returns:
  assumes "\<And>h v h'. bus_read B (reg ITM_BASE ITM_Type ''u32'') h = (v, h') \<Longrightarrow>
    (v = 0 \<longleftrightarrow> 0 < busy_for h) \<and> busy_for h' \<le> busy_for h - (1 :: nat)"
  shows "\<exists>h'. itm_wait B h = Some h' \<and> busy_for h' = 0"
proof (induction "busy_for h" arbitrary: h rule: less_induct)
  case less
  obtain v h1 where r: "bus_read B (reg ITM_BASE ITM_Type ''u32'') h = (v, h1)" by fastforce
  note law = assms [OF r]
  show ?case
  proof (cases "v = 0")
    case True
    then have "busy_for h1 < busy_for h" using law by linarith
    from less [OF this] show ?thesis using True r by (subst itm_wait.simps) simp
  next
    case False
    then show ?thesis using law r by (subst itm_wait.simps) simp
  qed
qed

text \<open>Setting the priority group writes the unlock key, the group's three bits, and the register's other
  bits as they were; a reset request keeps the group.\<close>

lemma grouping_written:
  assumes "bus_read B 0xE000ED0C h = (v, h1)"
  shows "NVIC_SetPriorityGrouping B g h = bus_write B 0xE000ED0C
    (push_bit 16 0x5FA OR push_bit 8 (take_bit 3 g) OR (v AND 0xF8FF)) h1"
proof -
  have "(0xF8FF :: u32) = mask 16 AND NOT (push_bit 8 (mask 3))" "(0x700 :: u32) = push_bit 8 (mask 3)"
    "(0xFFFF0000 :: u32) = push_bit 16 (mask 16)" "(7 :: u32) = mask 3"
    by (simp_all add: mask_eq_exp_minus_1 push_bit_eq_mult)
  note masks = this
  have "v AND NOT (0xFFFF0000 OR 0x700) OR push_bit 16 0x5FA OR push_bit 8 (g AND 7) =
      push_bit 16 0x5FA OR push_bit 8 (take_bit 3 g) OR (v AND 0xF8FF)"
    unfolding masks by (rule bit_word_eqI) (auto simp: bit_simps)
  then show ?thesis using assms by (simp add: NVIC_SetPriorityGrouping_def)
qed

lemma reset_requested:
  assumes "bus_read B 0xE000ED0C h = (v, h1)"
  shows "NVIC_SystemReset B h = bus_write B 0xE000ED0C (0x5FA0000 OR (v AND 0x700) OR 4) h1"
  using assms by (simp add: NVIC_SystemReset_def)

subsection \<open>A concrete controller\<close>

record sim_nvic =
  sn_enabled :: u32
  sn_bytes :: "nat \<Rightarrow> u8"

definition sim_nvic_bus :: "sim_nvic bus" where
  "sim_nvic_bus = \<lparr>
     bus_read = \<lambda>a h. (if a = 0xE000E100 then sn_enabled h else 0, h),
     bus_write = \<lambda>a w h.
       if a = 0xE000E100 then h\<lparr>sn_enabled := sn_enabled h OR w\<rparr>
       else if a = 0xE000E180 then h\<lparr>sn_enabled := sn_enabled h AND NOT w\<rparr> else h,
     bus_read8 = \<lambda>a h. (sn_bytes h a, h),
     bus_write8 = \<lambda>a b h. h\<lparr>sn_bytes := (sn_bytes h)(a := b AND 0xE0)\<rparr>\<rparr>"

definition sim_nvic_view :: "sim_nvic nvic_view" where
  "sim_nvic_view = \<lparr>enabled = \<lambda>h n. bit (sn_enabled h) (nat n),
     prio = \<lambda>h n. case priority_reg n of Some a \<Rightarrow> sn_bytes h a | None \<Rightarrow> 0\<rparr>"

text \<open>The interrupt number of a priority byte, so that no two share one.\<close>

lemma exception_regs:
  "priority_reg (-12) = Some 0xE000ED18" "priority_reg (-11) = Some 0xE000ED19"
  "priority_reg (-10) = Some 0xE000ED1A" "priority_reg (-5) = Some 0xE000ED1F"
  "priority_reg (-4) = Some 0xE000ED20" "priority_reg (-2) = Some 0xE000ED22"
  "priority_reg (-1) = Some 0xE000ED23"
  by (simp_all add: priority_reg_def)

lemma device_priority_reg: "device_irq n \<Longrightarrow> priority_reg n = Some (0xE000E400 + nat n)"
  by (auto simp: priority_reg_def device_irq_iff word_of_small)

lemma priority_reg_irq:
  "has_priority n \<Longrightarrow> priority_reg n = Some a \<Longrightarrow>
   n = (if a < 0xE000ED00 then int a - 0xE000E400 else int a - 0xE000ED24)"
  unfolding has_priority_iff
  by (elim disjE) (auto simp: exception_regs device_priority_reg device_irq_iff)

lemma sim_priority_write:
  assumes "has_priority n" "priority_reg n = Some a" "has_priority m"
  shows "prio sim_nvic_view (bus_write8 sim_nvic_bus a b h) m =
    (if m = n then b AND 0xE0 else prio sim_nvic_view h m)"
proof -
  obtain c where c: "priority_reg m = Some c" using priority_reg_defined [OF assms(3)] by blast
  have "c = a \<Longrightarrow> m = n"
    using priority_reg_irq [OF assms(1,2)] priority_reg_irq [OF assms(3) c] by (simp only:)
  moreover have "m = n \<Longrightarrow> c = a" using assms(2) c by simp
  ultimately show ?thesis using c assms(2) by (auto simp: sim_nvic_view_def sim_nvic_bus_def)
qed

lemma sim_nvic_ok: "nvic_ok sim_nvic_bus sim_nvic_view"
  unfolding nvic_ok_def
proof (intro conjI)
  show "\<forall>n a b h m. has_priority n \<longrightarrow> priority_reg n = Some a \<longrightarrow> has_priority m \<longrightarrow>
      prio sim_nvic_view (bus_write8 sim_nvic_bus a b h) m = (if m = n then b AND 0xE0 else prio sim_nvic_view h m)"
    by (simp add: sim_priority_write)
qed (auto simp: sim_nvic_view_def sim_nvic_bus_def same_view_def device_irq_iff bit_simps)

subsection \<open>Properties\<close>

text \<open>The interrupt functions. On an interrupt controller that behaves as documented, enabling an
  interrupt of the device enables that one and no other, and disabling likewise, as \<open>NVIC_GetEnableIRQ\<close> then
  reports; setting a priority changes the priority of that interrupt or exception only, and reading it
  back gives the three implemented bits; a priority composed of a pre-emption and a sub-priority for any
  priority group fits those bits and is decomposed into the two again, each cut to its share of the bits;
  for the two exceptions of fixed priority the byte's index is outside its array.\<close>

theorem nvic_contract:
  assumes "nvic_ok B V" and "device_irq i" and "device_irq j" and "has_priority p" and "has_priority q"
  shows "(\<exists>h1 h2. NVIC_EnableIRQ B i h = Some h1 \<and>
       NVIC_GetEnableIRQ B j h1 = Some (of_bool (j = i \<or> enabled V h j), h2)) \<and>
     (\<exists>h1 h2. NVIC_DisableIRQ B i h = Some h1 \<and>
       NVIC_GetEnableIRQ B j h1 = Some (of_bool (j \<noteq> i \<and> enabled V h j), h2)) \<and>
     (\<exists>h1 h2. NVIC_SetPriority B p v h = Some h1 \<and>
       NVIC_GetPriority B q h1 =
         Some (if q = p then take_bit 3 v else drop_bit 5 (ucast (prio V h q)), h2)) \<and>
     take_bit 3 (NVIC_EncodePriority g a b) = NVIC_EncodePriority g a b \<and>
     NVIC_DecodePriority (NVIC_EncodePriority g a b) g =
       (take_bit (unat (PreemptPriorityBits (g AND 7))) a, take_bit (unat (SubPriorityBits (g AND 7))) b) \<and>
     NVIC_SetPriority B (-14) v h = None \<and> NVIC_SetPriority B (-13) v h = None"
proof (intro conjI)
  obtain h1 where h1: "NVIC_EnableIRQ B i h = Some h1" "enabled V h1 j = (j = i \<or> enabled V h j)"
    using enable_ok [OF assms(1,2)] assms(3) by blast
  then show "\<exists>h1 h2. NVIC_EnableIRQ B i h = Some h1 \<and>
       NVIC_GetEnableIRQ B j h1 = Some (of_bool (j = i \<or> enabled V h j), h2)"
    using get_enable_ok [OF assms(1,3), of h1] by auto
  obtain h1 where h1: "NVIC_DisableIRQ B i h = Some h1" "enabled V h1 j = (j \<noteq> i \<and> enabled V h j)"
    using disable_ok [OF assms(1,2)] assms(3) by blast
  then show "\<exists>h1 h2. NVIC_DisableIRQ B i h = Some h1 \<and>
       NVIC_GetEnableIRQ B j h1 = Some (of_bool (j \<noteq> i \<and> enabled V h j), h2)"
    using get_enable_ok [OF assms(1,3), of h1] by auto
  obtain h1 where h1: "NVIC_SetPriority B p v h = Some h1"
    "prio V h1 q = (if q = p then priority_byte v AND 0xE0 else prio V h q)"
    using set_priority_ok [OF assms(1,4), of v h] assms(5) by blast
  then show "\<exists>h1 h2. NVIC_SetPriority B p v h = Some h1 \<and>
       NVIC_GetPriority B q h1 =
         Some (if q = p then take_bit 3 v else drop_bit 5 (ucast (prio V h q)), h2)"
    using get_priority_ok [OF assms(1,5), of h1] priority_byte_back [of v] by auto
qed (simp_all add: encode_in_range decode_encode NVIC_SetPriority_def priority_reg_fixed)

theorem nvic_contract_witness:
  "(\<exists>h1 h2. NVIC_EnableIRQ sim_nvic_bus 18 \<lparr>sn_enabled = 1, sn_bytes = \<lambda>_. 0\<rparr> = Some h1 \<and>
      NVIC_GetEnableIRQ sim_nvic_bus 18 h1 = Some (1, h2)) \<and>
   (\<exists>h1 h2. NVIC_SetPriority sim_nvic_bus (-1) 15 \<lparr>sn_enabled = 1, sn_bytes = \<lambda>_. 0\<rparr> = Some h1 \<and>
      NVIC_GetPriority sim_nvic_bus (-1) h1 = Some (7, h2))"
  using nvic_contract [OF sim_nvic_ok, of 18 18 "-1" "-1" "\<lparr>sn_enabled = 1, sn_bytes = \<lambda>_. 0\<rparr>" 15]
  by (simp add: has_priority_iff device_irq_iff)

end
