(* ===== verification/Mpu_Armv7.thy ===== *)
theory Mpu_Armv7
  imports Core_Functions
begin

section \<open>The memory protection unit (node/cmsis/mpu_armv7.h)\<close>

text \<open>
  The register values of a region as the header's macros compose them, and the functions that program the
  unit over the register bus. The four pairs of registers RBAR/RASR lie side by side and address the
  same region registers, which \<open>ARM_MPU_Load\<close> uses to write four rows of a table at a time; a
  read past the end of the table is \<open>None\<close>.
\<close>

subsection \<open>Register values\<close>

text \<open>The region size codes, each with the number of bytes that its comment gives.\<close>

definition ARM_MPU_REGION_SIZE :: "(string \<times> u8 \<times> nat) list" where
  "ARM_MPU_REGION_SIZE = [
     (''32B'', 0x04, 32), (''64B'', 0x05, 64), (''128B'', 0x06, 128), (''256B'', 0x07, 256),
     (''512B'', 0x08, 512), (''1KB'', 0x09, 1024), (''2KB'', 0x0A, 2 * 1024), (''4KB'', 0x0B, 4 * 1024),
     (''8KB'', 0x0C, 8 * 1024), (''16KB'', 0x0D, 16 * 1024), (''32KB'', 0x0E, 32 * 1024),
     (''64KB'', 0x0F, 64 * 1024), (''128KB'', 0x10, 128 * 1024), (''256KB'', 0x11, 256 * 1024),
     (''512KB'', 0x12, 512 * 1024), (''1MB'', 0x13, 1024 * 1024), (''2MB'', 0x14, 2 * 1024 * 1024),
     (''4MB'', 0x15, 4 * 1024 * 1024), (''8MB'', 0x16, 8 * 1024 * 1024), (''16MB'', 0x17, 16 * 1024 * 1024),
     (''32MB'', 0x18, 32 * 1024 * 1024), (''64MB'', 0x19, 64 * 1024 * 1024), (''128MB'', 0x1A, 128 * 1024 * 1024),
     (''256MB'', 0x1B, 256 * 1024 * 1024), (''512MB'', 0x1C, 512 * 1024 * 1024),
     (''1GB'', 0x1D, 1024 * 1024 * 1024), (''2GB'', 0x1E, 2 * 1024 * 1024 * 1024),
     (''4GB'', 0x1F, 4 * 1024 * 1024 * 1024)]"

definition ARM_MPU_AP :: "(string \<times> u32) list" where
  "ARM_MPU_AP = [(''NONE'', 0), (''PRIV'', 1), (''URO'', 2), (''FULL'', 3), (''PRO'', 5), (''RO'', 6)]"

definition ARM_MPU_RBAR :: "u32 \<Rightarrow> u32 \<Rightarrow> u32" where
  "ARM_MPU_RBAR Region BaseAddress =
     (BaseAddress AND Msk MPU_fields ''RBAR'' ''ADDR'') OR
     (Region AND Msk MPU_fields ''RBAR'' ''REGION'') OR
     Msk MPU_fields ''RBAR'' ''VALID''"

definition ARM_MPU_ACCESS :: "u32 \<Rightarrow> u32 \<Rightarrow> u32 \<Rightarrow> u32 \<Rightarrow> u32" where
  "ARM_MPU_ACCESS TypeExtField IsShareable IsCacheable IsBufferable =
     (push_bit (Pos MPU_fields ''RASR'' ''TEX'') TypeExtField AND Msk MPU_fields ''RASR'' ''TEX'') OR
     (push_bit (Pos MPU_fields ''RASR'' ''S'') IsShareable AND Msk MPU_fields ''RASR'' ''S'') OR
     (push_bit (Pos MPU_fields ''RASR'' ''C'') IsCacheable AND Msk MPU_fields ''RASR'' ''C'') OR
     (push_bit (Pos MPU_fields ''RASR'' ''B'') IsBufferable AND Msk MPU_fields ''RASR'' ''B'')"

definition ARM_MPU_RASR_EX :: "u32 \<Rightarrow> u32 \<Rightarrow> u32 \<Rightarrow> u32 \<Rightarrow> u32 \<Rightarrow> u32" where
  "ARM_MPU_RASR_EX DisableExec AccessPermission AccessAttributes SubRegionDisable Size =
     (push_bit (Pos MPU_fields ''RASR'' ''XN'') DisableExec AND Msk MPU_fields ''RASR'' ''XN'') OR
     (push_bit (Pos MPU_fields ''RASR'' ''AP'') AccessPermission AND Msk MPU_fields ''RASR'' ''AP'') OR
     (AccessAttributes AND (Msk MPU_fields ''RASR'' ''TEX'' OR Msk MPU_fields ''RASR'' ''S'' OR
        Msk MPU_fields ''RASR'' ''C'' OR Msk MPU_fields ''RASR'' ''B'')) OR
     (push_bit (Pos MPU_fields ''RASR'' ''SRD'') SubRegionDisable AND Msk MPU_fields ''RASR'' ''SRD'') OR
     (push_bit (Pos MPU_fields ''RASR'' ''SIZE'') Size AND Msk MPU_fields ''RASR'' ''SIZE'') OR
     Msk MPU_fields ''RASR'' ''ENABLE''"

definition ARM_MPU_RASR :: "u32 \<Rightarrow> u32 \<Rightarrow> u32 \<Rightarrow> u32 \<Rightarrow> u32 \<Rightarrow> u32 \<Rightarrow> u32 \<Rightarrow> u32 \<Rightarrow> u32" where
  "ARM_MPU_RASR DisableExec AccessPermission TypeExtField IsShareable IsCacheable IsBufferable
       SubRegionDisable Size =
     ARM_MPU_RASR_EX DisableExec AccessPermission
       (ARM_MPU_ACCESS TypeExtField IsShareable IsCacheable IsBufferable) SubRegionDisable Size"

definition ARM_MPU_ACCESS_ORDERED :: u32 where
  "ARM_MPU_ACCESS_ORDERED = ARM_MPU_ACCESS 0 1 0 0"

definition ARM_MPU_ACCESS_DEVICE :: "u32 \<Rightarrow> u32" where
  "ARM_MPU_ACCESS_DEVICE IsShareable =
     (if IsShareable \<noteq> 0 then ARM_MPU_ACCESS 0 1 0 1 else ARM_MPU_ACCESS 2 0 0 0)"

definition ARM_MPU_ACCESS_NORMAL :: "u32 \<Rightarrow> u32 \<Rightarrow> u32 \<Rightarrow> u32" where
  "ARM_MPU_ACCESS_NORMAL OuterCp InnerCp IsShareable =
     ARM_MPU_ACCESS (4 OR OuterCp) IsShareable (drop_bit 1 InnerCp) (InnerCp AND 1)"

definition ARM_MPU_CACHEP :: "(string \<times> u32) list" where
  "ARM_MPU_CACHEP = [(''NOCACHE'', 0), (''WB_WRA'', 1), (''WT_NWA'', 2), (''WB_NWA'', 3)]"

subsection \<open>Programming the unit\<close>

record ARM_MPU_Region_t =
  RBAR :: u32
  RASR :: u32

definition mpu_reg :: "string \<Rightarrow> nat" where
  "mpu_reg x = reg MPU_BASE MPU_Type x"

definition shcsr_reg :: nat where
  "shcsr_reg = reg SCB_BASE SCB_Type ''SHCSR''"

definition ARM_MPU_Enable :: "'h bus \<Rightarrow> u32 \<Rightarrow> 'h \<Rightarrow> 'h" where
  "ARM_MPU_Enable B MPU_Control h =
     (let h = bus_write B (mpu_reg ''CTRL'') (MPU_Control OR Msk MPU_fields ''CTRL'' ''ENABLE'') h;
          (v, h) = bus_read B shcsr_reg h in
      bus_write B shcsr_reg (v OR Msk SCB_fault_fields ''SHCSR'' ''MEMFAULTENA'') h)"

definition ARM_MPU_Disable :: "'h bus \<Rightarrow> 'h \<Rightarrow> 'h" where
  "ARM_MPU_Disable B h =
     (let (v, h) = bus_read B shcsr_reg h;
          h = bus_write B shcsr_reg (v AND NOT (Msk SCB_fault_fields ''SHCSR'' ''MEMFAULTENA'')) h;
          (v, h) = bus_read B (mpu_reg ''CTRL'') h in
      bus_write B (mpu_reg ''CTRL'') (v AND NOT (Msk MPU_fields ''CTRL'' ''ENABLE'')) h)"

definition ARM_MPU_ClrRegion :: "'h bus \<Rightarrow> u32 \<Rightarrow> 'h \<Rightarrow> 'h" where
  "ARM_MPU_ClrRegion B rnr h =
     (let h = bus_write B (mpu_reg ''RNR'') rnr h in bus_write B (mpu_reg ''RASR'') 0 h)"

definition ARM_MPU_SetRegion :: "'h bus \<Rightarrow> u32 \<Rightarrow> u32 \<Rightarrow> 'h \<Rightarrow> 'h" where
  "ARM_MPU_SetRegion B rbar rasr h =
     (let h = bus_write B (mpu_reg ''RBAR'') rbar h in bus_write B (mpu_reg ''RASR'') rasr h)"

definition ARM_MPU_SetRegionEx :: "'h bus \<Rightarrow> u32 \<Rightarrow> u32 \<Rightarrow> u32 \<Rightarrow> 'h \<Rightarrow> 'h" where
  "ARM_MPU_SetRegionEx B rnr rbar rasr h =
     (let h = bus_write B (mpu_reg ''RNR'') rnr h;
          h = bus_write B (mpu_reg ''RBAR'') rbar h in
      bus_write B (mpu_reg ''RASR'') rasr h)"

function mpu_copy_loop :: "'h bus \<Rightarrow> nat \<Rightarrow> u32 list \<Rightarrow> u32 \<Rightarrow> u32 \<Rightarrow> 'h \<Rightarrow> 'h option" where
  "mpu_copy_loop B dst src len i h =
     (if i < len then
        if unat i < length src then mpu_copy_loop B dst src len (i + 1) (bus_write B (dst + 4 * unat i) (src ! unat i) h)
        else None
      else Some h)"
  by pat_completeness auto

lemma unat_inc: "i < len \<Longrightarrow> unat (i + 1) = Suc (unat i)" for i len :: u32
proof -
  assume "i < len"
  then have "Suc (unat i) < 2 ^ 32" using unsigned_less [of len, where 'a = nat] by (simp add: word_less_nat_alt)
  then show ?thesis by (simp add: unat_word_ariths)
qed

termination mpu_copy_loop
  by (relation "measure (\<lambda>(B, dst, src, len, i, h). unat len - unat i)") (auto simp: unat_inc word_less_nat_alt)

definition ARM_MPU_OrderedMemcpy :: "'h bus \<Rightarrow> nat \<Rightarrow> u32 list \<Rightarrow> u32 \<Rightarrow> 'h \<Rightarrow> 'h option" where
  "ARM_MPU_OrderedMemcpy B dst src len h = mpu_copy_loop B dst src len 0 h"

definition MPU_TYPE_RALIASES :: u32 where "MPU_TYPE_RALIASES = 4"

text \<open>A table in memory is its rows' words one after the other; \<open>table += n\<close> drops \<open>n\<close> rows.\<close>

definition row_words :: "ARM_MPU_Region_t list \<Rightarrow> u32 list" where
  "row_words table = concat (map (\<lambda>row. [RBAR row, RASR row]) table)"

definition rowWordSize :: u32 where "rowWordSize = 2"

function ARM_MPU_Load :: "'h bus \<Rightarrow> ARM_MPU_Region_t list \<Rightarrow> u32 \<Rightarrow> 'h \<Rightarrow> 'h option" where
  "ARM_MPU_Load B table cnt h =
     (if cnt > MPU_TYPE_RALIASES then
        case ARM_MPU_OrderedMemcpy B (mpu_reg ''RBAR'') (row_words table) (MPU_TYPE_RALIASES * rowWordSize) h of
          None \<Rightarrow> None
        | Some h \<Rightarrow> ARM_MPU_Load B (drop (unat MPU_TYPE_RALIASES) table) (cnt - MPU_TYPE_RALIASES) h
      else ARM_MPU_OrderedMemcpy B (mpu_reg ''RBAR'') (row_words table) (cnt * rowWordSize) h)"
  by pat_completeness auto

lemma unat_less_aliases: "MPU_TYPE_RALIASES < cnt \<Longrightarrow> unat (cnt - MPU_TYPE_RALIASES) = unat cnt - 4"
  by (simp add: MPU_TYPE_RALIASES_def unat_sub word_less_nat_alt word_le_nat_alt)

termination ARM_MPU_Load
  by (relation "measure (\<lambda>(B, table, cnt, h). unat cnt)")
     (simp_all add: unat_less_aliases, simp add: word_less_nat_alt MPU_TYPE_RALIASES_def)

declare mpu_copy_loop.simps [simp del] ARM_MPU_Load.simps [simp del]

subsection \<open>Evaluated addresses and masks\<close>

lemma mpu_offsets:
  "offset_of MPU_Type ''CTRL'' = Some 4" "offset_of MPU_Type ''RNR'' = Some 8"
  "offset_of MPU_Type ''RBAR'' = Some 0xC" "offset_of MPU_Type ''RASR'' = Some 0x10"
  by code_simp+

lemma mpu_regs [simp]:
  "mpu_reg ''CTRL'' = 0xE000ED94" "mpu_reg ''RNR'' = 0xE000ED98"
  "mpu_reg ''RBAR'' = 0xE000ED9C" "mpu_reg ''RASR'' = 0xE000EDA0"
  by (simp_all add: mpu_reg_def reg_def mpu_offsets MPU_BASE_def SCS_BASE_def)

text \<open>The masks as shifted runs of ones.\<close>

lemma mpu_masks:
  "Msk MPU_fields ''RBAR'' ''ADDR'' = push_bit 5 (mask 27)" "Msk MPU_fields ''RBAR'' ''VALID'' = push_bit 4 (mask 1)"
  "Msk MPU_fields ''RBAR'' ''REGION'' = mask 4" "Msk MPU_fields ''RASR'' ''XN'' = push_bit 28 (mask 1)"
  "Msk MPU_fields ''RASR'' ''AP'' = push_bit 24 (mask 3)" "Msk MPU_fields ''RASR'' ''TEX'' = push_bit 19 (mask 3)"
  "Msk MPU_fields ''RASR'' ''S'' = push_bit 18 (mask 1)" "Msk MPU_fields ''RASR'' ''C'' = push_bit 17 (mask 1)"
  "Msk MPU_fields ''RASR'' ''B'' = push_bit 16 (mask 1)" "Msk MPU_fields ''RASR'' ''SRD'' = push_bit 8 (mask 8)"
  "Msk MPU_fields ''RASR'' ''SIZE'' = push_bit 1 (mask 5)" "Msk MPU_fields ''RASR'' ''ENABLE'' = push_bit 0 (mask 1)"
  by (simp_all add: Msk_def field_in_def MPU_fields_def shifted_def unshifted_def mask_eq_exp_minus_1
      push_bit_eq_mult)

lemma mpu_positions:
  "Pos MPU_fields ''RASR'' ''XN'' = 28" "Pos MPU_fields ''RASR'' ''AP'' = 24" "Pos MPU_fields ''RASR'' ''TEX'' = 19"
  "Pos MPU_fields ''RASR'' ''S'' = 18" "Pos MPU_fields ''RASR'' ''C'' = 17" "Pos MPU_fields ''RASR'' ''B'' = 16"
  "Pos MPU_fields ''RASR'' ''SRD'' = 8" "Pos MPU_fields ''RASR'' ''SIZE'' = 1"
  by (simp_all add: Pos_def field_in_def MPU_fields_def shifted_def unshifted_def)

text \<open>Every size code stands for the number of bytes its comment gives: \<open>2 ^ (code + 1)\<close>, as the
  architecture defines the field.\<close>

lemma region_sizes: "list_all (\<lambda>(x, code, bytes). bytes = 2 ^ (unat code + 1)) ARM_MPU_REGION_SIZE"
  by (simp add: ARM_MPU_REGION_SIZE_def)

text \<open>A field under its mask, seen through the window of the same or of another field.\<close>

lemma field_same: "p + w \<le> 32 \<Longrightarrow> take_bit w (drop_bit p (v AND push_bit p (mask w))) = take_bit w (drop_bit p v)" for v :: u32
  by (rule bit_word_eqI) (auto simp: bit_simps)

lemma field_other:
  "q + u \<le> p \<or> p + w \<le> q \<Longrightarrow> take_bit u (drop_bit q (v AND push_bit p (mask w))) = 0" for v :: u32
  by (rule bit_word_eqI) (auto simp: bit_simps)

lemma mask_other: "q + u \<le> p \<or> p + w \<le> q \<Longrightarrow> take_bit u (drop_bit q (push_bit p (mask w))) = (0 :: u32)"
  by (rule bit_word_eqI) (auto simp: bit_simps)

lemma field_shifted: "p + w \<le> 32 \<Longrightarrow> take_bit w (drop_bit p (push_bit p v)) = take_bit w v" for v :: u32
  by (rule bit_word_eqI) (auto simp: bit_simps)

lemma attribute_mask:
  "push_bit 19 (mask 3) OR push_bit 18 (mask 1) OR push_bit 17 (mask 1) OR push_bit 16 (mask 1) =
   (push_bit 16 (mask 6) :: u32)"
  by (simp add: mask_eq_exp_minus_1 push_bit_eq_mult)

text \<open>The fields of a composed value read back as its arguments, cut to their widths.\<close>

lemma rasr_fields:
  "take_bit 5 (drop_bit 1 (ARM_MPU_RASR_EX xn ap attr srd sz)) = take_bit 5 sz"
  "take_bit 8 (drop_bit 8 (ARM_MPU_RASR_EX xn ap attr srd sz)) = take_bit 8 srd"
  "take_bit 3 (drop_bit 24 (ARM_MPU_RASR_EX xn ap attr srd sz)) = take_bit 3 ap"
  "take_bit 1 (drop_bit 28 (ARM_MPU_RASR_EX xn ap attr srd sz)) = take_bit 1 xn"
  "take_bit 6 (drop_bit 16 (ARM_MPU_RASR_EX xn ap attr srd sz)) = take_bit 6 (drop_bit 16 attr)"
  unfolding ARM_MPU_RASR_EX_def mpu_masks mpu_positions attribute_mask drop_bit_or take_bit_or
  by (simp_all only: field_same field_other mask_other field_shifted arith_simps rel_simps simp_thms
      one_add_one one_plus_numeral numeral_plus_one add_0_left add_0_right or.left_neutral or.right_neutral)

subsection \<open>The unit\<close>

text \<open>The region registers as software sees them: the selected region, and for every region its base and
  its attributes. What \<open>ARM_MPU_Load\<close> relies on, for a unit with \<open>n\<close> regions: a store to any of the four
  RBAR registers whose VALID bit is set selects the region it names and sets its base, a store to any
  of the four RASR registers sets the attributes of the selected region.\<close>

type_synonym mpu_state = "nat \<times> (nat \<Rightarrow> u32 \<times> u32)"

definition rbar_region :: "u32 \<Rightarrow> nat" where
  "rbar_region w = unat (take_bit 4 w)"

definition put_rbar :: "u32 \<Rightarrow> mpu_state \<Rightarrow> mpu_state" where
  "put_rbar w s =
     (rbar_region w, (snd s)(rbar_region w := (w AND push_bit 5 (mask 27), snd (snd s (rbar_region w)))))"

definition put_rasr :: "u32 \<Rightarrow> mpu_state \<Rightarrow> mpu_state" where
  "put_rasr w s = (fst s, (snd s)(fst s := (fst (snd s (fst s)), w)))"

definition mpu_ok :: "nat \<Rightarrow> 'h bus \<Rightarrow> ('h \<Rightarrow> mpu_state) \<Rightarrow> bool" where
  "mpu_ok n B V \<longleftrightarrow>
     (\<forall>k<4. \<forall>w h. bit w 4 \<longrightarrow> rbar_region w < n \<longrightarrow>
        V (bus_write B (mpu_reg ''RBAR'' + 8 * k) w h) = put_rbar w (V h)) \<and>
     (\<forall>k<4. \<forall>w h. fst (V h) < n \<longrightarrow>
        V (bus_write B (mpu_reg ''RASR'' + 8 * k) w h) = put_rasr w (V h))"

definition valid_row :: "nat \<Rightarrow> ARM_MPU_Region_t \<Rightarrow> bool" where
  "valid_row n row \<longleftrightarrow> bit (RBAR row) 4 \<and> rbar_region (RBAR row) < n"

definition put_row :: "ARM_MPU_Region_t \<Rightarrow> mpu_state \<Rightarrow> mpu_state" where
  "put_row row s = put_rasr (RASR row) (put_rbar (RBAR row) s)"

lemma fst_put_rbar [simp]: "fst (put_rbar w s) = rbar_region w"
  by (simp add: put_rbar_def)

text \<open>One region at a time.\<close>

lemma set_region_ok:
  assumes "mpu_ok n B V" and "valid_row n row"
  shows "V (ARM_MPU_SetRegion B (RBAR row) (RASR row) h) = put_row row (V h)"
proof -
  have "V (bus_write B 0xE000ED9C (RBAR row) h) = put_rbar (RBAR row) (V h)"
    using assms by (auto simp: mpu_ok_def valid_row_def dest: spec [of _ 0])
  moreover have "V (bus_write B 0xE000EDA0 (RASR row) h') = put_rasr (RASR row) (V h')" if "fst (V h') < n" for h'
    using assms that by (auto simp: mpu_ok_def dest: spec [of _ 0])
  ultimately show ?thesis
    using assms(2) by (simp add: ARM_MPU_SetRegion_def put_row_def valid_row_def)
qed

lemma set_regions_ok:
  assumes "mpu_ok n B V"
  shows "list_all (valid_row n) rows \<Longrightarrow>
    V (fold (\<lambda>row. ARM_MPU_SetRegion B (RBAR row) (RASR row)) rows h) = fold put_row rows (V h)"
  by (induction rows arbitrary: h) (simp_all add: set_region_ok [OF assms])

text \<open>The copy loop, as stores of a list of words to consecutive addresses.\<close>

fun write_words :: "'h bus \<Rightarrow> nat \<Rightarrow> u32 list \<Rightarrow> 'h \<Rightarrow> 'h" where
  "write_words B a [] h = h"
| "write_words B a (w # ws) h = write_words B (a + 4) ws (bus_write B a w h)"

lemma mpu_copy_loop_writes:
  "unat len \<le> length src \<Longrightarrow>
   mpu_copy_loop B dst src len i h =
     Some (write_words B (dst + 4 * unat i) (drop (unat i) (take (unat len) src)) h)"
proof (induction B dst src len i h rule: mpu_copy_loop.induct)
  case (1 B dst src len i h)
  show ?case
  proof (cases "i < len")
    case True
    then have lt: "unat i < unat len" by (simp add: word_less_nat_alt)
    then have "drop (unat i) (take (unat len) src) = src ! unat i # drop (Suc (unat i)) (take (unat len) src)"
      using "1.prems" by (subst Cons_nth_drop_Suc [symmetric]) simp_all
    then show ?thesis
      using True lt "1.IH" "1.prems" unat_inc [OF True]
      by (subst mpu_copy_loop.simps) (simp add: add.assoc add.commute [of 4])
  next
    case False
    then show ?thesis
      by (subst mpu_copy_loop.simps) (simp add: word_less_nat_alt not_less)
  qed
qed

lemma memcpy_writes:
  "unat len \<le> length src \<Longrightarrow> ARM_MPU_OrderedMemcpy B dst src len h = Some (write_words B dst (take (unat len) src) h)"
  by (simp add: ARM_MPU_OrderedMemcpy_def mpu_copy_loop_writes)

lemma length_row_words [simp]: "length (row_words t) = 2 * length t"
  by (induction t) (simp_all add: row_words_def)

lemma take_row_words: "take (2 * k) (row_words t) = row_words (take k t)"
proof (induction t arbitrary: k)
  case (Cons row t)
  then show ?case by (cases k) (simp_all add: row_words_def)
qed (simp add: row_words_def)

lemma write_rows:
  assumes "mpu_ok n B V"
  shows "list_all (valid_row n) rows \<Longrightarrow> k + length rows \<le> 4 \<Longrightarrow>
    V (write_words B (mpu_reg ''RBAR'' + 8 * k) (row_words rows) h) = fold put_row rows (V h)"
proof (induction rows arbitrary: k h)
  case (Cons row rows)
  let ?h1 = "bus_write B (mpu_reg ''RBAR'' + 8 * k) (RBAR row) h"
  let ?h2 = "bus_write B (mpu_reg ''RASR'' + 8 * k) (RASR row) ?h1"
  have k: "k < 4" using Cons.prems(2) by simp
  have "V ?h1 = put_rbar (RBAR row) (V h)"
    using assms k Cons.prems(1) unfolding mpu_ok_def by (auto simp: valid_row_def)
  then have "V ?h2 = put_row row (V h)"
    using assms k Cons.prems(1) unfolding mpu_ok_def by (auto simp: valid_row_def put_row_def)
  moreover have "write_words B (mpu_reg ''RBAR'' + 8 * k) (row_words (row # rows)) h =
      write_words B (mpu_reg ''RBAR'' + 8 * Suc k) (row_words rows) ?h2"
    by (simp add: row_words_def add.assoc add.commute)
  ultimately show ?case using Cons.IH [of "Suc k" ?h2] Cons.prems by simp
qed (simp add: row_words_def)

text \<open>The rows copied at once: at most four.\<close>

lemma copy_rows:
  assumes "mpu_ok n B V" and "list_all (valid_row n) (take k table)" and "k \<le> 4" and "k \<le> length table"
    and "unat len = 2 * k"
  shows "\<exists>h'. ARM_MPU_OrderedMemcpy B (mpu_reg ''RBAR'') (row_words table) len h = Some h' \<and>
    V h' = fold put_row (take k table) (V h)"
  using memcpy_writes [of len "row_words table" B "mpu_reg ''RBAR''" h]
    write_rows [OF assms(1,2), of 0 h] assms(3-5)
  by (simp add: take_row_words)

lemma load_rows:
  assumes "mpu_ok n B V"
  shows "unat cnt \<le> length table \<Longrightarrow> list_all (valid_row n) (take (unat cnt) table) \<Longrightarrow>
    \<exists>h'. ARM_MPU_Load B table cnt h = Some h' \<and> V h' = fold put_row (take (unat cnt) table) (V h)"
proof (induction "unat cnt" arbitrary: table cnt h rule: less_induct)
  case less
  show ?case
  proof (cases "MPU_TYPE_RALIASES < cnt")
    case True
    then have c: "4 < unat cnt" by (simp add: MPU_TYPE_RALIASES_def word_less_nat_alt)
    define n4 where "n4 = unat cnt - 4"
    have split: "take (unat cnt) table = take 4 table @ take n4 (drop 4 table)"
      using c take_add [of 4 n4 table] by (simp add: n4_def)
    have cnt': "unat (cnt - MPU_TYPE_RALIASES) = n4" by (simp add: n4_def unat_less_aliases [OF True])
    have valid: "list_all (valid_row n) (take 4 table)" "list_all (valid_row n) (take n4 (drop 4 table))"
      using less.prems(2) by (simp_all add: split)
    obtain h1 where h1: "ARM_MPU_OrderedMemcpy B (mpu_reg ''RBAR'') (row_words table) (MPU_TYPE_RALIASES * rowWordSize) h = Some h1"
      "V h1 = fold put_row (take 4 table) (V h)"
      using copy_rows [OF assms valid(1), of "MPU_TYPE_RALIASES * rowWordSize" h] c less.prems(1)
      by (auto simp: MPU_TYPE_RALIASES_def rowWordSize_def)
    have "unat (cnt - MPU_TYPE_RALIASES) < unat cnt" using c by (simp add: cnt' n4_def)
    from less.hyps [OF this, of "drop 4 table" h1] obtain h2 where
      "ARM_MPU_Load B (drop 4 table) (cnt - MPU_TYPE_RALIASES) h1 = Some h2"
      "V h2 = fold put_row (take n4 (drop 4 table)) (V h1)"
      using diff_le_mono [OF less.prems(1), of 4] valid(2) by (auto simp: cnt' n4_def)
    then show ?thesis
      using True h1 by (subst ARM_MPU_Load.simps) (simp add: split MPU_TYPE_RALIASES_def)
  next
    case False
    then have "unat cnt \<le> 4" by (simp add: MPU_TYPE_RALIASES_def word_less_nat_alt)
    moreover from this have "unat (cnt * rowWordSize) = 2 * unat cnt"
      by (simp add: rowWordSize_def unat_word_ariths)
    ultimately show ?thesis
      using False copy_rows [OF assms less.prems(2) _ less.prems(1)] by (subst ARM_MPU_Load.simps) simp
  qed
qed

text \<open>The effect of a sequence of rows for distinct regions.\<close>

lemma snd_put_row:
  "snd (put_row row s) = (snd s)(rbar_region (RBAR row) := (RBAR row AND push_bit 5 (mask 27), RASR row))"
  by (simp add: put_row_def put_rasr_def put_rbar_def)

lemma fold_put_row_other:
  "r \<notin> (\<lambda>row. rbar_region (RBAR row)) ` set rows \<Longrightarrow> snd (fold put_row rows s) r = snd s r"
  by (induction rows arbitrary: s) (simp_all add: snd_put_row)

lemma fold_put_row:
  "distinct (map (\<lambda>row. rbar_region (RBAR row)) rows) \<Longrightarrow> row \<in> set rows \<Longrightarrow>
   snd (fold put_row rows s) (rbar_region (RBAR row)) = (RBAR row AND push_bit 5 (mask 27), RASR row)"
proof (induction rows arbitrary: s)
  case (Cons row' rows)
  then show ?case
    using fold_put_row_other [of "rbar_region (RBAR row')" rows "put_row row' s"]
    by (cases "row = row'") (auto simp: snd_put_row)
qed simp

text \<open>A base register value as \<open>ARM_MPU_RBAR\<close> composes it.\<close>

lemma rbar_composed:
  "bit (ARM_MPU_RBAR r b) 4" "rbar_region (ARM_MPU_RBAR r b) = unat (take_bit 4 r)"
  "ARM_MPU_RBAR r b AND push_bit 5 (mask 27) = b AND push_bit 5 (mask 27)"
proof -
  show "bit (ARM_MPU_RBAR r b) 4"
    by (simp add: ARM_MPU_RBAR_def mpu_masks bit_simps)
  have "take_bit 4 (ARM_MPU_RBAR r b) = take_bit 4 r"
    unfolding ARM_MPU_RBAR_def mpu_masks by (rule bit_word_eqI) (auto simp: bit_simps)
  then show "rbar_region (ARM_MPU_RBAR r b) = unat (take_bit 4 r)" by (simp add: rbar_region_def)
  have "r AND mask 4 AND push_bit 5 (mask 27) = 0"
    by (rule bit_word_eqI) (auto simp: bit_simps)
  moreover have "push_bit 4 (mask 1) AND push_bit 5 (mask 27) = (0 :: u32)"
    by (simp add: mask_eq_exp_minus_1 push_bit_eq_mult)
  ultimately show "ARM_MPU_RBAR r b AND push_bit 5 (mask 27) = b AND push_bit 5 (mask 27)"
    unfolding ARM_MPU_RBAR_def mpu_masks
    by (simp only: bit.conj_disj_distrib2 and.assoc and.idem or.right_neutral)
qed

subsection \<open>A concrete unit\<close>

definition sim_mpu_bus :: "mpu_state bus" where
  "sim_mpu_bus = \<lparr>
     bus_read = \<lambda>a h. (0, h),
     bus_write = \<lambda>a w h.
       if a \<in> set (map (\<lambda>k. 0xE000ED9C + 8 * k) [0..<4]) then put_rbar w h
       else if a \<in> set (map (\<lambda>k. 0xE000EDA0 + 8 * k) [0..<4]) then put_rasr w h else h,
     bus_read8 = \<lambda>a h. (0, h), bus_write8 = \<lambda>a b h. h\<rparr>"

lemma sim_mpu_ok: "mpu_ok n sim_mpu_bus id"
  by (auto simp: mpu_ok_def sim_mpu_bus_def) presburger+

subsection \<open>Properties\<close>

text \<open>\<open>ARM_MPU_Load\<close> programs every region of its table. On a unit with \<open>n\<close> regions, loading the first
  \<open>cnt\<close> rows of a table, whose base values are composed by \<open>ARM_MPU_RBAR\<close> for distinct regions below
  \<open>n\<close>, ends without reading past the table and leaves each of these regions with its base address and
  attributes and every other region as it was, although the rows are written four at a time through the
  alias registers; it has the same effect as \<open>ARM_MPU_SetRegion\<close> for each row in turn.\<close>

theorem mpu_load_programs:
  assumes "mpu_ok n B V" and "unat cnt = length cfg"
    and "\<forall>(r, b, a)\<in>set cfg. unat (take_bit 4 r) < n"
    and "distinct (map (\<lambda>(r, b, a). take_bit 4 r) cfg)"
  shows "\<exists>h'. ARM_MPU_Load B (map (\<lambda>(r, b, a). \<lparr>RBAR = ARM_MPU_RBAR r b, RASR = a\<rparr>) cfg @ rest) cnt h = Some h' \<and>
     (\<forall>(r, b, a)\<in>set cfg. snd (V h') (unat (take_bit 4 r)) = (b AND 0xFFFFFFE0, a)) \<and>
     (\<forall>k. k \<notin> (\<lambda>(r, b, a). unat (take_bit 4 r)) ` set cfg \<longrightarrow> snd (V h') k = snd (V h) k) \<and>
     V h' = V (fold (\<lambda>(r, b, a). ARM_MPU_SetRegion B (ARM_MPU_RBAR r b) a) cfg h)"
proof -
  let ?row = "\<lambda>(r, b, a). \<lparr>RBAR = ARM_MPU_RBAR r b, RASR = a\<rparr>"
  let ?rows = "map ?row cfg"
  have region: "rbar_region (RBAR (?row c)) = (\<lambda>(r, b, a). unat (take_bit 4 r)) c" for c
    by (cases c) (simp add: rbar_composed)
  have valid: "valid_row n (?row c)" if "c \<in> set cfg" for c
    using that assms(3) by (cases c) (auto simp: valid_row_def rbar_composed)
  have "list_all (valid_row n) (take (unat cnt) (?rows @ rest))"
    using valid assms(2) by (auto simp: list_all_iff)
  then obtain h' where h': "ARM_MPU_Load B (?rows @ rest) cnt h = Some h'" "V h' = fold put_row ?rows (V h)"
    using load_rows [OF assms(1), of cnt "?rows @ rest" h] assms(2) by auto
  have "distinct (map unat (map (\<lambda>(r, b, a). take_bit 4 r) cfg))"
    using assms(4) inj_on_subset [OF inj_unsigned, of "set (map (\<lambda>(r, b, a). take_bit 4 r) cfg)"]
    by (simp only: distinct_map [of unat]) simp
  then have "distinct (map (\<lambda>row. rbar_region (RBAR row)) ?rows)"
    by (simp add: comp_def rbar_composed case_prod_unfold)
  note distinct_rows = this
  have set_rows: "snd (V h') (rbar_region (RBAR (?row c))) = (RBAR (?row c) AND push_bit 5 (mask 27), RASR (?row c))"
    if "c \<in> set cfg" for c
    unfolding h'(2) by (rule fold_put_row [OF distinct_rows]) (use that in auto)
  have other: "snd (V h') k = snd (V h) k" if "k \<notin> (\<lambda>(r, b, a). unat (take_bit 4 r)) ` set cfg" for k
    using fold_put_row_other [of k ?rows "V h"] that h'(2) region by (auto simp: image_image)
  have "V (fold (\<lambda>(r, b, a). ARM_MPU_SetRegion B (ARM_MPU_RBAR r b) a) cfg h) = fold put_row ?rows (V h)"
    using set_regions_ok [OF assms(1), of ?rows h] valid
    by (simp add: fold_map comp_def list_all_iff case_prod_unfold)
  moreover have mask_addr: "push_bit 5 (mask 27) = (0xFFFFFFE0 :: u32)"
    by (simp add: mask_eq_exp_minus_1 push_bit_eq_mult)
  ultimately show ?thesis
    using h' set_rows other
    by (intro exI [of _ h']) (auto simp: rbar_composed(2) rbar_composed(3) [unfolded mask_addr] mask_addr)
qed

text \<open>Five regions, so that the table is loaded in two parts.\<close>

theorem mpu_load_programs_witness:
  "\<exists>h'. ARM_MPU_Load sim_mpu_bus
     [\<lparr>RBAR = ARM_MPU_RBAR 0 0x20000000, RASR = 11\<rparr>, \<lparr>RBAR = ARM_MPU_RBAR 1 0x20001000, RASR = 12\<rparr>,
      \<lparr>RBAR = ARM_MPU_RBAR 2 0x20002000, RASR = 13\<rparr>, \<lparr>RBAR = ARM_MPU_RBAR 3 0x20003000, RASR = 14\<rparr>,
      \<lparr>RBAR = ARM_MPU_RBAR 5 0x20004004, RASR = 15\<rparr>] 5 (0, \<lambda>_. (0, 0)) = Some h' \<and>
     snd h' 3 = (0x20003000, 14) \<and> snd h' 4 = (0, 0) \<and> snd h' 5 = (0x20004000, 15)"
proof -
  let ?cfg = "[(0, 0x20000000, 11), (1, 0x20001000, 12), (2, 0x20002000, 13), (3, 0x20003000, 14),
    (5, 0x20004004, 15)] :: (u32 \<times> u32 \<times> u32) list"
  have "unat (5 :: u32) = length ?cfg" "\<forall>(r, b, a)\<in>set ?cfg. unat (take_bit 4 r) < 8"
    "distinct (map (\<lambda>(r, b, a). take_bit 4 r) ?cfg)"
    by simp_all
  from mpu_load_programs [OF sim_mpu_ok this, of "[]" "(0, \<lambda>_. (0, 0))"] show ?thesis
    by (elim exE conjE, intro exI conjI) (assumption | simp)+
qed

end
