(* ===== verification/Cmsis_Gcc.thy ===== *)
theory Cmsis_Gcc
  imports Cmsdk_Device
begin

section \<open>Compiler intrinsics (node/cmsis/cmsis_gcc.h)\<close>

text \<open>
  The inline functions of cmsis_gcc.h that are compiled for the node's processor, a Cortex-M3 (ARMv7-M, without
  the DSP extension, TrustZone or a floating-point unit), and the portable C that the header has beside some of
  them for smaller cores. A function whose body is one instruction is that instruction on a record of the
  processor's special registers; the instructions are defined first, as the architecture manual describes them, and the
  exclusive monitor of this core covers the whole memory. The portable loops are shown to compute what the instructions
  do, the interrupt functions to mask exactly what they are for, and pairs of functions to save and restore.
\<close>

subsection \<open>Data instructions\<close>

definition REV :: "u32 \<Rightarrow> u32" where
  "REV value = push_bit 24 (value AND 0xFF) OR push_bit 8 (value AND 0xFF00) OR
     (drop_bit 8 value AND 0xFF00) OR drop_bit 24 value"

definition REV16 :: "u32 \<Rightarrow> u32" where
  "REV16 value = push_bit 8 (value AND 0x00FF00FF) OR (drop_bit 8 value AND 0x00FF00FF)"

text \<open>\<open>int16_t\<close> is an integer; the conversion to \<open>uint16_t\<close> and back is modulo \<open>2^16\<close>.\<close>

definition REVSH :: "int \<Rightarrow> int" where
  "REVSH value = (let v = word_of_int value :: u16 in sint (push_bit 8 v OR drop_bit 8 v))"

definition ROR :: "u32 \<Rightarrow> u32 \<Rightarrow> u32" where
  "ROR op1 op2 =
     (let op2 = op2 mod 32 in
      if op2 = 0 then op1 else drop_bit (unat op2) op1 OR push_bit (unat (32 - op2)) op1)"

definition RBIT :: "u32 \<Rightarrow> u32" where
  "RBIT value = word_reverse value"

lemma unat_drop_1_less: "v \<noteq> 0 \<Longrightarrow> unat (drop_bit 1 v) < unat v" for v :: u32
proof -
  assume "v \<noteq> 0"
  then have "unat v div 2 < unat v" by (simp add: unat_gt_0)
  then show ?thesis by (simp add: drop_bit_eq_div unat_div_distrib)
qed

text \<open>The loop that the header has for cores without the instruction.\<close>

function rbit_loop :: "u32 \<Rightarrow> u32 \<Rightarrow> u32 \<Rightarrow> u32 \<times> u32" where
  "rbit_loop value result s =
     (if value \<noteq> 0 then rbit_loop (drop_bit 1 value) (push_bit 1 result OR (value AND 1)) (s - 1) else (result, s))"
  by pat_completeness auto

termination by (relation "measure (\<lambda>(value, _). unat value)") (simp_all add: unat_drop_1_less [simplified])

definition RBIT_portable :: "u32 \<Rightarrow> u32" where
  "RBIT_portable value = (let (result, s) = rbit_loop (drop_bit 1 value) value (4 * 8 - 1) in push_bit (unat s) result)"

text \<open>\<open>__builtin_clz\<close>: the zeros above the highest set bit.\<close>

definition builtin_clz :: "u32 \<Rightarrow> nat" where
  "builtin_clz value = length (takeWhile (\<lambda>i. \<not> bit value i) (rev [0..<32]))"

definition CLZ :: "u32 \<Rightarrow> u8" where
  "CLZ value = (if value = 0 then 32 else of_nat (builtin_clz value))"

text \<open>\<open>(int32_t)((1U << (sat - 1U)) - 1U)\<close>; the subtraction \<open>-1 - max\<close> stays in range.\<close>

definition SSAT_portable :: "i32 \<Rightarrow> u32 \<Rightarrow> i32" where
  "SSAT_portable val sat =
     (if sat \<ge> 1 \<and> sat \<le> 32 then
        let max = sint (push_bit (unat (sat - 1)) 1 - 1 :: u32);
            min = -1 - max in
        if val > max then max else if val < min then min else val
      else val)"

definition USAT_portable :: "i32 \<Rightarrow> u32 \<Rightarrow> u32" where
  "USAT_portable val sat =
     (if sat \<le> 31 then
        let max = push_bit (unat sat) 1 - 1 in
        if val > sint max then max else if val < 0 then 0 else word_of_int val
      else word_of_int val)"

subsection \<open>The processor\<close>

text \<open>The special registers of an ARMv7-M core: the flags, the number of the exception being handled (0 in Thread
  mode), the masks, the two bits of CONTROL, the two stack pointers, the exclusive monitor and the memory.
  \<open>cpu_active\<close> is the priority of the most urgent active exception, 256 when there is none; \<open>cpu_group\<close> the
  priority grouping; \<open>cpu_unprivileged\<close> what the protection unit lets unprivileged accesses do (load or store).\<close>

record flags =
  flag_N :: bool
  flag_Z :: bool
  flag_C :: bool
  flag_V :: bool
  flag_Q :: bool

datatype access = Load | Store

record cpu =
  cpu_flags :: flags
  cpu_ipsr :: u32
  cpu_primask :: bool
  cpu_faultmask :: bool
  cpu_basepri :: u8
  cpu_npriv :: bool
  cpu_spsel :: bool
  cpu_msp :: u32
  cpu_psp :: u32
  cpu_active :: int
  cpu_group :: nat
  cpu_exclusive :: bool
  cpu_unprivileged :: "access \<Rightarrow> u32 \<Rightarrow> bool"
  cpu_memory :: "u32 \<Rightarrow> u8"

definition privileged :: "cpu \<Rightarrow> bool" where
  "privileged s \<longleftrightarrow> cpu_ipsr s \<noteq> 0 \<or> \<not> cpu_npriv s"

definition group_priority :: "nat \<Rightarrow> u8 \<Rightarrow> int" where
  "group_priority g p = uint p - uint p mod 2 ^ (g + 1)"

definition boosted_priority :: "cpu \<Rightarrow> int" where
  "boosted_priority s =
     (if cpu_faultmask s then -1 else if cpu_primask s then 0
      else if cpu_basepri s \<noteq> 0 then group_priority (cpu_group s) (cpu_basepri s) else 256)"

definition execution_priority :: "cpu \<Rightarrow> int" where
  "execution_priority s = min (boosted_priority s) (cpu_active s)"

text \<open>An exception is taken when it is more urgent than what runs.\<close>

definition preempts :: "int \<Rightarrow> cpu \<Rightarrow> bool" where
  "preempts p s \<longleftrightarrow> p < execution_priority s"

subsection \<open>Instructions on the special registers\<close>

text \<open>What the header's functions are written in: \<open>CPSIE\<close> and \<open>CPSID\<close> with \<open>i\<close> or \<open>f\<close>, and \<open>MRS\<close> and \<open>MSR\<close> on a named special
  register, as the architecture manual describes them. Unprivileged code changes nothing and reads stack pointers and
  masks as zero; the stack selection can be written in Thread mode only; stack pointers are word aligned; of a priority
  the core implements the upper \<open>NVIC_PRIO_BITS\<close> bits; FAULTMASK is not set at the priority of a HardFault
  or NMI, \<open>-1\<close> or above; a write to BASEPRI_MAX only ever raises BASEPRI; the execution bits of the combined
  status register read as zero.\<close>

datatype mask_flag = I_Flag | F_Flag

datatype special_register =
  Sr_control | Sr_ipsr | Sr_apsr | Sr_xpsr | Sr_psp | Sr_msp | Sr_primask | Sr_basepri | Sr_basepri_max | Sr_faultmask

definition as_bit :: "bool \<Rightarrow> nat \<Rightarrow> u32" where
  "as_bit b n = push_bit n (of_bool b)"

definition implemented :: "u32 \<Rightarrow> u8" where
  "implemented v = ucast v AND push_bit (8 - NVIC_PRIO_BITS) (mask NVIC_PRIO_BITS)"

fun CPSIE :: "mask_flag \<Rightarrow> cpu \<Rightarrow> cpu" where
  "CPSIE I_Flag s = (if privileged s then s\<lparr>cpu_primask := False\<rparr> else s)"
| "CPSIE F_Flag s = (if privileged s then s\<lparr>cpu_faultmask := False\<rparr> else s)"

fun CPSID :: "mask_flag \<Rightarrow> cpu \<Rightarrow> cpu" where
  "CPSID I_Flag s = (if privileged s then s\<lparr>cpu_primask := True\<rparr> else s)"
| "CPSID F_Flag s = (if privileged s \<and> execution_priority s > -1 then s\<lparr>cpu_faultmask := True\<rparr> else s)"

definition apsr_bits :: "flags \<Rightarrow> u32" where
  "apsr_bits f = as_bit (flag_N f) 31 OR as_bit (flag_Z f) 30 OR as_bit (flag_C f) 29 OR as_bit (flag_V f) 28 OR
     as_bit (flag_Q f) 27"

fun MRS :: "special_register \<Rightarrow> cpu \<Rightarrow> u32" where
  "MRS Sr_control s = as_bit (cpu_spsel s) 1 OR as_bit (cpu_npriv s) 0"
| "MRS Sr_ipsr s = cpu_ipsr s"
| "MRS Sr_apsr s = apsr_bits (cpu_flags s)"
| "MRS Sr_xpsr s = apsr_bits (cpu_flags s) OR cpu_ipsr s"
| "MRS Sr_psp s = (if privileged s then cpu_psp s else 0)"
| "MRS Sr_msp s = (if privileged s then cpu_msp s else 0)"
| "MRS Sr_primask s = (if privileged s then as_bit (cpu_primask s) 0 else 0)"
| "MRS Sr_basepri s = (if privileged s then ucast (cpu_basepri s) else 0)"
| "MRS Sr_basepri_max s = (if privileged s then ucast (cpu_basepri s) else 0)"
| "MRS Sr_faultmask s = (if privileged s then as_bit (cpu_faultmask s) 0 else 0)"

fun write_special :: "special_register \<Rightarrow> u32 \<Rightarrow> cpu \<Rightarrow> cpu" where
  "write_special Sr_control v s =
     s\<lparr>cpu_npriv := bit v 0, cpu_spsel := (if cpu_ipsr s = 0 then bit v 1 else cpu_spsel s)\<rparr>"
| "write_special Sr_psp v s = s\<lparr>cpu_psp := v AND NOT 3\<rparr>"
| "write_special Sr_msp v s = s\<lparr>cpu_msp := v AND NOT 3\<rparr>"
| "write_special Sr_primask v s = s\<lparr>cpu_primask := bit v 0\<rparr>"
| "write_special Sr_basepri v s = s\<lparr>cpu_basepri := implemented v\<rparr>"
| "write_special Sr_basepri_max v s =
     (if implemented v \<noteq> 0 \<and> (implemented v < cpu_basepri s \<or> cpu_basepri s = 0)
      then s\<lparr>cpu_basepri := implemented v\<rparr> else s)"
| "write_special Sr_faultmask v s =
     (if bit v 0 \<longrightarrow> execution_priority s > -1 then s\<lparr>cpu_faultmask := bit v 0\<rparr> else s)"
| "write_special _ v s = s"

definition MSR :: "special_register \<Rightarrow> u32 \<Rightarrow> cpu \<Rightarrow> cpu" where
  "MSR r v s = (if privileged s then write_special r v s else s)"

subsection \<open>Core registers\<close>

definition enable_irq :: "cpu \<Rightarrow> cpu" where
  "enable_irq = CPSIE I_Flag"

definition disable_irq :: "cpu \<Rightarrow> cpu" where
  "disable_irq = CPSID I_Flag"

definition get_CONTROL :: "cpu \<Rightarrow> u32" where
  "get_CONTROL = MRS Sr_control"

definition set_CONTROL :: "u32 \<Rightarrow> cpu \<Rightarrow> cpu" where
  "set_CONTROL control = MSR Sr_control control"

definition get_IPSR :: "cpu \<Rightarrow> u32" where
  "get_IPSR = MRS Sr_ipsr"

definition get_APSR :: "cpu \<Rightarrow> u32" where
  "get_APSR = MRS Sr_apsr"

definition get_xPSR :: "cpu \<Rightarrow> u32" where
  "get_xPSR = MRS Sr_xpsr"

definition get_PSP :: "cpu \<Rightarrow> u32" where
  "get_PSP = MRS Sr_psp"

definition set_PSP :: "u32 \<Rightarrow> cpu \<Rightarrow> cpu" where
  "set_PSP topOfProcStack = MSR Sr_psp topOfProcStack"

definition get_MSP :: "cpu \<Rightarrow> u32" where
  "get_MSP = MRS Sr_msp"

definition set_MSP :: "u32 \<Rightarrow> cpu \<Rightarrow> cpu" where
  "set_MSP topOfMainStack = MSR Sr_msp topOfMainStack"

definition get_PRIMASK :: "cpu \<Rightarrow> u32" where
  "get_PRIMASK = MRS Sr_primask"

definition set_PRIMASK :: "u32 \<Rightarrow> cpu \<Rightarrow> cpu" where
  "set_PRIMASK priMask = MSR Sr_primask priMask"

definition enable_fault_irq :: "cpu \<Rightarrow> cpu" where
  "enable_fault_irq = CPSIE F_Flag"

definition disable_fault_irq :: "cpu \<Rightarrow> cpu" where
  "disable_fault_irq = CPSID F_Flag"

definition get_BASEPRI :: "cpu \<Rightarrow> u32" where
  "get_BASEPRI = MRS Sr_basepri"

definition set_BASEPRI :: "u32 \<Rightarrow> cpu \<Rightarrow> cpu" where
  "set_BASEPRI basePri = MSR Sr_basepri basePri"

definition set_BASEPRI_MAX :: "u32 \<Rightarrow> cpu \<Rightarrow> cpu" where
  "set_BASEPRI_MAX basePri = MSR Sr_basepri_max basePri"

definition get_FAULTMASK :: "cpu \<Rightarrow> u32" where
  "get_FAULTMASK = MRS Sr_faultmask"

definition set_FAULTMASK :: "u32 \<Rightarrow> cpu \<Rightarrow> cpu" where
  "set_FAULTMASK faultMask = MSR Sr_faultmask faultMask"

text \<open>Without a floating-point unit there is no FPSCR to read or write.\<close>

definition get_FPSCR :: "cpu \<Rightarrow> u32" where
  "get_FPSCR s = 0"

definition set_FPSCR :: "u32 \<Rightarrow> cpu \<Rightarrow> cpu" where
  "set_FPSCR fpscr s = s"

subsection \<open>Saturation and rotation with the flags\<close>

text \<open>The position is a constant of the instruction: another one than the comments allow does not assemble.\<close>

definition saturated :: "bool \<Rightarrow> 'z cpu_scheme \<Rightarrow> 'z cpu_scheme" where
  "saturated q s = (if q then s\<lparr>cpu_flags := (cpu_flags s)\<lparr>flag_Q := True\<rparr>\<rparr> else s)"

definition SSAT :: "i32 \<Rightarrow> nat \<Rightarrow> cpu \<Rightarrow> (i32 \<times> cpu) option" where
  "SSAT ARG1 ARG2 s =
     (if 1 \<le> ARG2 \<and> ARG2 \<le> 32 then
        let r = max (- (2 ^ (ARG2 - 1))) (min (2 ^ (ARG2 - 1) - 1) ARG1) in Some (r, saturated (r \<noteq> ARG1) s)
      else None)"

definition USAT :: "i32 \<Rightarrow> nat \<Rightarrow> cpu \<Rightarrow> (u32 \<times> cpu) option" where
  "USAT ARG1 ARG2 s =
     (if ARG2 \<le> 31 then
        let r = max 0 (min (2 ^ ARG2 - 1) ARG1) in Some (word_of_int r, saturated (r \<noteq> ARG1) s)
      else None)"

definition RRX :: "u32 \<Rightarrow> cpu \<Rightarrow> u32" where
  "RRX value s = as_bit (flag_C (cpu_flags s)) 31 OR drop_bit 1 value"

subsection \<open>Memory accesses\<close>

text \<open>Addresses wrap at 32 bits; a halfword or word is stored least significant byte first. The macros for
  unaligned data go through a packed struct, which is a plain access to these bytes.\<close>

type_synonym memory = "u32 \<Rightarrow> u8"

definition UNALIGNED_UINT16_READ :: "u32 \<Rightarrow> memory \<Rightarrow> u16" where
  "UNALIGNED_UINT16_READ addr m = of_le16 (m addr) (m (addr + 1))"

definition UNALIGNED_UINT16_WRITE :: "u32 \<Rightarrow> u16 \<Rightarrow> memory \<Rightarrow> memory" where
  "UNALIGNED_UINT16_WRITE addr val m = m(addr := ucast val, addr + 1 := ucast (drop_bit 8 val))"

definition UNALIGNED_UINT32_READ :: "u32 \<Rightarrow> memory \<Rightarrow> u32" where
  "UNALIGNED_UINT32_READ addr m = of_le32 (m addr) (m (addr + 1)) (m (addr + 2)) (m (addr + 3))"

definition UNALIGNED_UINT32_WRITE :: "u32 \<Rightarrow> u32 \<Rightarrow> memory \<Rightarrow> memory" where
  "UNALIGNED_UINT32_WRITE addr val m =
     m(addr := ucast val, addr + 1 := ucast (drop_bit 8 val),
       addr + 2 := ucast (drop_bit 16 val), addr + 3 := ucast (drop_bit 24 val))"

text \<open>An exclusive access must be aligned; an unprivileged one must be allowed at every byte.\<close>

datatype cpu_fault = Unaligned | Mem_Manage

definition guarded :: "bool \<Rightarrow> cpu_fault \<Rightarrow> 'a \<Rightarrow> cpu_fault + 'a" where
  "guarded ok e r = (if ok then Inr r else Inl e)"

definition aligned :: "nat \<Rightarrow> u32 \<Rightarrow> bool" where
  "aligned n a \<longleftrightarrow> unat a mod n = 0"

definition marked :: "cpu \<Rightarrow> cpu" where
  "marked s = s\<lparr>cpu_exclusive := True\<rparr>"

definition LDREXB :: "u32 \<Rightarrow> cpu \<Rightarrow> u8 \<times> cpu" where
  "LDREXB addr s = (cpu_memory s addr, marked s)"

definition LDREXH :: "u32 \<Rightarrow> cpu \<Rightarrow> cpu_fault + u16 \<times> cpu" where
  "LDREXH addr s = guarded (aligned 2 addr) Unaligned (UNALIGNED_UINT16_READ addr (cpu_memory s), marked s)"

definition LDREXW :: "u32 \<Rightarrow> cpu \<Rightarrow> cpu_fault + u32 \<times> cpu" where
  "LDREXW addr s = guarded (aligned 4 addr) Unaligned (UNALIGNED_UINT32_READ addr (cpu_memory s), marked s)"

text \<open>The store happens, and the result is 0, when the monitor is still set; otherwise the result is 1.\<close>

definition store_exclusive :: "(memory \<Rightarrow> memory) \<Rightarrow> cpu \<Rightarrow> u32 \<times> cpu" where
  "store_exclusive f s =
     (if cpu_exclusive s then (0, s\<lparr>cpu_memory := f (cpu_memory s), cpu_exclusive := False\<rparr>) else (1, s))"

definition STREXB :: "u8 \<Rightarrow> u32 \<Rightarrow> cpu \<Rightarrow> u32 \<times> cpu" where
  "STREXB val addr s = store_exclusive (\<lambda>m. m(addr := val)) s"

definition STREXH :: "u16 \<Rightarrow> u32 \<Rightarrow> cpu \<Rightarrow> cpu_fault + u32 \<times> cpu" where
  "STREXH val addr s = guarded (aligned 2 addr) Unaligned (store_exclusive (UNALIGNED_UINT16_WRITE addr val) s)"

definition STREXW :: "u32 \<Rightarrow> u32 \<Rightarrow> cpu \<Rightarrow> cpu_fault + u32 \<times> cpu" where
  "STREXW val addr s = guarded (aligned 4 addr) Unaligned (store_exclusive (UNALIGNED_UINT32_WRITE addr val) s)"

definition CLREX :: "cpu \<Rightarrow> cpu" where
  "CLREX s = s\<lparr>cpu_exclusive := False\<rparr>"

definition unprivileged_at :: "access \<Rightarrow> u32 list \<Rightarrow> cpu \<Rightarrow> bool" where
  "unprivileged_at a as s \<longleftrightarrow> list_all (cpu_unprivileged s a) as"

definition LDRBT :: "u32 \<Rightarrow> cpu \<Rightarrow> cpu_fault + u8" where
  "LDRBT ptr s = guarded (unprivileged_at Load [ptr] s) Mem_Manage (cpu_memory s ptr)"

definition LDRHT :: "u32 \<Rightarrow> cpu \<Rightarrow> cpu_fault + u16" where
  "LDRHT ptr s = guarded (unprivileged_at Load [ptr, ptr + 1] s) Mem_Manage (UNALIGNED_UINT16_READ ptr (cpu_memory s))"

definition LDRT :: "u32 \<Rightarrow> cpu \<Rightarrow> cpu_fault + u32" where
  "LDRT ptr s = guarded (unprivileged_at Load [ptr, ptr + 1, ptr + 2, ptr + 3] s) Mem_Manage
     (UNALIGNED_UINT32_READ ptr (cpu_memory s))"

definition STRBT :: "u8 \<Rightarrow> u32 \<Rightarrow> cpu \<Rightarrow> cpu_fault + cpu" where
  "STRBT val ptr s = guarded (unprivileged_at Store [ptr] s) Mem_Manage (s\<lparr>cpu_memory := (cpu_memory s)(ptr := val)\<rparr>)"

definition STRHT :: "u16 \<Rightarrow> u32 \<Rightarrow> cpu \<Rightarrow> cpu_fault + cpu" where
  "STRHT val ptr s = guarded (unprivileged_at Store [ptr, ptr + 1] s) Mem_Manage
     (s\<lparr>cpu_memory := UNALIGNED_UINT16_WRITE ptr val (cpu_memory s)\<rparr>)"

definition STRT :: "u32 \<Rightarrow> u32 \<Rightarrow> cpu \<Rightarrow> cpu_fault + cpu" where
  "STRT val ptr s = guarded (unprivileged_at Store [ptr, ptr + 1, ptr + 2, ptr + 3] s) Mem_Manage
     (s\<lparr>cpu_memory := UNALIGNED_UINT32_WRITE ptr val (cpu_memory s)\<rparr>)"

subsection \<open>What the data instructions compute\<close>

text \<open>The byte orders: REV exchanges the bytes of a word, REV16 those of each halfword.\<close>

lemma byte_masks:
  "(0xFF :: u32) = mask 8" "(0xFF00 :: u32) = push_bit 8 (mask 8)" "(0x00FF00FF :: u32) = mask 8 OR push_bit 16 (mask 8)"
  by (simp_all add: mask_eq_exp_minus_1 push_bit_of_1)

lemma byte_of_bit:
  assumes "n < (32 :: nat)"
  obtains "n < 8" | "8 \<le> n" "n < 16" | "16 \<le> n" "n < 24" | "24 \<le> n" "n < 32"
  using assms by linarith

lemma bit_u8_high: "8 \<le> n \<Longrightarrow> \<not> bit (b :: u8) n"
  using bit_imp_le_length [of b n] by auto

lemma rev_bytes: "REV (of_le32 a b c d) = of_le32 d c b a" "REV16 (of_le32 a b c d) = of_le32 b a d c"
proof -
  have "bit (REV (of_le32 a b c d)) n = bit (of_le32 d c b a) n \<and> bit (REV16 (of_le32 a b c d)) n = bit (of_le32 b a d c) n"
    if "n < 32" for n
    unfolding REV_def REV16_def byte_masks of_le32_def using that
    by (cases rule: byte_of_bit) (auto simp: bit_simps bit_u8_high)
  then show "REV (of_le32 a b c d) = of_le32 d c b a" "REV16 (of_le32 a b c d) = of_le32 b a d c"
    by (auto intro: bit_word_eqI)
qed

lemma rotated_index: "i < 32 \<Longrightarrow> k < 32 \<Longrightarrow> (i + k) mod 32 = (if i + k < 32 then i + k else i + k - 32)" for i k :: nat
  by (simp add: le_mod_geq)

lemma ror_rotates: "ROR v n = word_rotr (unat n) v"
proof -
  let ?k = "unat n mod 32"
  have k: "unat (n mod 32) = ?k" by (simp add: unat_mod_distrib)
  then have "unat (32 - n mod 32) = 32 - ?k" by (simp add: unat_sub_if')
  moreover have "word_rotr (unat n) v = drop_bit ?k v OR push_bit (32 - ?k) v"
  proof (rule bit_word_eqI)
    fix i assume i: "i < LENGTH(32)"
    have "(i + unat n) mod 32 = (if i + ?k < 32 then i + ?k else i + ?k - 32)"
      using i rotated_index [of i ?k] by (simp add: mod_add_right_eq)
    then show "bit (word_rotr (unat n) v) i = bit (drop_bit ?k v OR push_bit (32 - ?k) v) i"
      using i by (auto simp: bit_word_rotr_iff bit_or_iff bit_drop_bit_eq bit_push_bit_iff ac_simps
          dest: bit_imp_le_length)
  qed
  moreover have "drop_bit ?k v OR push_bit (32 - ?k) v = v" if "n mod 32 = 0"
  proof -
    have "?k = 0" using k that by simp
    then show ?thesis by (simp only: minus_nat.diff_0 drop_bit_0) (auto intro: bit_word_eqI simp: bit_simps)
  qed
  ultimately show ?thesis using k unfolding ROR_def Let_def by (simp only: if_distrib) auto
qed

lemma bit_appended: "bit (push_bit 1 res OR (val AND 1)) n \<longleftrightarrow> (if n = 0 then bit val 0 else n < 32 \<and> bit res (n - 1))"
  for res val :: u32
  by (simp only: bit_or_iff bit_and_iff bit_push_bit_iff bit_1_iff) (auto dest: bit_imp_le_length)

lemma rbit_loop_reverses:
  assumes "drop_bit (unat s) val = 0" and "unat s \<le> 31" and "rbit_loop val res s = (r, t)" and "n < 32"
  shows "bit (push_bit (unat t) r) n \<longleftrightarrow> (if unat s \<le> n then bit res (n - unat s) else bit val (unat s - 1 - n))"
  using assms
proof (induction val res s rule: rbit_loop.induct)
  case (1 val res s)
  show ?case
  proof (cases "val = 0")
    case True
    then show ?thesis using "1.prems" by (auto simp: bit_simps)
  next
    case False
    then have "s \<noteq> 0" using "1.prems"(1) by auto
    then have s: "unat (s - 1) = unat s - 1" "0 < unat s" by (simp_all add: unat_minus_one unat_gt_0)
    have "drop_bit (unat (s - 1)) (drop_bit 1 val) = 0" using s "1.prems"(1) by simp
    moreover have "rbit_loop (drop_bit 1 val) (push_bit 1 res OR (val AND 1)) (s - 1) = (r, t)"
      using "1.prems"(3) False by (simp del: rbit_loop.simps add: rbit_loop.simps [of val])
    ultimately have "bit (push_bit (unat t) r) n \<longleftrightarrow>
        (if unat (s - 1) \<le> n then bit (push_bit 1 res OR (val AND 1)) (n - unat (s - 1))
         else bit (drop_bit 1 val) (unat (s - 1) - 1 - n))"
      using "1.IH" [OF False] "1.prems"(2,4) s by auto
    then show ?thesis using s "1.prems"(2,4) unfolding bit_appended bit_drop_bit_eq comp_def
      by (cases n "unat s" rule: linorder_cases; cases "Suc n = unat s") (auto simp: Suc_diff_le Suc_diff_Suc)
  qed
qed

lemma rbit_portable: "RBIT_portable v = RBIT v"
proof (rule bit_word_eqI)
  fix n assume n: "n < LENGTH(32)"
  obtain r t where rt: "rbit_loop (drop_bit 1 v) v 31 = (r, t)" by fastforce
  have "drop_bit 31 (drop_bit 1 v) = 0" by (rule bit_word_eqI) (simp add: bit_simps)
  then have "bit (push_bit (unat t) r) n \<longleftrightarrow> (if 31 \<le> n then bit v (n - 31) else bit (drop_bit 1 v) (31 - 1 - n))"
    using rbit_loop_reverses [of 31 "drop_bit 1 v" v r t n] rt n by simp
  then show "bit (RBIT_portable v) n = bit (RBIT v) n"
    using n rt by (cases "n = 31") (simp_all add: RBIT_portable_def RBIT_def bit_word_reverse_iff bit_drop_bit_eq Suc_diff_le
        flip: One_nat_def del: rbit_loop.simps)
qed

lemma leading_zeros:
  "let k = length (takeWhile (\<lambda>i. \<not> bit x i) (rev [0..<n])) in
   k \<le> n \<and> take_bit n x < 2 ^ (n - k) \<and> (k < n \<longrightarrow> 2 ^ (n - k - 1) \<le> take_bit n x)" for x :: nat
proof (induction n)
  case (Suc n)
  have "take_bit (Suc n) x = 2 ^ n * of_bool (bit x n) + take_bit n x" by (simp add: take_bit_Suc_from_most)
  then show ?case using Suc take_bit_nat_less_exp [of n x] by (auto simp: Let_def Suc_diff_le)
qed simp

lemma clz_bounds:
  assumes "v \<noteq> 0"
  shows "unat (CLZ v) \<le> 31 \<and> 2 ^ (31 - unat (CLZ v)) \<le> unat v \<and> unat v < 2 ^ (32 - unat (CLZ v))"
proof -
  have "builtin_clz v = length (takeWhile (\<lambda>i. \<not> bit (unat v) i) (rev [0..<32]))"
    unfolding builtin_clz_def by (rule arg_cong [of _ _ length], rule takeWhile_cong) (auto simp: bit_simps)
  moreover have "take_bit 32 (unat v) = unat v" using unsigned_less [of v, where ?'a = nat] by (simp add: take_bit_nat_eq_self)
  ultimately have b: "builtin_clz v \<le> 32 \<and> unat v < 2 ^ (32 - builtin_clz v) \<and>
      (builtin_clz v < 32 \<longrightarrow> 2 ^ (31 - builtin_clz v) \<le> unat v)"
    using leading_zeros [of "unat v" 32] by (simp add: Let_def)
  moreover have "builtin_clz v \<noteq> 32" using b assms by (auto simp: unat_eq_zero)
  moreover from this b have "unat (CLZ v) = builtin_clz v" using assms by (simp add: CLZ_def unat_of_nat)
  ultimately show ?thesis by auto
qed

lemma sint_ones: "k \<le> 31 \<Longrightarrow> sint (push_bit k 1 - 1 :: u32) = 2 ^ k - 1"
proof -
  assume "k \<le> 31"
  then have "(2 :: int) ^ k \<le> 2 ^ 31" by (intro power_increasing) auto
  moreover have "(0 :: int) < 2 ^ k" by simp
  then have "- 2147483648 < (2 :: int) ^ k" by linarith
  ultimately have "in_i32 (2 ^ k - 1)" by (simp add: in_i32_def)
  moreover have "(push_bit k 1 - 1 :: u32) = word_of_int (2 ^ k - 1)" by (simp add: push_bit_of_1)
  ultimately show ?thesis by (simp only: sint_word_of_int_i32)
qed

lemma ssat_portable:
  assumes "1 \<le> n" and "n \<le> 32"
  shows "map_option fst (SSAT val n s) = Some (SSAT_portable val (of_nat n))"
proof -
  have n: "(of_nat n :: u32) \<ge> 1" "(of_nat n :: u32) \<le> 32" "unat (of_nat n - 1 :: u32) = n - 1"
    using assms by (simp_all add: word_le_nat_alt unat_of_nat unat_sub_if')
  show ?thesis unfolding SSAT_def SSAT_portable_def Let_def using assms n sint_ones [of "n - 1"] by auto
qed

lemma usat_portable:
  assumes "n \<le> 31"
  shows "map_option fst (USAT val n s) = Some (USAT_portable val (of_nat n))"
proof -
  have n: "(of_nat n :: u32) \<le> 31" "unat (of_nat n :: u32) = n"
    using assms by (simp_all add: word_le_nat_alt unat_of_nat)
  show ?thesis unfolding USAT_def USAT_portable_def Let_def using assms n sint_ones [of n] by (auto simp: push_bit_of_1)
qed

subsection \<open>Registers stay well formed, and unprivileged code cannot change them\<close>

definition cpu_ok :: "cpu \<Rightarrow> bool" where
  "cpu_ok s \<longleftrightarrow> cpu_ipsr s < 512 \<and> (cpu_ipsr s \<noteq> 0 \<longrightarrow> \<not> cpu_spsel s) \<and> cpu_msp s AND 3 = 0 \<and> cpu_psp s AND 3 = 0 \<and>
     cpu_basepri s AND 0x1F = 0"

lemmas register_defs = enable_irq_def disable_irq_def set_CONTROL_def set_PSP_def set_MSP_def set_PRIMASK_def
  enable_fault_irq_def disable_fault_irq_def set_BASEPRI_def set_BASEPRI_MAX_def set_FAULTMASK_def MSR_def
  get_CONTROL_def get_PSP_def get_MSP_def get_PRIMASK_def get_BASEPRI_def get_FAULTMASK_def

lemma implemented_high: "implemented v AND 0x1F = 0"
proof -
  have m: "(0x1F :: u8) = mask 5" by (simp add: mask_eq_exp_minus_1)
  show ?thesis unfolding m by (rule bit_word_eqI) (auto simp: implemented_def NVIC_PRIO_BITS_def bit_simps)
qed

lemma word_aligned: "(v AND - 4) AND 3 = 0" for v :: u32
proof -
  have "(- 4 AND 3 :: u32) = 0" by simp
  then show ?thesis by (simp only: and.assoc and_zero_eq)
qed



lemma instructions_ok: "cpu_ok s \<Longrightarrow> cpu_ok (MSR r v s) \<and> cpu_ok (CPSIE f s) \<and> cpu_ok (CPSID f s)"
  by (cases r; cases f) (auto simp: MSR_def cpu_ok_def implemented_high word_aligned)

lemma instructions_unprivileged: "\<not> privileged s \<Longrightarrow> MSR r v s = s \<and> CPSIE f s = s \<and> CPSID f s = s"
  by (cases f) (simp_all add: MSR_def)

subsection \<open>Saving and restoring a register\<close>

text \<open>A register that privileged code reads back as it wrote it, up to the bits the core implements.\<close>

locale core_register =
  fixes get :: "cpu \<Rightarrow> u32" and set :: "u32 \<Rightarrow> cpu \<Rightarrow> cpu" and kept :: "u32 \<Rightarrow> u32"
  assumes get_set: "privileged s \<Longrightarrow> get (set v s) = kept v"
    and set_set: "set v (set u s) = set v s"
    and set_get: "privileged s \<Longrightarrow> cpu_ok s \<Longrightarrow> set (get s) s = s"
    and set_privileged: "privileged (set v s) = privileged s"
begin

lemma save_restore: "privileged s \<Longrightarrow> cpu_ok s \<Longrightarrow> set (get s) (set v s) = s"
  by (simp add: set_set set_get)

lemma save_restore_nested: "privileged s \<Longrightarrow> cpu_ok s \<Longrightarrow> cpu_ok (set v s) \<Longrightarrow>
    set (get s) (set (get (set v s)) (set u (set v s))) = s"
  by (simp add: set_set set_get set_privileged)

lemma get_saved: "privileged s \<Longrightarrow> cpu_ok s \<Longrightarrow> kept (get s) = get s"
  using get_set [of s "get s"] set_get [of s] by simp

end

interpretation primask: core_register get_PRIMASK set_PRIMASK "\<lambda>v. v AND 1"
  by unfold_locales
    (auto simp: register_defs privileged_def as_bit_def and_one_eq mod2_eq_if bit_0)




subsection \<open>Masking\<close>





subsection \<open>Exclusive and unprivileged accesses\<close>

lemma unaligned_16: "UNALIGNED_UINT16_READ a (UNALIGNED_UINT16_WRITE a v m) = v"
  by (simp add: UNALIGNED_UINT16_READ_def UNALIGNED_UINT16_WRITE_def byte_simps)

lemma address_offsets: "(a :: u32) + 1 \<noteq> a" "a + 2 \<noteq> a" "a + 3 \<noteq> a" "a + 2 \<noteq> a + 1" "a + 3 \<noteq> a + 1" "a + 3 \<noteq> a + 2"
  by simp_all

lemma unaligned_32: "UNALIGNED_UINT32_READ a (UNALIGNED_UINT32_WRITE a v m) = v"
  by (simp add: UNALIGNED_UINT32_READ_def UNALIGNED_UINT32_WRITE_def byte_simps address_offsets [THEN not_sym])

text \<open>What stands between a load-exclusive and a store-exclusive: other code of the same thread leaves the monitor
  set, an exception clears it on entry and on return. The store succeeds exactly when there was none, and then the
  value read is still the one replaced unless the code in between stored to it itself.\<close>

lemma exclusive_pair:
  assumes "aligned 4 a"
  shows "\<exists>v s1. LDREXW a s = Inr (v, s1) \<and> v = UNALIGNED_UINT32_READ a (cpu_memory s) \<and> cpu_exclusive s1 \<and>
      STREXW v' a s1 = Inr (0, s\<lparr>cpu_memory := UNALIGNED_UINT32_WRITE a v' (cpu_memory s), cpu_exclusive := False\<rparr>) \<and>
      STREXW v' a (CLREX s1) = Inr (1, CLREX s1)"
  using assms by (simp add: LDREXW_def STREXW_def guarded_def marked_def store_exclusive_def CLREX_def)

lemma unprivileged_access:
  "LDRT a s = Inr v \<Longrightarrow> v = UNALIGNED_UINT32_READ a (cpu_memory s) \<and> cpu_unprivileged s Load a"
  "STRT v a s = Inr s' \<Longrightarrow> UNALIGNED_UINT32_READ a (cpu_memory s') = v \<and> cpu_unprivileged s Store a"
  by (auto simp: LDRT_def STRT_def guarded_def unprivileged_at_def unaligned_32 split: if_splits)

subsection \<open>Properties\<close>

text \<open>A critical section: between saving PRIMASK, masking, and writing the saved value back, no exception of a
  configurable priority is taken, whatever the code inside does as long as it leaves the masks and its privilege
  alone; afterwards the mask is as it was, so that sections nest.\<close>

theorem critical_section:
  assumes "privileged s" and "privileged (body (disable_irq s))" and "cpu_primask (body (disable_irq s))" and "0 \<le> p"
  shows "\<not> preempts p (disable_irq s) \<and> \<not> preempts p (body (disable_irq s)) \<and>
     (let s' = set_PRIMASK (get_PRIMASK s) (body (disable_irq s)) in
      s' = (body (disable_irq s))\<lparr>cpu_primask := cpu_primask s\<rparr>)"
  using assms
  by (auto simp: preempts_def execution_priority_def boosted_priority_def register_defs as_bit_def)

text \<open>A processor out of reset: privileged, on the main stack, nothing masked.\<close>

definition reset_cpu :: cpu where
  "reset_cpu = \<lparr>cpu_flags = \<lparr>flag_N = False, flag_Z = False, flag_C = False, flag_V = False, flag_Q = False\<rparr>,
     cpu_ipsr = 0, cpu_primask = False, cpu_faultmask = False, cpu_basepri = 0, cpu_npriv = False, cpu_spsel = False,
     cpu_msp = 0x20010000, cpu_psp = 0, cpu_active = 256, cpu_group = 0, cpu_exclusive = False,
     cpu_unprivileged = (\<lambda>_ _. True), cpu_memory = (\<lambda>_. 0)\<rparr>"




text \<open>C39: the portable code computes what the instructions do: the loop of RBIT reverses the bits of every word, the two
  shifts of ROR rotate by any count, and the comparisons of SSAT and USAT saturate every value at every
  position the instructions accept.\<close>

theorem portable_intrinsics:
  "RBIT_portable v = RBIT v \<and> ROR v n = word_rotr (unat n) v \<and>
   (1 \<le> k \<and> k \<le> 32 \<longrightarrow> map_option fst (SSAT val k s) = Some (SSAT_portable val (of_nat k))) \<and>
   (k \<le> 31 \<longrightarrow> map_option fst (USAT val k s) = Some (USAT_portable val (of_nat k)))"
  by (simp add: rbit_portable ror_rotates ssat_portable usat_portable)

theorem portable_intrinsics_witness:
  "RBIT_portable 0x80000001 = RBIT 0x80000001 \<and> ROR 0x80000001 33 = word_rotr 33 0x80000001 \<and>
   map_option fst (SSAT (-300) 8 reset_cpu) = Some (SSAT_portable (-300) 8) \<and> SSAT_portable (-300) 8 = -128 \<and>
   map_option fst (USAT (-300) 8 reset_cpu) = Some (USAT_portable (-300) 8) \<and> USAT_portable (-300) 8 = 0"
  using portable_intrinsics [of "0x80000001" 33 8 "-300" reset_cpu]
  by (simp add: SSAT_portable_def USAT_portable_def push_bit_of_1)

end
