(* ===== verification/Cmsis_Simd.thy ===== *)
theory Cmsis_Simd
  imports Cmsis_Gcc
begin

section \<open>SIMD intrinsics (node/cmsis/cmsis_gcc.h)\<close>

text \<open>
  The functions that cmsis_gcc.h declares for cores with the DSP extension. The header is shared with such
  cores; the node's Cortex-M3 has none of these instructions and the compiler skips the group there. A
  register is read as four bytes or two halfwords, each function is an operation on lanes, and the
  flags are those the architecture manual gives the instruction: four GE bits, and the sticky Q.
\<close>

subsection \<open>Lanes\<close>

record simd_cpu = cpu +
  cpu_ge :: "bool list"

definition byte_lanes :: "u32 \<Rightarrow> u8 list" where
  "byte_lanes v = le32 v"

fun of_bytes :: "u8 list \<Rightarrow> u32" where
  "of_bytes [a, b, c, d] = of_le32 a b c d"
| "of_bytes _ = 0"

definition lo :: "u32 \<Rightarrow> u16" where "lo v = ucast v"

definition hi :: "u32 \<Rightarrow> u16" where "hi v = ucast (drop_bit 16 v)"

definition of_halves :: "u16 \<Rightarrow> u16 \<Rightarrow> u32" where
  "of_halves l h = ucast l OR push_bit 16 (ucast h)"

text \<open>The four ways a lane is computed from the exact sum or difference: modulo its width, halved, saturated as
  signed and saturated as unsigned.\<close>

definition wrapped :: "('w word \<Rightarrow> int) \<Rightarrow> (int \<Rightarrow> int \<Rightarrow> int) \<Rightarrow> 'w word \<Rightarrow> 'w word \<Rightarrow> 'w::len word" where
  "wrapped rd f a b = word_of_int (f (rd a) (rd b))"

definition halved :: "('w word \<Rightarrow> int) \<Rightarrow> (int \<Rightarrow> int \<Rightarrow> int) \<Rightarrow> 'w word \<Rightarrow> 'w word \<Rightarrow> 'w::len word" where
  "halved rd f a b = word_of_int (f (rd a) (rd b) div 2)"

definition clamp :: "int \<Rightarrow> int \<Rightarrow> int \<Rightarrow> int" where
  "clamp l h x = max l (min h x)"

definition sat_signed :: "(int \<Rightarrow> int \<Rightarrow> int) \<Rightarrow> 'w word \<Rightarrow> 'w word \<Rightarrow> 'w::len word" where
  "sat_signed f a b = word_of_int (clamp (- (2 ^ (LENGTH('w) - 1))) (2 ^ (LENGTH('w) - 1) - 1) (f (sint a) (sint b)))"

definition sat_unsigned :: "(int \<Rightarrow> int \<Rightarrow> int) \<Rightarrow> 'w word \<Rightarrow> 'w word \<Rightarrow> 'w::len word" where
  "sat_unsigned f a b = word_of_int (clamp 0 (2 ^ LENGTH('w) - 1) (f (uint a) (uint b)))"

definition on_bytes :: "(u8 \<Rightarrow> u8 \<Rightarrow> u8) \<Rightarrow> u32 \<Rightarrow> u32 \<Rightarrow> u32" where
  "on_bytes f op1 op2 = of_bytes (map2 f (byte_lanes op1) (byte_lanes op2))"

definition on_halves :: "(u16 \<Rightarrow> u16 \<Rightarrow> u16) \<Rightarrow> u32 \<Rightarrow> u32 \<Rightarrow> u32" where
  "on_halves f op1 op2 = of_halves (f (lo op1) (lo op2)) (f (hi op1) (hi op2))"

text \<open>The exchanging operations combine the lower half of one operand with the upper half of the other.\<close>

definition exchanged :: "(u16 \<Rightarrow> u16 \<Rightarrow> u16) \<Rightarrow> (u16 \<Rightarrow> u16 \<Rightarrow> u16) \<Rightarrow> u32 \<Rightarrow> u32 \<Rightarrow> u32" where
  "exchanged f g op1 op2 = of_halves (f (lo op1) (hi op2)) (g (hi op1) (lo op2))"

definition with_ge :: "bool list \<Rightarrow> simd_cpu \<Rightarrow> simd_cpu" where
  "with_ge ge s = s\<lparr>cpu_ge := ge\<rparr>"

definition ge_bytes :: "(u8 \<Rightarrow> u8 \<Rightarrow> bool) \<Rightarrow> u32 \<Rightarrow> u32 \<Rightarrow> simd_cpu \<Rightarrow> simd_cpu" where
  "ge_bytes c op1 op2 = with_ge (map2 c (byte_lanes op1) (byte_lanes op2))"

text \<open>A halfword sets two bits.\<close>

definition ge_halves :: "bool \<Rightarrow> bool \<Rightarrow> simd_cpu \<Rightarrow> simd_cpu" where
  "ge_halves l h = with_ge [l, l, h, h]"

definition sum_ge :: "('w::len word \<Rightarrow> int) \<Rightarrow> int \<Rightarrow> 'w word \<Rightarrow> 'w word \<Rightarrow> bool" where
  "sum_ge rd limit a b \<longleftrightarrow> rd a + rd b \<ge> limit"

definition diff_ge :: "('w::len word \<Rightarrow> int) \<Rightarrow> 'w word \<Rightarrow> 'w word \<Rightarrow> bool" where
  "diff_ge rd a b \<longleftrightarrow> rd a - rd b \<ge> 0"

subsection \<open>Bytes\<close>

definition SADD8 :: "u32 \<Rightarrow> u32 \<Rightarrow> simd_cpu \<Rightarrow> u32 \<times> simd_cpu" where
  "SADD8 op1 op2 s = (on_bytes (wrapped sint (+)) op1 op2, ge_bytes (sum_ge sint 0) op1 op2 s)"

definition QADD8 :: "u32 \<Rightarrow> u32 \<Rightarrow> u32" where
  "QADD8 op1 op2 = on_bytes (sat_signed (+)) op1 op2"

definition SHADD8 :: "u32 \<Rightarrow> u32 \<Rightarrow> u32" where
  "SHADD8 op1 op2 = on_bytes (halved sint (+)) op1 op2"

definition UADD8 :: "u32 \<Rightarrow> u32 \<Rightarrow> simd_cpu \<Rightarrow> u32 \<times> simd_cpu" where
  "UADD8 op1 op2 s = (on_bytes (wrapped uint (+)) op1 op2, ge_bytes (sum_ge uint 0x100) op1 op2 s)"

definition UQADD8 :: "u32 \<Rightarrow> u32 \<Rightarrow> u32" where
  "UQADD8 op1 op2 = on_bytes (sat_unsigned (+)) op1 op2"

definition UHADD8 :: "u32 \<Rightarrow> u32 \<Rightarrow> u32" where
  "UHADD8 op1 op2 = on_bytes (halved uint (+)) op1 op2"

definition SSUB8 :: "u32 \<Rightarrow> u32 \<Rightarrow> simd_cpu \<Rightarrow> u32 \<times> simd_cpu" where
  "SSUB8 op1 op2 s = (on_bytes (wrapped sint (-)) op1 op2, ge_bytes (diff_ge sint) op1 op2 s)"

definition QSUB8 :: "u32 \<Rightarrow> u32 \<Rightarrow> u32" where
  "QSUB8 op1 op2 = on_bytes (sat_signed (-)) op1 op2"

definition SHSUB8 :: "u32 \<Rightarrow> u32 \<Rightarrow> u32" where
  "SHSUB8 op1 op2 = on_bytes (halved sint (-)) op1 op2"

definition USUB8 :: "u32 \<Rightarrow> u32 \<Rightarrow> simd_cpu \<Rightarrow> u32 \<times> simd_cpu" where
  "USUB8 op1 op2 s = (on_bytes (wrapped uint (-)) op1 op2, ge_bytes (diff_ge uint) op1 op2 s)"

definition UQSUB8 :: "u32 \<Rightarrow> u32 \<Rightarrow> u32" where
  "UQSUB8 op1 op2 = on_bytes (sat_unsigned (-)) op1 op2"

definition UHSUB8 :: "u32 \<Rightarrow> u32 \<Rightarrow> u32" where
  "UHSUB8 op1 op2 = on_bytes (halved uint (-)) op1 op2"

subsection \<open>Halfwords\<close>

definition SADD16 :: "u32 \<Rightarrow> u32 \<Rightarrow> simd_cpu \<Rightarrow> u32 \<times> simd_cpu" where
  "SADD16 op1 op2 s = (on_halves (wrapped sint (+)) op1 op2,
      ge_halves (sum_ge sint 0 (lo op1) (lo op2)) (sum_ge sint 0 (hi op1) (hi op2)) s)"

definition QADD16 :: "u32 \<Rightarrow> u32 \<Rightarrow> u32" where
  "QADD16 op1 op2 = on_halves (sat_signed (+)) op1 op2"

definition SHADD16 :: "u32 \<Rightarrow> u32 \<Rightarrow> u32" where
  "SHADD16 op1 op2 = on_halves (halved sint (+)) op1 op2"

definition UADD16 :: "u32 \<Rightarrow> u32 \<Rightarrow> simd_cpu \<Rightarrow> u32 \<times> simd_cpu" where
  "UADD16 op1 op2 s = (on_halves (wrapped uint (+)) op1 op2,
      ge_halves (sum_ge uint 0x10000 (lo op1) (lo op2)) (sum_ge uint 0x10000 (hi op1) (hi op2)) s)"

definition UQADD16 :: "u32 \<Rightarrow> u32 \<Rightarrow> u32" where
  "UQADD16 op1 op2 = on_halves (sat_unsigned (+)) op1 op2"

definition UHADD16 :: "u32 \<Rightarrow> u32 \<Rightarrow> u32" where
  "UHADD16 op1 op2 = on_halves (halved uint (+)) op1 op2"

definition SSUB16 :: "u32 \<Rightarrow> u32 \<Rightarrow> simd_cpu \<Rightarrow> u32 \<times> simd_cpu" where
  "SSUB16 op1 op2 s = (on_halves (wrapped sint (-)) op1 op2,
      ge_halves (diff_ge sint (lo op1) (lo op2)) (diff_ge sint (hi op1) (hi op2)) s)"

definition QSUB16 :: "u32 \<Rightarrow> u32 \<Rightarrow> u32" where
  "QSUB16 op1 op2 = on_halves (sat_signed (-)) op1 op2"

definition SHSUB16 :: "u32 \<Rightarrow> u32 \<Rightarrow> u32" where
  "SHSUB16 op1 op2 = on_halves (halved sint (-)) op1 op2"

definition USUB16 :: "u32 \<Rightarrow> u32 \<Rightarrow> simd_cpu \<Rightarrow> u32 \<times> simd_cpu" where
  "USUB16 op1 op2 s = (on_halves (wrapped uint (-)) op1 op2,
      ge_halves (diff_ge uint (lo op1) (lo op2)) (diff_ge uint (hi op1) (hi op2)) s)"

definition UQSUB16 :: "u32 \<Rightarrow> u32 \<Rightarrow> u32" where
  "UQSUB16 op1 op2 = on_halves (sat_unsigned (-)) op1 op2"

definition UHSUB16 :: "u32 \<Rightarrow> u32 \<Rightarrow> u32" where
  "UHSUB16 op1 op2 = on_halves (halved uint (-)) op1 op2"

subsection \<open>Halfwords exchanged\<close>

definition SASX :: "u32 \<Rightarrow> u32 \<Rightarrow> simd_cpu \<Rightarrow> u32 \<times> simd_cpu" where
  "SASX op1 op2 s = (exchanged (wrapped sint (-)) (wrapped sint (+)) op1 op2,
      ge_halves (diff_ge sint (lo op1) (hi op2)) (sum_ge sint 0 (hi op1) (lo op2)) s)"

definition QASX :: "u32 \<Rightarrow> u32 \<Rightarrow> u32" where
  "QASX op1 op2 = exchanged (sat_signed (-)) (sat_signed (+)) op1 op2"

definition SHASX :: "u32 \<Rightarrow> u32 \<Rightarrow> u32" where
  "SHASX op1 op2 = exchanged (halved sint (-)) (halved sint (+)) op1 op2"

definition UASX :: "u32 \<Rightarrow> u32 \<Rightarrow> simd_cpu \<Rightarrow> u32 \<times> simd_cpu" where
  "UASX op1 op2 s = (exchanged (wrapped uint (-)) (wrapped uint (+)) op1 op2,
      ge_halves (diff_ge uint (lo op1) (hi op2)) (sum_ge uint 0x10000 (hi op1) (lo op2)) s)"

definition UQASX :: "u32 \<Rightarrow> u32 \<Rightarrow> u32" where
  "UQASX op1 op2 = exchanged (sat_unsigned (-)) (sat_unsigned (+)) op1 op2"

definition UHASX :: "u32 \<Rightarrow> u32 \<Rightarrow> u32" where
  "UHASX op1 op2 = exchanged (halved uint (-)) (halved uint (+)) op1 op2"

definition SSAX :: "u32 \<Rightarrow> u32 \<Rightarrow> simd_cpu \<Rightarrow> u32 \<times> simd_cpu" where
  "SSAX op1 op2 s = (exchanged (wrapped sint (+)) (wrapped sint (-)) op1 op2,
      ge_halves (sum_ge sint 0 (lo op1) (hi op2)) (diff_ge sint (hi op1) (lo op2)) s)"

definition QSAX :: "u32 \<Rightarrow> u32 \<Rightarrow> u32" where
  "QSAX op1 op2 = exchanged (sat_signed (+)) (sat_signed (-)) op1 op2"

definition SHSAX :: "u32 \<Rightarrow> u32 \<Rightarrow> u32" where
  "SHSAX op1 op2 = exchanged (halved sint (+)) (halved sint (-)) op1 op2"

definition USAX :: "u32 \<Rightarrow> u32 \<Rightarrow> simd_cpu \<Rightarrow> u32 \<times> simd_cpu" where
  "USAX op1 op2 s = (exchanged (wrapped uint (+)) (wrapped uint (-)) op1 op2,
      ge_halves (sum_ge uint 0x10000 (lo op1) (hi op2)) (diff_ge uint (hi op1) (lo op2)) s)"

definition UQSAX :: "u32 \<Rightarrow> u32 \<Rightarrow> u32" where
  "UQSAX op1 op2 = exchanged (sat_unsigned (+)) (sat_unsigned (-)) op1 op2"

definition UHSAX :: "u32 \<Rightarrow> u32 \<Rightarrow> u32" where
  "UHSAX op1 op2 = exchanged (halved uint (+)) (halved uint (-)) op1 op2"

subsection \<open>Differences, saturation, extension and packing\<close>

definition USAD8 :: "u32 \<Rightarrow> u32 \<Rightarrow> u32" where
  "USAD8 op1 op2 = word_of_int (sum_list (map2 (\<lambda>a b. \<bar>uint a - uint b\<bar>) (byte_lanes op1) (byte_lanes op2)))"

definition USADA8 :: "u32 \<Rightarrow> u32 \<Rightarrow> u32 \<Rightarrow> u32" where
  "USADA8 op1 op2 op3 = op3 + USAD8 op1 op2"

text \<open>The position is a constant of the instruction, 1 to 16 and 0 to 15.\<close>

definition on_each :: "(int \<Rightarrow> int) \<Rightarrow> u32 \<Rightarrow> simd_cpu \<Rightarrow> u32 \<times> simd_cpu" where
  "on_each f v s =
     (of_halves (word_of_int (f (sint (lo v)))) (word_of_int (f (sint (hi v)))),
      saturated (f (sint (lo v)) \<noteq> sint (lo v) \<or> f (sint (hi v)) \<noteq> sint (hi v)) s)"

definition SSAT16 :: "u32 \<Rightarrow> nat \<Rightarrow> simd_cpu \<Rightarrow> (u32 \<times> simd_cpu) option" where
  "SSAT16 ARG1 ARG2 s =
     (if 1 \<le> ARG2 \<and> ARG2 \<le> 16 then Some (on_each (clamp (- (2 ^ (ARG2 - 1))) (2 ^ (ARG2 - 1) - 1)) ARG1 s) else None)"

definition USAT16 :: "u32 \<Rightarrow> nat \<Rightarrow> simd_cpu \<Rightarrow> (u32 \<times> simd_cpu) option" where
  "USAT16 ARG1 ARG2 s = (if ARG2 \<le> 15 then Some (on_each (clamp 0 (2 ^ ARG2 - 1)) ARG1 s) else None)"

text \<open>The lower byte of each halfword, extended to the halfword.\<close>

definition even_bytes :: "u32 \<Rightarrow> u8 \<times> u8" where
  "even_bytes v = (ucast v, ucast (drop_bit 16 v))"

definition UXTB16 :: "u32 \<Rightarrow> u32" where
  "UXTB16 op1 = (case even_bytes op1 of (a, b) \<Rightarrow> of_halves (ucast a) (ucast b))"

definition UXTAB16 :: "u32 \<Rightarrow> u32 \<Rightarrow> u32" where
  "UXTAB16 op1 op2 = on_halves (+) op1 (UXTB16 op2)"

definition SXTB16 :: "u32 \<Rightarrow> u32" where
  "SXTB16 op1 = (case even_bytes op1 of (a, b) \<Rightarrow> of_halves (scast a) (scast b))"

text \<open>\<open>constant\<close> is \<open>__builtin_constant_p(rotate)\<close>, \<open>n\<close> is \<open>rotate\<close>; the instruction rotates its operand by 8, 16 or 24.\<close>

definition SXTB16_RORn :: "bool \<Rightarrow> u32 \<Rightarrow> u32 \<Rightarrow> u32" where
  "SXTB16_RORn constant op1 n =
     (if constant \<and> (n = 8 \<or> n = 16 \<or> n = 24) then SXTB16 (word_rotr (unat n) op1)
      else SXTB16 (ROR op1 n))"

definition SXTAB16 :: "u32 \<Rightarrow> u32 \<Rightarrow> u32" where
  "SXTAB16 op1 op2 = on_halves (+) op1 (SXTB16 op2)"

text \<open>\<open>PKHBT\<close> takes its upper half from the second operand shifted left, \<open>PKHTB\<close> its lower half from it shifted right
  with the sign.\<close>

definition PKHBT :: "u32 \<Rightarrow> u32 \<Rightarrow> nat \<Rightarrow> u32" where
  "PKHBT ARG1 ARG2 ARG3 = of_halves (lo ARG1) (hi (push_bit ARG3 ARG2))"

definition PKHTB :: "u32 \<Rightarrow> u32 \<Rightarrow> nat \<Rightarrow> u32" where
  "PKHTB ARG1 ARG2 ARG3 =
     (if ARG3 = 0 then of_halves (lo ARG2) (hi ARG1) else of_halves (lo (signed_drop_bit ARG3 ARG2)) (hi ARG1))"

definition SEL :: "u32 \<Rightarrow> u32 \<Rightarrow> simd_cpu \<Rightarrow> u32" where
  "SEL op1 op2 s = of_bytes (map2 (\<lambda>c (a, b). if c then a else b) (cpu_ge s) (zip (byte_lanes op1) (byte_lanes op2)))"

subsection \<open>Products\<close>

text \<open>The two products of corresponding halves, or with the halves of the second operand exchanged.\<close>

definition products :: "u32 \<Rightarrow> u32 \<Rightarrow> int \<times> int" where
  "products op1 op2 = (sint (lo op1) * sint (lo op2), sint (hi op1) * sint (hi op2))"

definition swapped :: "u32 \<Rightarrow> u32" where
  "swapped v = word_rotr 16 v"

text \<open>A 32-bit result sets Q when it does not fit.\<close>

definition noted :: "int \<Rightarrow> simd_cpu \<Rightarrow> u32 \<times> simd_cpu" where
  "noted r s = (word_of_int r, saturated (\<not> in_i32 r) s)"

definition SMUAD :: "u32 \<Rightarrow> u32 \<Rightarrow> simd_cpu \<Rightarrow> u32 \<times> simd_cpu" where
  "SMUAD op1 op2 = (case products op1 op2 of (p, q) \<Rightarrow> noted (p + q))"

definition SMUADX :: "u32 \<Rightarrow> u32 \<Rightarrow> simd_cpu \<Rightarrow> u32 \<times> simd_cpu" where
  "SMUADX op1 op2 = (case products op1 (swapped op2) of (p, q) \<Rightarrow> noted (p + q))"

definition SMLAD :: "u32 \<Rightarrow> u32 \<Rightarrow> u32 \<Rightarrow> simd_cpu \<Rightarrow> u32 \<times> simd_cpu" where
  "SMLAD op1 op2 op3 = (case products op1 op2 of (p, q) \<Rightarrow> noted (p + q + sint op3))"

definition SMLADX :: "u32 \<Rightarrow> u32 \<Rightarrow> u32 \<Rightarrow> simd_cpu \<Rightarrow> u32 \<times> simd_cpu" where
  "SMLADX op1 op2 op3 = (case products op1 (swapped op2) of (p, q) \<Rightarrow> noted (p + q + sint op3))"

definition SMLALD :: "u32 \<Rightarrow> u32 \<Rightarrow> 64 word \<Rightarrow> 64 word" where
  "SMLALD op1 op2 acc = (case products op1 op2 of (p, q) \<Rightarrow> word_of_int (p + q + sint acc))"

definition SMLALDX :: "u32 \<Rightarrow> u32 \<Rightarrow> 64 word \<Rightarrow> 64 word" where
  "SMLALDX op1 op2 acc = (case products op1 (swapped op2) of (p, q) \<Rightarrow> word_of_int (p + q + sint acc))"

definition SMUSD :: "u32 \<Rightarrow> u32 \<Rightarrow> u32" where
  "SMUSD op1 op2 = (case products op1 op2 of (p, q) \<Rightarrow> word_of_int (p - q))"

definition SMUSDX :: "u32 \<Rightarrow> u32 \<Rightarrow> u32" where
  "SMUSDX op1 op2 = (case products op1 (swapped op2) of (p, q) \<Rightarrow> word_of_int (p - q))"

definition SMLSD :: "u32 \<Rightarrow> u32 \<Rightarrow> u32 \<Rightarrow> simd_cpu \<Rightarrow> u32 \<times> simd_cpu" where
  "SMLSD op1 op2 op3 = (case products op1 op2 of (p, q) \<Rightarrow> noted (p - q + sint op3))"

definition SMLSDX :: "u32 \<Rightarrow> u32 \<Rightarrow> u32 \<Rightarrow> simd_cpu \<Rightarrow> u32 \<times> simd_cpu" where
  "SMLSDX op1 op2 op3 = (case products op1 (swapped op2) of (p, q) \<Rightarrow> noted (p - q + sint op3))"

definition SMLSLD :: "u32 \<Rightarrow> u32 \<Rightarrow> 64 word \<Rightarrow> 64 word" where
  "SMLSLD op1 op2 acc = (case products op1 op2 of (p, q) \<Rightarrow> word_of_int (p - q + sint acc))"

definition SMLSLDX :: "u32 \<Rightarrow> u32 \<Rightarrow> 64 word \<Rightarrow> 64 word" where
  "SMLSLDX op1 op2 acc = (case products op1 (swapped op2) of (p, q) \<Rightarrow> word_of_int (p - q + sint acc))"

text \<open>Saturating 32-bit arithmetic, and the upper word of a product accumulated at 64 bits; \<open>int32_t\<close> is an integer.\<close>

definition saturating :: "int \<Rightarrow> simd_cpu \<Rightarrow> i32 \<times> simd_cpu" where
  "saturating r s = (clamp (- (2 ^ 31)) (2 ^ 31 - 1) r, saturated (\<not> in_i32 r) s)"

definition QADD :: "i32 \<Rightarrow> i32 \<Rightarrow> simd_cpu \<Rightarrow> i32 \<times> simd_cpu" where
  "QADD op1 op2 = saturating (op1 + op2)"

definition QSUB :: "i32 \<Rightarrow> i32 \<Rightarrow> simd_cpu \<Rightarrow> i32 \<times> simd_cpu" where
  "QSUB op1 op2 = saturating (op1 - op2)"

definition SMMLA :: "i32 \<Rightarrow> i32 \<Rightarrow> i32 \<Rightarrow> i32" where
  "SMMLA op1 op2 op3 = sint (word_of_int ((op3 * 2 ^ 32 + op1 * op2) div 2 ^ 32) :: u32)"

subsection \<open>Every lane for itself\<close>

lemma byte_lanes_on_bytes: "byte_lanes (on_bytes f a b) = map2 f (byte_lanes a) (byte_lanes b)"
  by (simp add: on_bytes_def byte_lanes_def le32_def le32_of_le32 [unfolded le32_def])

lemma halves_of_halves [simp]: "lo (of_halves l h) = l" "hi (of_halves l h) = h"
  by (rule bit_word_eqI; auto simp: lo_def hi_def of_halves_def bit_simps dest: bit_imp_le_length)+

lemma of_halves_split: "of_halves (lo v) (hi v) = v"
  by (rule bit_word_eqI) (auto simp: lo_def hi_def of_halves_def bit_simps)

subsection \<open>What a lane holds\<close>

lemma sint_word_of_int: "- (2 ^ (LENGTH('w) - 1)) \<le> x \<Longrightarrow> x < 2 ^ (LENGTH('w) - 1) \<Longrightarrow> sint (word_of_int x :: 'w::len word) = x"
  by (simp add: signed_of_int signed_take_bit_int_eq_self)

lemma uint_word_of_int_small: "0 \<le> x \<Longrightarrow> x < 2 ^ LENGTH('w) \<Longrightarrow> uint (word_of_int x :: 'w::len word) = x"
  by (simp add: unsigned_of_int take_bit_int_eq_self)

lemma clamp_bounds: "l \<le> h \<Longrightarrow> l \<le> clamp l h x \<and> clamp l h x \<le> h"
  by (simp add: clamp_def)

text \<open>Sums and differences modulo the width do not depend on the sign: the signed and the unsigned functions
  differ in the flags only.\<close>

lemma wrapped_arith:
  "wrapped sint (+) a b = a + b" "wrapped uint (+) a b = a + b"
  "wrapped sint (-) a b = a - b" "wrapped uint (-) a b = a - b" for a b :: "'w::len word"
  by (simp_all add: wrapped_def)

lemma saturated_lane:
  fixes a b :: "'w::len word"
  shows "sint (sat_signed f a b) = clamp (- (2 ^ (LENGTH('w) - 1))) (2 ^ (LENGTH('w) - 1) - 1) (f (sint a) (sint b))"
    and "uint (sat_unsigned f a b) = clamp 0 (2 ^ LENGTH('w) - 1) (f (uint a) (uint b))"
proof -
  have "(0 :: int) < 2 ^ (LENGTH('w) - 1)" by simp
  then show "sint (sat_signed f a b) = clamp (- (2 ^ (LENGTH('w) - 1))) (2 ^ (LENGTH('w) - 1) - 1) (f (sint a) (sint b))"
    unfolding sat_signed_def by (intro sint_word_of_int) (auto simp: clamp_def)
  show "uint (sat_unsigned f a b) = clamp 0 (2 ^ LENGTH('w) - 1) (f (uint a) (uint b))"
    unfolding sat_unsigned_def by (intro uint_word_of_int_small) (auto simp: clamp_def)
qed

text \<open>Halving keeps the carry: the mean of two lanes is exact up to rounding down.\<close>

lemma halved_lane:
  fixes a b :: "'w::len word"
  shows "uint (halved uint (+) a b) = (uint a + uint b) div 2"
    and "sint (halved sint (+) a b) = (sint a + sint b) div 2"
    and "sint (halved sint (-) a b) = (sint a - sint b) div 2"
proof -
  have u: "0 \<le> uint a" "uint a < 2 ^ LENGTH('w)" "0 \<le> uint b" "uint b < 2 ^ LENGTH('w)" by simp_all
  show "uint (halved uint (+) a b) = (uint a + uint b) div 2"
    unfolding halved_def by (rule uint_word_of_int_small) (use u in linarith)+
  have s: "- (2 ^ (LENGTH('w) - 1)) \<le> sint a" "sint a < 2 ^ (LENGTH('w) - 1)"
    "- (2 ^ (LENGTH('w) - 1)) \<le> sint b" "sint b < 2 ^ (LENGTH('w) - 1)"
    using sint_greater_eq [of a] sint_less [of a] sint_greater_eq [of b] sint_less [of b] by auto
  show "sint (halved sint (+) a b) = (sint a + sint b) div 2"
    unfolding halved_def by (rule sint_word_of_int) (use s in linarith)+
  show "sint (halved sint (-) a b) = (sint a - sint b) div 2"
    unfolding halved_def by (rule sint_word_of_int) (use s in linarith)+
qed

subsection \<open>Compositions\<close>

text \<open>Subtracting and then selecting by the flags takes the greater byte of each pair.\<close>

lemma greater_lane: "(if diff_ge uint a b then a else b) = max a b"
proof -
  have "diff_ge uint a b \<longleftrightarrow> b \<le> a" by (simp add: diff_ge_def word_le_def)
  then show ?thesis by (auto simp: max_def)
qed

lemma select_greater: "SEL a b (snd (USUB8 a b s)) = on_bytes max a b"
  by (simp add: SEL_def USUB8_def ge_bytes_def with_ge_def on_bytes_def byte_lanes_def le32_def greater_lane)

text \<open>The instruction with a rotation and the two calls it replaces agree, so that it does not matter whether the
  compiler knows the rotation.\<close>

lemma rotated_extension: "SXTB16_RORn c op1 n = SXTB16 (ROR op1 n)"
  by (simp add: SXTB16_RORn_def ror_rotates)

text \<open>The sum of the products fits unless all four halves are the least number, and only then is Q set; the
  difference always fits.\<close>

lemma product_bounds:
  fixes x y :: int
  assumes x: "- 32768 \<le> x" "x \<le> 32767" and y: "- 32768 \<le> y" "y \<le> 32767"
  shows "- (2 ^ 30) < x * y" "x * y \<le> 2 ^ 30" "x * y = 2 ^ 30 \<longleftrightarrow> x = - 32768 \<and> y = - 32768"
proof -
  have abs: "\<bar>x * y\<bar> \<le> m * n" if "\<bar>x\<bar> \<le> m" "\<bar>y\<bar> \<le> n" for m n
    using mult_mono [OF that] that by (simp add: abs_mult)
  have b: "\<bar>x\<bar> \<le> 32768" "\<bar>y\<bar> \<le> 32768" "x \<noteq> - 32768 \<Longrightarrow> \<bar>x\<bar> \<le> 32767" "y \<noteq> - 32768 \<Longrightarrow> \<bar>y\<bar> \<le> 32767"
    using x y by linarith+
  show "x * y \<le> 2 ^ 30" using abs [OF b(1,2)] by simp
  have small: "\<bar>x * y\<bar> < 2 ^ 30" if "x \<noteq> - 32768 \<or> y \<noteq> - 32768"
    using that abs [OF b(3,2)] abs [OF b(1,4)] by fastforce
  show "x * y = 2 ^ 30 \<longleftrightarrow> x = - 32768 \<and> y = - 32768"
    using small by (cases "x = - 32768 \<and> y = - 32768") auto
  show "- (2 ^ 30) < x * y" using small by (cases "x = - 32768 \<and> y = - 32768") auto
qed

lemma half_bounds: "- 32768 \<le> sint (h :: u16)" "sint h \<le> 32767" "sint h = - 32768 \<longleftrightarrow> h = 0x8000"
proof -
  show "- 32768 \<le> sint h" "sint h \<le> 32767" using sint_greater_eq [of h] sint_less [of h] by simp_all
  have "sint (0x8000 :: u16) = - 32768" by simp
  moreover have "h = word_of_int (sint h)" by simp
  ultimately show "sint h = - 32768 \<longleftrightarrow> h = 0x8000" by fastforce
qed

lemma sum_of_products:
  fixes a b :: u32
  defines "least \<equiv> lo a = 0x8000 \<and> hi a = 0x8000 \<and> lo b = 0x8000 \<and> hi b = 0x8000"
  shows "snd (SMUAD a b s) = saturated least s"
    and "\<not> least \<Longrightarrow> sint (fst (SMUAD a b s)) = sint (lo a) * sint (lo b) + sint (hi a) * sint (hi b)"
    and "sint (SMUSD a b) = sint (lo a) * sint (lo b) - sint (hi a) * sint (hi b)"
proof -
  let ?p = "sint (lo a) * sint (lo b)" and ?q = "sint (hi a) * sint (hi b)"
  note p = product_bounds [OF half_bounds(1,2) [of "lo a"] half_bounds(1,2) [of "lo b"]]
  note q = product_bounds [OF half_bounds(1,2) [of "hi a"] half_bounds(1,2) [of "hi b"]]
  have sum: "in_i32 (?p + ?q) \<longleftrightarrow> \<not> least"
  proof -
    have "in_i32 (?p + ?q) \<longleftrightarrow> \<not> (?p = 2 ^ 30 \<and> ?q = 2 ^ 30)" using p(1,2) q(1,2) by (auto simp: in_i32_def)
    then show ?thesis using p(3) q(3) half_bounds(3) by (auto simp: least_def)
  qed
  show "snd (SMUAD a b s) = saturated least s" using sum by (simp add: SMUAD_def products_def noted_def)
  show "\<not> least \<Longrightarrow> sint (fst (SMUAD a b s)) = ?p + ?q"
    unfolding SMUAD_def products_def noted_def using sum by (simp only: prod.case fst_conv sint_word_of_int_i32 simp_thms)
  have "in_i32 (?p - ?q)" using p(1,2) q(1,2) by (simp add: in_i32_def)
  then show "sint (SMUSD a b) = ?p - ?q"
    unfolding SMUSD_def products_def using sint_word_of_int_i32 by (simp only: prod.case)
qed

text \<open>Saturating addition and subtraction stay in range and are exact whenever the exact result fits.\<close>

lemma saturating_range:
  "in_i32 (fst (saturating r s))" "in_i32 r \<Longrightarrow> saturating r s = (r, s)"
  by (auto simp: saturating_def clamp_def in_i32_def saturated_def)

end
