(* ===== verification/Spec2Isabelle.thy ===== *)
theory Spec2Isabelle
  imports Ring_Buffer Static_Vector Server_Steps Board_Registers Back_Pressure Node_Priority Bench Mpu_Armv7 Cmsis_Simd
begin

text \<open>
  A verification library for SensorLink, a telemetry system of three programs: a sensor node (firmware for a
  Cortex-M3 under FreeRTOS, src/node), a server (one process around an epoll loop, src/server) and a
  dashboard client (src/client), with the wire protocol they share (src/proto). The node frames readings and
  writes them to its UART; the server parses the frames of every device, keeps histories, averages and
  alerts, answers HELLO with CONFIG and congestion with SLOW_DOWN, and publishes lines of text to
  subscribers; the client parses and prints these lines.

  \<^bold>\<open>How the code is modelled.\<close> One theory per component, one definition per function. Fixed-width unsigned
  integers are words and wrap; \<open>std::int32_t\<close> is an integer whose overflow is an explicit error
  (\<open>Signed_Overflow\<close>) where an expression can leave the range; buffers with a capacity are lists updated by
  index. A failing or throwing function returns a sum (\<open>server_error + ...\<close>), and what C++ leaves undefined
  (a dangling pointer, an erase past the end, a signed overflow) is one of the errors, so that a theorem that
  the result is \<open>Inr\<close> says that it does not happen. Loops that end by a measure are \<open>fun\<close> or \<open>function\<close>; loops that
  only the environment ends (reading a socket, polling a register, the event loop) are
  \<open>partial_function (option)\<close>, where \<open>None\<close> is not returning, and termination is proved from what is assumed of
  the environment. No fuel is used anywhere.

  \<^bold>\<open>Code outside the repository\<close> is a parameter with its documented behaviour as a named predicate: the
  Linux calls (record \<open>os\<close>: epoll, sockets, the clock), FreeRTOS (record \<open>rtos\<close>, predicate \<open>rtos_ok\<close>), the UART
  hardware behind its registers (record \<open>bus\<close>, predicate \<open>uart_ok\<close>), and \<open>inet_pton\<close>. Each predicate has a concrete
  instance on which the witnesses run (\<open>quiet_os\<close>, \<open>sim_rtos\<close>, \<open>sim_bus\<close>).

  \<^bold>\<open>The protocol\<close> (src/proto). \<open>Crc16\<close>: crc16.hpp bit by bit; every burst error of up to 16 bits is
  detected. \<open>Cobs\<close>: cobs.hpp as index loops over caller buffers, equal to a recursive reference encoding;
  encoding and decoding are inverse. \<open>Messages\<close>: messages.hpp, the packed structs as bytes, a locale
  \<open>wire_struct\<close> interpreted by all five. \<open>Frame_Encoder\<close>: frame_encoder.hpp on every branch. \<open>Frame_Parser\<close>:
  frame_parser.hpp, its table and arrays; it refines an abstract machine over byte strings (\<open>astep\<close>), from which
  follow the round trip of streams, resynchronisation, and what is dropped. \<open>Ring_Buffer\<close>: ring_buffer.hpp, also
  with push and pop split into their atomic accesses and interleaved. \<open>Static_Vector\<close>: static_vector.hpp. The last
  two extend one contract of containers with a capacity, the locale \<open>bounded_container\<close> of \<open>Prelude\<close>.

  \<^bold>\<open>The server\<close> (src/server). \<open>Device_Session\<close>, \<open>Event_Loop\<close> (epoll wrapper, timer heap, run loop), \<open>Connection\<close>
  (buffers, partial reads and writes), \<open>Text_Stream\<close> (the stream extraction and number formatting the text
  protocol uses, and a locale \<open>line_reader\<close> for anything that consumes lines from chunks), \<open>Store_Data\<close> and
  \<open>Store\<close> (store.cpp: histories, averages, alerts; then the fan-out over subscribers held by pointer), \<open>Excursions\<close>
  (sequences of \<open>record\<close>: the running averages and which readings raise an alert),
  \<open>Subscriber\<close>, \<open>Ingest\<close>, \<open>Server_Main\<close> (main.cpp: listeners, accept loops, housekeeping, main). Shared objects live
  in one record (\<open>hub\<close>, extended by \<open>server\<close>); a pointer is a descriptor, and a look-up that finds nothing is
  \<open>Dangling_Pointer\<close>. \<open>Server_Safety\<close> proves the invariant that ties maps, callbacks and pointers together;
  \<open>Server_Steps\<close> has the server as a step relation and shows that no reachable server ever leaves by an error
  that is memory misuse.

  \<^bold>\<open>The client\<close> (src/client): \<open>Client\<close>, with the round trip of the server's lines.

  \<^bold>\<open>The node\<close> (src/node). \<open>Registers\<close> gives C's struct layout and bit-field macros; \<open>Cmsdk_Device\<close>, \<open>Core_Cm3\<close> and
  \<open>Mps2_Board\<close> are the tables of the three device headers under src/node/cmsis with the offsets their comments
  document; \<open>Board_Registers\<close> shows which registers share addresses and that the fields can be written and read back. \<open>Mmio\<close> is access to a register; \<open>Core_Functions\<close> has
  the interrupt controller, system timer and trace functions of core_cm3.h, \<open>Mpu_Armv7\<close> those of mpu_armv7.h,
  which the node does not call itself, on controllers that are contracts (\<open>nvic_ok\<close>, \<open>mpu_ok\<close>). \<open>Cmsis_Gcc\<close>
  has the intrinsics of cmsis_gcc.h over the processor's instructions on its special registers: the portable loops compute
  what the instructions do, the interrupt functions mask exactly what they are for, and registers can be saved and restored; \<open>Cmsis_Simd\<close> has the lane-wise functions for cores
  with the DSP extension, which the header also serves. \<open>Node_Uart\<close> is the driver,
  \<open>Node_Rtos\<close> the wrappers of src/node/os over the FreeRTOS parameter. \<open>Node_Tasks\<close> has the three tasks as step
  functions with one step per access to shared state, \<open>Node_Steps\<close> their interleaving and invariants, \<open>Node_Boot\<close>
  main, the vector table, fault handlers and hooks, \<open>Node_Runs\<close> the properties of all runs from main: readings in
  order, the configuration atomic, the wire decodable as long as the two writing tasks do not overlap.
  \<open>Node_Priority\<close> has the runs that the scheduler allows with the priorities main gives the tasks, in which the frames of
  the command task stay whole and HELLO comes first.

  \<^bold>\<open>Across the programs\<close>: \<open>System\<close>, \<open>Telemetry\<close> (what the telemetry path promises as a small
  machine over messages, which server and client implement however the stream is cut, and which the runs of
  the node drive), \<open>Outages\<close> (what one run of housekeeping tells the subscribers, and that it returns), \<open>Back_Pressure\<close> (what it tells the
  devices) and this theory,
  with the handshake, the way of the node's readings and outages to the dashboard and of back-pressure to the node.

  \<^bold>\<open>The benchmarks\<close> (src/bench): \<open>Bench\<close>, the load generator and the latency meter, a third reader of lines.

  \<^bold>\<open>Bounds.\<close> Sizes are the code's own (payloads up to 255 bytes, 64 history entries, 8 queued readings, the 16-bit
  session counter); where a theorem needs a counter not to have wrapped, it says so.

  \<^bold>\<open>Not modelled.\<close> FreeRTOS (a submodule) and the hardware; how long anything takes, so that a run may let any
  number of ticks pass between two steps; of cmsis_gcc.h the hints and
  barriers, which have no effect on the state modelled, and the functions for ARMv8 and TrustZone, which are not compiled
  for this processor; cmsis_compiler.h, which only selects the compiler; the linker script; the floating-point interval of
  the load generator (an argument); run_benchmark.py; the tests, build files and documents.
\<close>

section \<open>The whole system\<close>

text \<open>C5: the handshake. When the HELLO frame that the node's command task writes arrives at a server whose
  parser for this device is between frames, the server opens a session and queues a reply; and in these
  bytes the node's command task finds exactly one instruction, which makes its session the one the server
  opened and its rate the offered one, at most 10 Hz.\<close>

theorem handshake:
  assumes "parser_ok 255 (ing_parser g)" and "fp_state (ing_parser g) = kHunting"
    and "hub_conns w fd = Some c" and "cn_read_buffer c = message_frame kHello (hello_payload pl)"
    and "mod_succeeds os" and "os_now os (el_kernel w) = (now, k)"
  shows "\<exists>g' w' reply cfg s. ing_on_readable os fd (g, w) = Inr (g', w') \<and> ing_session g' = Some s \<and>
     outbuf w' fd = outbuf w fd @ reply \<and>
     List.map_filter instruction_of (accepted (fst (arun kMaxPayloadSize reply Hunting))) = [Configure cfg] \<and>
     obey (Configure cfg) old = (min (pl_sample_rate_hz pl) 10, ds_session_id s, True)"
proof -
  let ?h = "\<lparr>hello_device_id = kDeviceId, hello_fw_version = kProtocolVersion,
      hello_metric_count = kMetricCount, hello_offered_rate_hz = pl_sample_rate_hz pl\<rparr>"
  have "cn_read_buffer c = wire_frame kHello (hello_bytes ?h)"
    using assms(4) message_frame_wire [of "hello_payload pl" kHello] payload_lengths(1) [of pl]
    unfolding hello_payload_def by simp
  then obtain g' w' where r: "ing_on_readable os fd (g, w) = Inr (g', w')"
    "let (config, s) = ds_handle_hello ?h (new_device_session (ing_session_id g) now) in
        ing_session g' = Some s \<and> ds_session_id s = ing_session_id g \<and>
        outbuf w' fd = outbuf w fd @ wire_frame kConfig (config_bytes config)"
    using hello_frame_answered [OF assms(1-3) _ assms(5,6), of ?h] by auto
  obtain cfg s where cs: "ds_handle_hello ?h (new_device_session (ing_session_id g) now) = (cfg, s)" by fastforce
  have "config_sample_rate_hz cfg = min (pl_sample_rate_hz pl) 10" "config_session_id cfg = ds_session_id s"
    using cs by (auto simp: ds_handle_hello_def kMaxSampleRateHz_def Let_def)
  then show ?thesis using r cs config_frame_instruction [of cfg] by auto
qed

theorem handshake_witness:
  "\<exists>g' w' reply. ing_on_readable quiet_os 4 (new_ingest 3, one_subscriber_hub\<lparr>hub_conns := [4 \<mapsto>
       (new_connection 4)\<lparr>cn_read_buffer := message_frame kHello (hello_payload (nd_pipeline sim_node))\<rparr>]\<rparr>) =
       Inr (g', w') \<and> outbuf w' 4 = reply \<and>
     length (List.map_filter instruction_of (accepted (fst (arun kMaxPayloadSize reply Hunting)))) = 1"
proof -
  let ?c = "(new_connection 4)\<lparr>cn_read_buffer := message_frame kHello (hello_payload (nd_pipeline sim_node))\<rparr>"
  let ?w = "one_subscriber_hub\<lparr>hub_conns := [4 \<mapsto> ?c]\<rparr>"
  have p: "parser_ok 255 (ing_parser (new_ingest 3))" "fp_state (ing_parser (new_ingest 3)) = kHunting"
    using new_parser_ok [of kMaxPayloadSize]
    by (simp_all add: new_ingest_def kMaxPayloadSize_def new_frame_parser_def)
  have "hub_conns ?w 4 = Some ?c" "outbuf ?w 4 = []" by (simp_all add: outbuf_def new_connection_def)
  then show ?thesis
    using handshake [OF p, of ?w 4 ?c "nd_pipeline sim_node" quiet_os 0 0 "(2, 0, False)"] quiet_mod_succeeds
    by (auto simp: one_subscriber_hub_def quiet_os_def)
qed

text \<open>C3: the server and the client implement the specification of the telemetry path. Whatever HELLO, HEARTBEAT
  and SAMPLE messages a device sends, with values within \<open>\<plusminus>2^30\<close>, and however TCP cuts the bytes of
  their frames, the server handles them all without an error and sends a subscriber to the temperature
  exactly the lines from which the client prints what the specification shows: each reading that follows a
  HELLO, in order, and an alert at the reading that lifts the average above the threshold while no alert is
  open.\<close>

theorem messages_reach_dashboard:
  assumes "mod_succeeds os" and "sees fd p sid d (g, w)" and "view_ok d" and "list_all message_ok ms"
    and "parser_ok 255 (ing_parser g)" and "fp_state (ing_parser g) = kHunting" and "read_empty fd w"
    and "concat chunks = concat (map (\<lambda>m. case framed m of (ty, pl) \<Rightarrow> message_frame ty pl) ms)"
  shows "\<exists>g' w' lines. fold_res (deliver os fd) chunks (g, w) = Inr (g', w') \<and>
     sees fd p sid (snd (show_messages sid ms d)) (g', w') \<and> outbuf w' p = outbuf w p @ lines \<and>
     cl_out (client_receive lines new_client) = map feed_printed (fst (show_messages sid ms d))"
proof -
  obtain g' w' where "fold_res (deliver os fd) chunks (g, w) = Inr (g', w')"
    "sees fd p sid (snd (show_messages sid ms d)) (g', w')"
    "outbuf w' p = outbuf w p @ feed_bytes (fst (show_messages sid ms d))"
    using chunks_show [OF assms(1-5,7) framed_stream [OF assms(6,8)]] by blast
  then show ?thesis using client_shows_feed_bytes [OF assms(4,3), of sid] by blast
qed

theorem messages_reach_dashboard_witness:
  "\<exists>g' w'. fold_res (deliver quiet_os 4)
       [message_frame kHello (hello_bytes \<lparr>hello_device_id = 9, hello_fw_version = 1, hello_metric_count = 2, hello_offered_rate_hz = 20\<rparr>),
        message_frame kSample (sample_payload 0 \<lparr>value_milli = 6000, timestamp_ms = 10\<rparr>)] (new_ingest 3, device_hub) = Inr (g', w') \<and>
     cl_out (client_receive (outbuf w' 7) new_client) =
       [Printed_Sample ''temp'' 6000 3 10, Printed_Alert ''EXCURSION'' 3 10 (Some 6000)]"
proof -
  let ?h = "\<lparr>hello_device_id = 9, hello_fw_version = 1, hello_metric_count = 2, hello_offered_rate_hz = 20\<rparr>"
  let ?rd = "\<lparr>value_milli = 6000, timestamp_ms = 10\<rparr>"
  let ?d = "\<lparr>dv_open = False, dv_average = None, dv_alert = False\<rparr>"
  have ok: "view_ok ?d" "list_all message_ok [Says_Hello ?h, Says_Reading 0 ?rd]" "outbuf device_hub 7 = []"
    by (simp_all add: view_ok_def small_def device_hub_def outbuf_def new_connection_def)
  show ?thesis
    using messages_reach_dashboard [OF quiet_mod_succeeds device_hub_sees ok(1,2) new_ingest_ok device_hub_read_empty,
        of "[message_frame kHello (hello_bytes ?h), message_frame kSample (sample_payload 0 ?rd)]"] ok(3)
    by (auto simp: next_average_def)
qed

text \<open>C4: from the probe to the dashboard. When the node runs without its two writing tasks overlapping and has
  nothing left to write, a server that receives its bytes, in whatever pieces, on a fresh connection sends a
  subscriber to the temperature lines from which the client prints the node's readings: all those whose
  SAMPLE followed the HELLO, once, in the order sampled, with the alert where the specification has it.\<close>

theorem node_to_dashboard:
  assumes "rtos_ok RT V" and "uart_ok B CMSDK_UART0_BASE U" and "idle_ok U hw"
    and "exclusive_run RT B hw (snd (node_main RT B k h c)) tr s"
    and "t_left (nd_telemetry s) = []" and "c_left (nd_command s) = []"
    and "mod_succeeds os" and "sees fd p sid \<lparr>dv_open = False, dv_average = None, dv_alert = False\<rparr> (new_ingest sid, w)"
    and "read_empty fd w" and "concat chunks = puts tr"
  shows "\<exists>ms rest g' w' lines. map framed ms = all_messages tr \<and> sampled tr = readings_of ms @ rest \<and>
     fold_res (deliver os fd) chunks (new_ingest sid, w) = Inr (g', w') \<and> outbuf w' p = outbuf w p @ lines \<and>
     (let shown = cl_out (client_receive lines new_client) in
      shown = map feed_printed (fst (show_messages sid ms \<lparr>dv_open = False, dv_average = None, dv_alert = False\<rparr>)) \<and>
      List.map_filter printed_reading shown =
        map (\<lambda>rd. (value_milli rd, timestamp_ms rd)) (readings_of (dropWhile (\<lambda>m. \<not> is_hello m) ms)))"
proof -
  let ?d = "\<lparr>dv_open = False, dv_average = None, dv_alert = False\<rparr>"
  obtain ms rest where ms: "map framed ms = all_messages tr" "sampled tr = readings_of ms @ rest" "list_all message_ok ms"
    using node_messages [OF assms(1) exclusive_is_run [OF assms(4)]] by blast
  have "frames_bytes (all_messages tr) = puts tr"
    using exclusive_puts [OF assms(1-4)] assms(5,6) by simp
  then have bytes: "concat chunks = concat (map (\<lambda>m. case framed m of (ty, pl) \<Rightarrow> message_frame ty pl) ms)"
    using assms(10) by (simp add: frames_bytes_def comp_def flip: ms(1))
  have "view_ok ?d" by (simp add: view_ok_def)
  moreover obtain g' w' where "fold_res (deliver os fd) chunks (new_ingest sid, w) = Inr (g', w')"
    "outbuf w' p = outbuf w p @ feed_bytes (fst (show_messages sid ms ?d))"
    using chunks_show [OF assms(7,8) calculation ms(3) new_ingest_ok(1) assms(9) framed_stream [OF new_ingest_ok(2) bytes]] by blast
  moreover have "List.map_filter printed_reading (map feed_printed (fst (show_messages sid ms ?d))) =
      map (\<lambda>rd. (value_milli rd, timestamp_ms rd)) (readings_of (dropWhile (\<lambda>m. \<not> is_hello m) ms))"
    using show_readings [of ?d sid ms] by (simp add: map_filter_of_map)
  ultimately show ?thesis
    using ms(1,2) client_shows_feed_bytes [OF ms(3), of ?d sid] unfolding Let_def by auto
qed

theorem node_to_dashboard_witness:
  "\<exists>tr s g' w'. exclusive_run sim_rtos free_bus (=) (snd (node_main sim_rtos free_bus sim_kernel0 sim_uart0 [])) tr s \<and>
     fold_res (deliver quiet_os 4) [puts tr] (new_ingest 3, device_hub) = Inr (g', w') \<and>
     List.map_filter printed_reading (cl_out (client_receive (outbuf w' 7) new_client)) = [(1000, 0)]"
proof -
  obtain tr s where tr: "exclusive_run sim_rtos free_bus (=) (snd (node_main sim_rtos free_bus sim_kernel0 sim_uart0 [])) tr s"
    "t_left (nd_telemetry s) = []" "c_left (nd_command s) = []" "sampled tr = [\<lparr>value_milli = 1000, timestamp_ms = 0\<rparr>]"
    "map fst (all_messages tr) = [kHello, kSample]"
    using hello_then_reading by (elim exE conjE) (rule that)
  have idle: "idle_ok sim_view (=)" by (simp add: idle_ok_def)
  obtain ms rest g' w' where ms: "map framed ms = all_messages tr" "sampled tr = readings_of ms @ rest"
    and run: "fold_res (deliver quiet_os 4) [puts tr] (new_ingest 3, device_hub) = Inr (g', w')"
    "List.map_filter printed_reading (cl_out (client_receive (outbuf w' 7) new_client)) =
        map (\<lambda>rd. (value_milli rd, timestamp_ms rd)) (readings_of (dropWhile (\<lambda>m. \<not> is_hello m) ms))"
    using node_to_dashboard [OF sim_rtos_ok free_bus_ok idle tr(1-3) quiet_mod_succeeds device_hub_sees device_hub_read_empty, of "[puts tr]"]
    by (auto simp: Let_def device_hub_out)
  have "map (fst \<circ> framed) ms = [kHello, kSample]" using arg_cong [OF ms(1), of "map fst"] tr(5) by simp
  then obtain h b rd where "ms = [Says_Hello h, Says_Reading b rd]" by (rule hello_sample_shape)
  then show ?thesis using tr(1,4) run ms(2) by auto
qed

text \<open>C6: a device that goes away is reported. Housekeeping of a well-formed server returns, and every subscriber
  that stays is sent exactly the lines from which the client prints an OFFLINE alert for each device with a
  session that was disconnected or silent for too long, with its last uptime, in the order of the devices, unless
  that session's alert is open already; afterwards exactly these sessions have an open alert in addition.\<close>

theorem outages_reach_dashboard:
  assumes "srv_ok w" and "ctl_succeeds os" and "os_now os (el_kernel w) = (now, k)"
    and "p \<in> set (srv_subscribers w)" and "\<not> subscriber_gone w p"
  shows "\<exists>w' lines. housekeeping os w = Inr w' \<and> outbuf w' p = outbuf w p @ lines \<and>
     (let shown = cl_out (client_receive lines new_client); outs = outages now w in
      shown = map feed_printed (offline_feed (offline_at w) outs) \<and>
      (distinct (map fst outs) \<and> (\<forall>sid \<in> fst ` set outs. \<not> offline_at w sid) \<longrightarrow>
         shown = map (\<lambda>(sid, ts). Printed_Alert ''OFFLINE'' sid ts None) outs) \<and>
      (\<forall>sid. offline_at w' sid \<longleftrightarrow> offline_at w sid \<or> sid \<in> fst ` set outs))"
proof -
  obtain w' where w': "housekeeping os w = Inr w'" using housekeeping_completes [OF assms(2,1)] by blast
  note told = housekeeping_tells [OF assms(1) ctl_mod_succeeds [OF assms(2)] w' assms(3-5)]
  have "cl_out (client_receive (feed_bytes (offline_feed (offline_at w) (outages now w))) new_client) =
      map feed_printed (offline_feed (offline_at w) (outages now w))"
    unfolding feed_bytes_def by (rule client_shows_lines [OF offline_feed_ok])
  then show ?thesis
    using w' told offline_feed_fresh [of "outages now w" "offline_at w"]
    by (auto simp: Let_def opened_def)
qed

theorem outages_reach_dashboard_witness:
  "\<exists>w'. housekeeping quiet_os silent_server = Inr w' \<and>
     cl_out (client_receive (outbuf w' 9) new_client) = [Printed_Alert ''OFFLINE'' 1 0 None] \<and> offline_at w' 1"
proof -
  have "os_now quiet_os (el_kernel silent_server) = (ns_of_ms 60000, ns_of_ms 60000)" "9 \<in> set (srv_subscribers silent_server)"
    by (simp_all add: quiet_os_def silent_server_def)
  from outages_reach_dashboard [OF silent_server_ok quiet_ctl_succeeds this silent_server_outages(2)]
  show ?thesis by (auto simp: silent_server_outages Let_def)
qed

text \<open>C7: back-pressure reaches every node. One run of housekeeping of a well-formed server, on a kernel that
  refuses no change of registration, returns. If a subscriber that is not closed has reached the
  high-water mark, then for every device that has a session and is not gone, bytes are queued in which the
  node's command task finds exactly one instruction, and the rate on record is halved, never below 1 Hz; if no
  subscriber has, nothing is queued for the device and its record stays. Either way a node that runs at the
  rate and session on record before, and obeys what it finds in these bytes, runs at the rate and session
  on record after.\<close>

theorem slow_down_reaches_node:
  assumes "srv_ok w" and "ctl_succeeds os" and "os_now os (el_kernel w) = (now, k)"
  shows "\<exists>w'. housekeeping os w = Inr w' \<and>
     (\<forall>fd g s. map_of (srv_devices w) fd = Some g \<and> ing_session g = Some s \<and> \<not> device_gone now w fd \<longrightarrow>
        (\<exists>bytes g' s'. outbuf w' fd = outbuf w fd @ bytes \<and>
           map_of (srv_devices w') fd = Some g' \<and> ing_session g' = Some s' \<and>
           (let found = List.map_filter instruction_of (accepted (fst (arun kMaxPayloadSize bytes Hunting))) in
            fold obey found (ds_current_rate_hz s, ds_session_id s, True) =
              (ds_current_rate_hz s', ds_session_id s', True) \<and>
            (if \<exists>p \<in> set (srv_subscribers w). congested w p
             then length found = 1 \<and> unat (ds_current_rate_hz s') = max 1 (unat (ds_current_rate_hz s) div 2)
             else bytes = [] \<and> s' = s))))"
proof -
  obtain w' where w': "housekeeping os w = Inr w'" using housekeeping_completes [OF assms(2,1)] by blast
  have any: "(\<exists>p \<in> set (srv_subscribers w). congested w p) \<longleftrightarrow> any_congested w"
    by (simp add: any_congested_def list_ex_iff)
  have "\<exists>g'. outbuf w' fd = outbuf w fd @ slow_down_for (any_congested w) s \<and>
      map_of (srv_devices w') fd = Some g' \<and> ing_session g' = Some (slowed (any_congested w) s)"
    if "map_of (srv_devices w) fd = Some g \<and> ing_session g = Some s \<and> \<not> device_gone now w fd" for fd g s
    using housekeeping_slows [OF assms(1) ctl_mod_succeeds [OF assms(2)] w' assms(3)] that
    by (auto simp: bind_eq_Some_conv)
  moreover have "if any_congested w
      then length (List.map_filter instruction_of (accepted (fst (arun kMaxPayloadSize (slow_down_for (any_congested w) s) Hunting)))) = 1 \<and>
        unat (ds_current_rate_hz (slowed (any_congested w) s)) = max 1 (unat (ds_current_rate_hz s) div 2)
      else slow_down_for (any_congested w) s = [] \<and> slowed (any_congested w) s = s" for s
    unfolding slow_down_found by (simp add: slowed_def slow_down_for_def slower_rate_unat)
  ultimately show ?thesis
    unfolding any Let_def using w' slowed_agrees by blast
qed

theorem slow_down_reaches_node_witness:
  "\<exists>w' bytes cmd. housekeeping quiet_os congested_server = Inr w' \<and> outbuf w' 7 = bytes \<and>
     List.map_filter instruction_of (accepted (fst (arun kMaxPayloadSize bytes Hunting))) = [cmd] \<and>
     (\<exists>g' s'. map_of (srv_devices w') 7 = Some g' \<and> ing_session g' = Some s' \<and> unat (ds_current_rate_hz s') = 5 \<and>
        obey cmd (10, 1, True) = (ds_current_rate_hz s', ds_session_id s', True))"
proof -
  have now: "os_now quiet_os (el_kernel congested_server) = (0, 0)" by (simp add: quiet_os_def congested_server_def)
  have any: "\<exists>p \<in> set (srv_subscribers congested_server). congested congested_server p"
    using congested_server_facts(1) by (simp add: any_congested_def list_ex_iff)
  have dev: "map_of (srv_devices congested_server) 7 =
      Some ((new_ingest 1)\<lparr>ing_session := Some ((new_device_session 1 0)\<lparr>ds_current_rate_hz := 10\<rparr>)\<rparr>) \<and>
    ing_session ((new_ingest 1)\<lparr>ing_session := Some ((new_device_session 1 0)\<lparr>ds_current_rate_hz := 10\<rparr>)\<rparr>) =
      Some ((new_device_session 1 0)\<lparr>ds_current_rate_hz := 10\<rparr>) \<and> \<not> device_gone 0 congested_server 7"
    using congested_server_facts by simp
  obtain w' where w': "housekeeping quiet_os congested_server = Inr w'"
    and all: "\<And>fd g s. map_of (srv_devices congested_server) fd = Some g \<and> ing_session g = Some s \<and>
        \<not> device_gone 0 congested_server fd \<Longrightarrow>
      \<exists>bytes g' s'. outbuf w' fd = outbuf congested_server fd @ bytes \<and> map_of (srv_devices w') fd = Some g' \<and>
        ing_session g' = Some s' \<and>
        (let found = List.map_filter instruction_of (accepted (fst (arun kMaxPayloadSize bytes Hunting))) in
         fold obey found (ds_current_rate_hz s, ds_session_id s, True) = (ds_current_rate_hz s', ds_session_id s', True) \<and>
         length found = 1 \<and> unat (ds_current_rate_hz s') = max 1 (unat (ds_current_rate_hz s) div 2))"
    using slow_down_reaches_node [OF congested_server_ok quiet_ctl_succeeds now] by (simp only: if_P [OF any]) blast
  obtain bytes g' s' where b: "outbuf w' 7 = bytes" "map_of (srv_devices w') 7 = Some g'" "ing_session g' = Some s'"
    "fold obey (List.map_filter instruction_of (accepted (fst (arun kMaxPayloadSize bytes Hunting)))) (10, 1, True) =
       (ds_current_rate_hz s', ds_session_id s', True)"
    "length (List.map_filter instruction_of (accepted (fst (arun kMaxPayloadSize bytes Hunting)))) = 1"
    "unat (ds_current_rate_hz s') = 5"
    using all [OF dev] congested_server_facts(3) by (auto simp: new_device_session_def Let_def)
  then obtain cmd where cmd: "List.map_filter instruction_of (accepted (fst (arun kMaxPayloadSize bytes Hunting))) = [cmd]"
    by (auto simp: length_Suc_conv)
  then have "obey cmd (10, 1, True) = (ds_current_rate_hz s', ds_session_id s', True)" using b(4) by simp
  then show ?thesis using w' b cmd by auto
qed

end
